(* ===== verification/Rust_Prelude.thy ===== *)
theory Rust_Prelude
  imports Main "HOL-Library.Word"
begin

text \<open>
  What the components of the kernel share: the machine integer types, byte strings and
  byte literals, the result of an operation that may panic, checked array accesses and
  checked arithmetic, and the \<open>for\<close> loop over an iterator.

  The kernel is built with the \<^verbatim>\<open>dev\<close> profile (\<^verbatim>\<open>cargo run\<close>,
  \<^verbatim>\<open>cargo test\<close>), in which an arithmetic overflow and an index out of range
  both panic. An operation that may panic therefore returns \<open>rust_panic + 'a\<close>, and
  \<open>Inl\<close> is the panic. \<open>usize\<close> and \<open>u64\<close> values are natural numbers whose
  operations check the 64-bit range; bytes and port values are words.
\<close>

section \<open>Integers and byte strings\<close>

type_synonym u8 = "8 word"
type_synonym u16 = "16 word"
type_synonym u32 = "32 word"
type_synonym u64 = nat
type_synonym usize = nat
type_synonym bytes = "u8 list"

text \<open>A byte literal \<^verbatim>\<open>b'x'\<close> and the bytes of a string literal.\<close>

definition byte :: "char \<Rightarrow> u8" where
  "byte c = of_char c"

definition str :: "string \<Rightarrow> bytes" where
  "str s = map byte s"

text \<open>The byte \<^verbatim>\<open>b'\n'\<close>.\<close>

abbreviation newline :: u8 where
  "newline \<equiv> 10"

text \<open>Printable ASCII, \<^verbatim>\<open>0x20..=0x7e\<close>.\<close>

definition printable :: "u8 \<Rightarrow> bool" where
  "printable x \<longleftrightarrow> 0x20 \<le> x \<and> x \<le> 0x7e"

named_theorems rust_simps \<open>unfolding and evaluation of the panic monad and of checked operations\<close>

section \<open>Panics as values\<close>

datatype rust_panic =
    IndexOutOfBounds usize usize \<comment> \<open>length and index\<close>
  | ArithmeticOverflow
  | Expect bytes \<comment> \<open>the message of \<^verbatim>\<open>expect\<close>\<close>
  | AddressNotCanonical \<comment> \<open>an address constructor refused its argument\<close>
  | AssertionFailed \<comment> \<open>\<^verbatim>\<open>assert!\<close> or \<^verbatim>\<open>assert_eq!\<close> of a test\<close>

type_synonym 'a res = "rust_panic + 'a"

definition rbind :: "'a res \<Rightarrow> ('a \<Rightarrow> 'b res) \<Rightarrow> 'b res" where
  "rbind m f = (case m of Inl p \<Rightarrow> Inl p | Inr x \<Rightarrow> f x)"

lemma rbind_simps [simp, rust_simps]:
  "rbind (Inl p) f = Inl p"
  "rbind (Inr x) f = f x"
  by (simp_all add: rbind_def)

lemma rbind_Inr_iff: "rbind m f = Inr y \<longleftrightarrow> (\<exists>x. m = Inr x \<and> f x = Inr y)"
  by (cases m) simp_all

lemma rbind_assoc: "rbind (rbind m f) g = rbind m (\<lambda>x. rbind (f x) g)"
  by (cases m) simp_all

section \<open>Checked arithmetic and arrays\<close>

definition usize_add :: "usize \<Rightarrow> usize \<Rightarrow> usize res" where
  "usize_add a b = (if a + b < 2 ^ 64 then Inr (a + b) else Inl ArithmeticOverflow)"

definition usize_sub :: "usize \<Rightarrow> usize \<Rightarrow> usize res" where
  "usize_sub a b = (if b \<le> a then Inr (a - b) else Inl ArithmeticOverflow)"

definition usize_mul :: "usize \<Rightarrow> usize \<Rightarrow> usize res" where
  "usize_mul a b = (if a * b < 2 ^ 64 then Inr (a * b) else Inl ArithmeticOverflow)"

lemma usize_add_ok [rust_simps]: "a + b < 2 ^ 64 \<Longrightarrow> usize_add a b = Inr (a + b)"
  by (simp add: usize_add_def)

lemma usize_sub_ok [rust_simps]: "b \<le> a \<Longrightarrow> usize_sub a b = Inr (a - b)"
  by (simp add: usize_sub_def)

lemma usize_mul_ok [rust_simps]: "a * b < 2 ^ 64 \<Longrightarrow> usize_mul a b = Inr (a * b)"
  by (simp add: usize_mul_def)

definition arr_get :: "'a list \<Rightarrow> usize \<Rightarrow> 'a res" where
  "arr_get xs i = (if i < length xs then Inr (xs ! i) else Inl (IndexOutOfBounds (length xs) i))"

definition arr_set :: "'a list \<Rightarrow> usize \<Rightarrow> 'a \<Rightarrow> 'a list res" where
  "arr_set xs i v =
     (if i < length xs then Inr (xs[i := v]) else Inl (IndexOutOfBounds (length xs) i))"

lemma arr_get_ok [rust_simps]: "i < length xs \<Longrightarrow> arr_get xs i = Inr (xs ! i)"
  by (simp add: arr_get_def)

lemma arr_set_ok [rust_simps]: "i < length xs \<Longrightarrow> arr_set xs i v = Inr (xs[i := v])"
  by (simp add: arr_set_def)

section \<open>Loops over an iterator\<close>

fun for_each :: "'i list \<Rightarrow> ('i \<Rightarrow> 's \<Rightarrow> 's res) \<Rightarrow> 's \<Rightarrow> 's res" where
  "for_each [] body s = Inr s"
| "for_each (i # is) body s = rbind (body i s) (for_each is body)"

lemma for_each_append:
  "for_each (is @ js) body s = rbind (for_each is body s) (for_each js body)"
proof (induction "is" arbitrary: s)
  case Nil
  show ?case by simp
next
  case (Cons i "is")
  then show ?case by (cases "body i s") simp_all
qed

text \<open>
  The rule for a counting loop: if the body takes the state \<open>g i\<close> to \<open>g (i + 1)\<close>,
  the loop over \<open>a..b\<close> takes \<open>g a\<close> to \<open>g b\<close>.
\<close>

lemma for_each_upt:
  assumes "a \<le> b"
    and "\<And>i. a \<le> i \<Longrightarrow> i < b \<Longrightarrow> body i (g i) = Inr (g (Suc i))"
  shows "for_each [a..<b] body (g a) = Inr (g b)"
  using assms
proof (induction "b - a" arbitrary: a)
  case 0
  then show ?case by simp
next
  case (Suc n)
  then have "a < b" by simp
  then have "[a..<b] = a # [Suc a..<b]" by (simp add: upt_conv_Cons)
  moreover have "for_each [Suc a..<b] body (g (Suc a)) = Inr (g b)"
    using Suc.hyps(2) \<open>a < b\<close> by (intro Suc.hyps(1)) (auto intro: Suc.prems(2))
  ultimately show ?case using \<open>a < b\<close> by (simp add: Suc.prems(2))
qed

text \<open>An invariant that the body keeps, and under which it does not panic, holds at the end.\<close>

lemma for_each_inv:
  assumes "P s" and "\<And>i s. i \<in> set is \<Longrightarrow> P s \<Longrightarrow> \<exists>s'. body i s = Inr s' \<and> P s'"
  shows "\<exists>s'. for_each is body s = Inr s' \<and> P s'"
  using assms
proof (induction "is" arbitrary: s)
  case Nil
  then show ?case by simp
next
  case (Cons i "is")
  then obtain s' where "body i s = Inr s'" "P s'" by fastforce
  with Cons show ?case by simp
qed

section \<open>Generic facts on lists\<close>

lemma take_Suc_update: "i < length xs \<Longrightarrow> take (Suc i) (xs[i := v]) = take i xs @ [v]"
  by (simp add: take_Suc_conv_app_nth)

lemma list_update_prefix:
  "i < length xs \<Longrightarrow> i < length ys \<Longrightarrow>
     (take i ys @ drop i xs)[i := ys ! i] = take (Suc i) ys @ drop (Suc i) xs"
  by (simp add: list_update_append Cons_nth_drop_Suc [symmetric] take_Suc_conv_app_nth)

lemma str_simps [simp]:
  "str [] = []"
  "str (c # s) = byte c # str s"
  "length (str s) = length s"
  by (simp_all add: str_def)

lemma str_append: "str (s @ t) = str s @ str t"
  by (simp add: str_def)

text \<open>Different literals are different byte strings.\<close>

lemma byte_inj: "byte c = byte d \<longleftrightarrow> c = d"
proof
  have val: "unat (byte x) = of_char x" for x
  proof -
    have "byte x = of_nat (of_char x)" by (cases x) (simp add: byte_def)
    moreover have "(of_char x :: nat) < 256" by simp
    ultimately show ?thesis by (simp add: unat_of_nat)
  qed
  assume "byte c = byte d"
  then have "(of_char c :: nat) = of_char d" using val by metis
  then show "c = d" by simp
qed simp

lemma str_inj: "str s = str t \<longleftrightarrow> s = t"
proof -
  have "inj byte" by (simp add: inj_def byte_inj)
  then show ?thesis by (simp add: str_def inj_map_eq_map)
qed

end
