(* ===== verification/Vga_Buffer.thy ===== *)
theory Vga_Buffer
  imports Rust_Prelude
begin

unbundle bit_operations_syntax

text \<open>
  The text-mode display of \<^verbatim>\<open>src/vga_buffer.rs\<close>: colours, the 25 by 80 grid of
  cells, the \<open>Writer\<close> with its operations, and the port writes that move the hardware
  cursor. A \<open>Writer\<close> method takes the writer and the log of port writes and returns
  both; every array access and every \<open>usize\<close> operation is checked.
\<close>

section \<open>Data\<close>

datatype Color =
    Black | Blue | Green | Cyan | Red | Magenta | Brown | LightGray
  | DarkGray | LightBlue | LightGreen | LightCyan | LightRed | Pink | Yellow | White

fun Color_as_u8 :: "Color \<Rightarrow> u8" where
  "Color_as_u8 Black = 0"
| "Color_as_u8 Blue = 1"
| "Color_as_u8 Green = 2"
| "Color_as_u8 Cyan = 3"
| "Color_as_u8 Red = 4"
| "Color_as_u8 Magenta = 5"
| "Color_as_u8 Brown = 6"
| "Color_as_u8 LightGray = 7"
| "Color_as_u8 DarkGray = 8"
| "Color_as_u8 LightBlue = 9"
| "Color_as_u8 LightGreen = 10"
| "Color_as_u8 LightCyan = 11"
| "Color_as_u8 LightRed = 12"
| "Color_as_u8 Pink = 13"
| "Color_as_u8 Yellow = 14"
| "Color_as_u8 White = 15"

datatype ColorCode = ColorCode u8

definition ColorCode_new :: "Color \<Rightarrow> Color \<Rightarrow> ColorCode" where
  "ColorCode_new foreground background =
     ColorCode (push_bit 4 (Color_as_u8 background) OR Color_as_u8 foreground)"

record ScreenChar =
  ascii_character :: u8
  char_color :: ColorCode

definition BUFFER_HEIGHT :: usize where
  "BUFFER_HEIGHT = 25"

definition BUFFER_WIDTH :: usize where
  "BUFFER_WIDTH = 80"

type_synonym Buffer = "ScreenChar list list"

record Writer =
  column_position :: usize
  color_code :: ColorCode
  buffer :: Buffer

text \<open>A write to an I/O port, as the code issues it: 8 bits or 32 bits wide.\<close>

datatype port_op = Out8 u16 u8 | Out32 u16 u32

definition CRTC_INDEX_PORT :: u16 where
  "CRTC_INDEX_PORT = 0x3D4"

definition CRTC_DATA_PORT :: u16 where
  "CRTC_DATA_PORT = 0x3D5"

definition CURSOR_LOCATION_HIGH :: u8 where
  "CURSOR_LOCATION_HIGH = 0x0E"

definition CURSOR_LOCATION_LOW :: u8 where
  "CURSOR_LOCATION_LOW = 0x0F"

type_synonym vga = "Writer \<times> port_op list"

section \<open>Cells\<close>

text \<open>\<^verbatim>\<open>self.buffer.chars[row][col]\<close>, read and written.\<close>

definition cell_read :: "Buffer \<Rightarrow> usize \<Rightarrow> usize \<Rightarrow> ScreenChar res" where
  "cell_read buf row col = rbind (arr_get buf row) (\<lambda>cells. arr_get cells col)"

definition cell_write :: "Buffer \<Rightarrow> usize \<Rightarrow> usize \<Rightarrow> ScreenChar \<Rightarrow> Buffer res" where
  "cell_write buf row col v =
     rbind (arr_get buf row) (\<lambda>cells. rbind (arr_set cells col v) (arr_set buf row))"

section \<open>The writer\<close>

definition blank :: "Writer \<Rightarrow> ScreenChar" where
  "blank w = \<lparr>ascii_character = 0x20, char_color = color_code w\<rparr>"

definition move_hardware_cursor :: "vga \<Rightarrow> vga res" where
  "move_hardware_cursor = (\<lambda>(w, io).
     rbind (usize_add ((BUFFER_HEIGHT - 1) * BUFFER_WIDTH) (column_position w)) (\<lambda>position.
       Inr (w, io @
         [Out8 CRTC_INDEX_PORT CURSOR_LOCATION_HIGH,
          Out8 CRTC_DATA_PORT (of_nat (drop_bit 8 position AND 0xff)),
          Out8 CRTC_INDEX_PORT CURSOR_LOCATION_LOW,
          Out8 CRTC_DATA_PORT (of_nat (position AND 0xff))])))"

definition clear_row :: "usize \<Rightarrow> Writer \<Rightarrow> Writer res" where
  "clear_row row w =
     rbind (for_each [0..<BUFFER_WIDTH] (\<lambda>col buf. cell_write buf row col (blank w)) (buffer w))
       (\<lambda>buf. Inr (w\<lparr>buffer := buf\<rparr>))"

definition copy_row_up :: "usize \<Rightarrow> Buffer \<Rightarrow> Buffer res" where
  "copy_row_up row =
     for_each [0..<BUFFER_WIDTH] (\<lambda>col buf.
       rbind (cell_read buf row col) (\<lambda>character.
       rbind (usize_sub row 1) (\<lambda>above. cell_write buf above col character)))"

definition new_line :: "Writer \<Rightarrow> Writer res" where
  "new_line w =
     rbind (for_each [1..<BUFFER_HEIGHT] copy_row_up (buffer w)) (\<lambda>buf.
     rbind (clear_row (BUFFER_HEIGHT - 1) (w\<lparr>buffer := buf\<rparr>)) (\<lambda>w'.
     Inr (w'\<lparr>column_position := 0\<rparr>)))"

definition write_byte :: "u8 \<Rightarrow> vga \<Rightarrow> vga res" where
  "write_byte b = (\<lambda>(w, io).
     rbind
       (if b = newline then new_line w
        else
          rbind (if BUFFER_WIDTH \<le> column_position w then new_line w else Inr w) (\<lambda>w.
          rbind (cell_write (buffer w) (BUFFER_HEIGHT - 1) (column_position w)
                   \<lparr>ascii_character = b, char_color = color_code w\<rparr>) (\<lambda>buf.
          rbind (usize_add (column_position w) 1) (\<lambda>col.
          Inr (w\<lparr>buffer := buf, column_position := col\<rparr>)))))
       (\<lambda>w. move_hardware_cursor (w, io)))"

definition write_string_byte :: "u8 \<Rightarrow> vga \<Rightarrow> vga res" where
  "write_string_byte b =
     (if (0x20 \<le> b \<and> b \<le> 0x7e) \<or> b = newline then write_byte b else write_byte 0xfe)"

definition write_string :: "bytes \<Rightarrow> vga \<Rightarrow> vga res" where
  "write_string s = for_each s write_string_byte"

definition clear_screen :: "vga \<Rightarrow> vga res" where
  "clear_screen = (\<lambda>(w, io).
     rbind (for_each [0..<BUFFER_HEIGHT] clear_row w) (\<lambda>w.
     move_hardware_cursor (w\<lparr>column_position := 0\<rparr>, io)))"

definition backspace :: "vga \<Rightarrow> vga res" where
  "backspace = (\<lambda>(w, io).
     if column_position w = 0 then Inr (w, io)
     else
       rbind (usize_sub (column_position w) 1) (\<lambda>col.
       rbind (cell_write (buffer w) (BUFFER_HEIGHT - 1) col (blank w)) (\<lambda>buf.
       move_hardware_cursor (w\<lparr>column_position := col, buffer := buf\<rparr>, io))))"

text \<open>
  \<^verbatim>\<open>fmt::Write for Writer\<close>. \<^verbatim>\<open>write_fmt\<close> hands the pieces of the formatted
  arguments to \<open>write_str\<close> one after the other; \<open>write_str\<close> always returns
  \<^verbatim>\<open>Ok(())\<close>, so the result of \<open>write_fmt\<close> is the state after the last piece.
\<close>

definition write_str :: "bytes \<Rightarrow> vga \<Rightarrow> vga res" where
  "write_str s = write_string s"

definition write_fmt :: "bytes list \<Rightarrow> vga \<Rightarrow> vga res" where
  "write_fmt args = for_each args write_str"

text \<open>
  The initial value of \<^verbatim>\<open>WRITER\<close>: the buffer is whatever the video memory holds at
  boot, so it is an argument.
\<close>

definition Writer_init :: "Buffer \<Rightarrow> Writer" where
  "Writer_init mem =
     \<lparr>column_position = 0, color_code = ColorCode_new Yellow Black, buffer = mem\<rparr>"

section \<open>Searching the screen\<close>

text \<open>
  \<open>window_matches\<close> is the innermost loop, which continues with the next window at the
  first cell that differs; \<open>row_contains\<close> is the loop over the windows of a row.
\<close>

fun window_matches :: "Buffer \<Rightarrow> usize \<Rightarrow> usize \<Rightarrow> bytes \<Rightarrow> bool res" where
  "window_matches buf row at [] = Inr True"
| "window_matches buf row at (b # bs) =
     rbind (cell_read buf row at) (\<lambda>ch.
       if ascii_character ch \<noteq> b then Inr False
       else window_matches buf row (Suc at) bs)"

fun row_contains :: "Buffer \<Rightarrow> usize \<Rightarrow> bytes \<Rightarrow> usize list \<Rightarrow> bool res" where
  "row_contains buf row needle [] = Inr False"
| "row_contains buf row needle (start # starts) =
     rbind (window_matches buf row start needle) (\<lambda>found.
       if found then Inr True else row_contains buf row needle starts)"

fun rows_contain :: "Buffer \<Rightarrow> bytes \<Rightarrow> usize list \<Rightarrow> bool res" where
  "rows_contain buf needle [] = Inr False"
| "rows_contain buf needle (row # rows) =
     rbind (row_contains buf row needle [0..<Suc (BUFFER_WIDTH - length needle)]) (\<lambda>found.
       if found then Inr True else rows_contain buf needle rows)"

definition screen_contains :: "bytes \<Rightarrow> Writer \<Rightarrow> bool res" where
  "screen_contains needle w =
     (if needle = [] \<or> BUFFER_WIDTH < length needle then Inr False
      else rows_contain (buffer w) needle [0..<BUFFER_HEIGHT])"

fun cells_blank :: "Buffer \<Rightarrow> usize \<Rightarrow> usize list \<Rightarrow> bool res" where
  "cells_blank buf row [] = Inr True"
| "cells_blank buf row (col # cols) =
     rbind (cell_read buf row col) (\<lambda>ch.
       if ascii_character ch \<noteq> 0x20 then Inr False else cells_blank buf row cols)"

fun rows_blank :: "Buffer \<Rightarrow> usize list \<Rightarrow> bool res" where
  "rows_blank buf [] = Inr True"
| "rows_blank buf (row # rows) =
     rbind (cells_blank buf row [0..<BUFFER_WIDTH]) (\<lambda>ok.
       if ok then rows_blank buf rows else Inr False)"

definition screen_is_blank :: "Writer \<Rightarrow> bool res" where
  "screen_is_blank w = rows_blank (buffer w) [0..<BUFFER_HEIGHT]"

section \<open>The well-formedness of the writer\<close>

text \<open>The grid has its shape, and the column is at most one past the last column.\<close>

definition grid_wf :: "Buffer \<Rightarrow> bool" where
  "grid_wf buf \<longleftrightarrow> length buf = BUFFER_HEIGHT \<and> (\<forall>cells \<in> set buf. length cells = BUFFER_WIDTH)"

definition writer_wf :: "Writer \<Rightarrow> bool" where
  "writer_wf w \<longleftrightarrow> column_position w \<le> BUFFER_WIDTH \<and> grid_wf (buffer w)"

lemma grid_wf_row [simp]: "grid_wf buf \<Longrightarrow> r < BUFFER_HEIGHT \<Longrightarrow> length (buf ! r) = BUFFER_WIDTH"
  by (auto simp: grid_wf_def)

lemma grid_wf_length [simp]: "grid_wf buf \<Longrightarrow> length buf = BUFFER_HEIGHT"
  by (simp add: grid_wf_def)

lemma grid_wf_update:
  assumes "grid_wf buf" and "length cells = BUFFER_WIDTH"
  shows "grid_wf (buf[r := cells])"
  using assms set_update_subset_insert [of buf r cells] by (auto simp: grid_wf_def)

lemma grid_wf_shift:
  assumes "grid_wf buf" and "length cells = BUFFER_WIDTH"
  shows "grid_wf (tl buf @ [cells])"
proof -
  have "set (tl buf) \<subseteq> set buf" by (cases buf) auto
  then show ?thesis using assms by (auto simp: grid_wf_def BUFFER_HEIGHT_def)
qed

lemma BUFFER_dims [simp]: "0 < BUFFER_HEIGHT" "0 < BUFFER_WIDTH" "BUFFER_HEIGHT - 1 < BUFFER_HEIGHT"
    "BUFFER_HEIGHT - Suc 0 < BUFFER_HEIGHT" "Suc 0 \<le> BUFFER_WIDTH"
  by (simp_all add: BUFFER_HEIGHT_def BUFFER_WIDTH_def)

lemma cell_read_ok [rust_simps]:
  "r < length buf \<Longrightarrow> c < length (buf ! r) \<Longrightarrow> cell_read buf r c = Inr (buf ! r ! c)"
  by (simp add: cell_read_def rust_simps)

lemma cell_write_ok [rust_simps]:
  "r < length buf \<Longrightarrow> c < length (buf ! r) \<Longrightarrow>
     cell_write buf r c v = Inr (buf[r := (buf ! r)[c := v]])"
  by (simp add: cell_write_def rust_simps)

section \<open>Closed forms of the loops\<close>

lemma copy_row_up_eq:
  assumes "grid_wf buf" and "0 < r" and "r < BUFFER_HEIGHT"
  shows "copy_row_up r buf = Inr (buf[r - 1 := buf ! r])"
proof -
  let ?g = "\<lambda>i. buf[r - 1 := take i (buf ! r) @ drop i (buf ! (r - 1))]"
  have r: "r - 1 < BUFFER_HEIGHT" "r - Suc 0 < BUFFER_HEIGHT" "r - 1 \<noteq> r" "r - Suc 0 \<noteq> r"
    using assms by auto
  have "for_each [0..<BUFFER_WIDTH] (\<lambda>col buf.
          rbind (cell_read buf r col) (\<lambda>ch.
          rbind (usize_sub r 1) (\<lambda>above. cell_write buf above col ch))) (?g 0) =
        Inr (?g BUFFER_WIDTH)"
    using assms r by (intro for_each_upt) (simp_all add: rust_simps list_update_prefix)
  then show ?thesis
    using assms r by (simp add: copy_row_up_def)
qed

lemma scroll_loop_eq:
  assumes "grid_wf buf"
  shows "for_each [Suc 0..<BUFFER_HEIGHT] copy_row_up buf = Inr (tl buf @ [last buf])"
proof -
  let ?g = "\<lambda>r. take (r - 1) (tl buf) @ drop (r - 1) buf"
  have len: "length (tl buf) = BUFFER_HEIGHT - 1" "buf \<noteq> []"
    using assms by (auto simp: grid_wf_def BUFFER_HEIGHT_def)
  have wf: "grid_wf (?g r)" if "r \<le> BUFFER_HEIGHT" for r
    using assms that len
    by (auto simp: grid_wf_def dest: in_set_takeD in_set_dropD list.set_sel(2))
  have step: "copy_row_up r (?g r) = Inr (?g (Suc r))" if "1 \<le> r" "r < BUFFER_HEIGHT" for r
  proof -
    have "\<not> r < r - Suc 0" by simp
    then have "?g r ! r = tl buf ! (r - 1)"
      using that len assms by (simp add: nth_append nth_tl)
    then show ?thesis
      using that len assms wf [of r] list_update_prefix [of "r - 1" buf "tl buf"]
      by (simp add: copy_row_up_eq)
  qed
  have "for_each [Suc 0..<BUFFER_HEIGHT] copy_row_up (?g (Suc 0)) = Inr (?g BUFFER_HEIGHT)"
    by (rule for_each_upt) (simp add: BUFFER_HEIGHT_def, rule step, simp_all)
  moreover have "drop (BUFFER_HEIGHT - Suc 0) buf = [last buf]"
    using assms len(2) append_butlast_last_id [OF len(2)]
    by (metis One_nat_def butlast_conv_take append_take_drop_id grid_wf_length same_append_eq)
  ultimately show ?thesis using len by simp
qed

lemma clear_row_eq:
  assumes "grid_wf (buffer w)" and "r < BUFFER_HEIGHT"
  shows "clear_row r w = Inr (w\<lparr>buffer := (buffer w)[r := replicate BUFFER_WIDTH (blank w)]\<rparr>)"
proof -
  let ?blanks = "replicate BUFFER_WIDTH (blank w)"
  let ?g = "\<lambda>i. (buffer w)[r := take i ?blanks @ drop i (buffer w ! r)]"
  have "for_each [0..<BUFFER_WIDTH] (\<lambda>col buf. cell_write buf r col (blank w)) (?g 0) =
        Inr (?g BUFFER_WIDTH)"
  proof (rule for_each_upt)
    fix i assume "0 \<le> i" "i < BUFFER_WIDTH"
    then show "cell_write (?g i) r i (blank w) = Inr (?g (Suc i))"
      using assms list_update_prefix [of i "buffer w ! r" ?blanks]
      by (simp add: rust_simps)
  qed simp
  then show ?thesis using assms by (simp add: clear_row_def)
qed

text \<open>
  What the operations do to a well-formed writer, without loops: \<open>scrolled\<close> drops the
  top row and adds a blank one, \<open>put\<close> writes one cell of the last row, \<open>cursor_ops\<close>
  is the sequence of port writes for a column.
\<close>

definition scrolled :: "Writer \<Rightarrow> Writer" where
  "scrolled w =
     w\<lparr>buffer := tl (buffer w) @ [replicate BUFFER_WIDTH (blank w)], column_position := 0\<rparr>"

definition set_last_row :: "usize \<Rightarrow> ScreenChar \<Rightarrow> Writer \<Rightarrow> Writer" where
  "set_last_row col ch w =
     w\<lparr>buffer := (buffer w)[BUFFER_HEIGHT - 1 := (buffer w ! (BUFFER_HEIGHT - 1))[col := ch]]\<rparr>"

definition put :: "u8 \<Rightarrow> Writer \<Rightarrow> Writer" where
  "put b w =
     (if b = newline then scrolled w
      else
        let w = (if BUFFER_WIDTH \<le> column_position w then scrolled w else w)
        in (set_last_row (column_position w) \<lparr>ascii_character = b, char_color = color_code w\<rparr> w)
             \<lparr>column_position := column_position w + 1\<rparr>)"

definition erased :: "Writer \<Rightarrow> Writer" where
  "erased w =
     (if column_position w = 0 then w
      else (set_last_row (column_position w - 1) (blank w) w)
             \<lparr>column_position := column_position w - 1\<rparr>)"

definition cleared :: "Writer \<Rightarrow> Writer" where
  "cleared w =
     w\<lparr>buffer := replicate BUFFER_HEIGHT (replicate BUFFER_WIDTH (blank w)), column_position := 0\<rparr>"

definition cursor_ops :: "usize \<Rightarrow> port_op list" where
  "cursor_ops col =
     (let position = (BUFFER_HEIGHT - 1) * BUFFER_WIDTH + col in
      [Out8 CRTC_INDEX_PORT CURSOR_LOCATION_HIGH,
       Out8 CRTC_DATA_PORT (of_nat (drop_bit 8 position AND 0xff)),
       Out8 CRTC_INDEX_PORT CURSOR_LOCATION_LOW,
       Out8 CRTC_DATA_PORT (of_nat (position AND 0xff))])"

lemma move_hardware_cursor_eq:
  "column_position w \<le> BUFFER_WIDTH \<Longrightarrow>
     move_hardware_cursor (w, io) = Inr (w, io @ cursor_ops (column_position w))"
  by (simp add: move_hardware_cursor_def cursor_ops_def Let_def rust_simps
      BUFFER_HEIGHT_def BUFFER_WIDTH_def)

lemma new_line_eq: "grid_wf (buffer w) \<Longrightarrow> new_line w = Inr (scrolled w)"
proof -
  assume wf: "grid_wf (buffer w)"
  have len: "length (tl (buffer w)) = BUFFER_HEIGHT - 1" using wf by simp
  have "last (buffer w) \<in> set (buffer w)"
    using wf by (intro last_in_set) (auto simp: grid_wf_def BUFFER_HEIGHT_def)
  then have "grid_wf (tl (buffer w) @ [last (buffer w)])"
    using wf by (intro grid_wf_shift) (auto simp: grid_wf_def)
  then show ?thesis
    using wf len
    by (simp add: new_line_def scroll_loop_eq clear_row_eq scrolled_def blank_def
        list_update_append)
qed

lemma scrolled_wf: "grid_wf (buffer w) \<Longrightarrow> writer_wf (scrolled w)"
  by (simp add: scrolled_def writer_wf_def grid_wf_shift)

lemma scrolled_fields [simp]:
  "column_position (scrolled w) = 0"
  "color_code (scrolled w) = color_code w"
  "blank (scrolled w) = blank w"
  by (simp_all add: scrolled_def blank_def)

lemma set_last_row_fields [simp]:
  "column_position (set_last_row c ch w) = column_position w"
  "color_code (set_last_row c ch w) = color_code w"
  by (simp_all add: set_last_row_def)

lemma set_last_row_wf: "grid_wf (buffer w) \<Longrightarrow> grid_wf (buffer (set_last_row c ch w))"
  by (simp add: set_last_row_def grid_wf_update)

lemma last_row_write:
  "grid_wf (buffer w) \<Longrightarrow> c < BUFFER_WIDTH \<Longrightarrow>
     cell_write (buffer w) (BUFFER_HEIGHT - Suc 0) c ch = Inr (buffer (set_last_row c ch w))"
  by (simp add: rust_simps set_last_row_def)

lemma put_wf: "writer_wf w \<Longrightarrow> writer_wf (put b w)"
  using scrolled_wf [of w]
  by (auto simp: put_def Let_def writer_wf_def set_last_row_wf)

lemma write_byte_eq:
  assumes "writer_wf w"
  shows "write_byte b (w, io) = Inr (put b w, io @ cursor_ops (column_position (put b w)))"
proof (cases "b = newline")
  case True
  then show ?thesis
    using assms scrolled_wf [of w]
    by (simp add: write_byte_def put_def writer_wf_def new_line_eq move_hardware_cursor_eq)
next
  case False
  define v where "v = (if BUFFER_WIDTH \<le> column_position w then scrolled w else w)"
  have v: "grid_wf (buffer v)" "column_position v < BUFFER_WIDTH"
    using assms scrolled_wf [of w] by (auto simp: v_def writer_wf_def)
  have put: "put b w = (set_last_row (column_position v)
      \<lparr>ascii_character = b, char_color = color_code v\<rparr> v)\<lparr>column_position := column_position v + 1\<rparr>"
    using False by (simp add: put_def v_def Let_def)
  have "(if BUFFER_WIDTH \<le> column_position w then new_line w else Inr w) = Inr v"
    using assms by (simp add: v_def new_line_eq writer_wf_def)
  moreover have "usize_add (column_position v) 1 = Inr (column_position v + 1)"
    using v(2) by (simp add: rust_simps BUFFER_WIDTH_def)
  ultimately show ?thesis
    using False v put
    by (simp add: write_byte_def last_row_write move_hardware_cursor_eq set_last_row_def)
qed

lemma backspace_eq:
  assumes "writer_wf w"
  shows "backspace (w, io) =
    Inr (erased w, if column_position w = 0 then io
                   else io @ cursor_ops (column_position w - 1))"
  using assms
  by (auto simp: backspace_def erased_def writer_wf_def last_row_write usize_sub_ok
      move_hardware_cursor_eq set_last_row_def)

lemma erased_wf: "writer_wf w \<Longrightarrow> writer_wf (erased w)"
  by (auto simp: erased_def writer_wf_def set_last_row_wf)

lemma clear_loop_eq:
  assumes "grid_wf (buffer w)"
  shows "for_each [0..<BUFFER_HEIGHT] clear_row w =
    Inr (w\<lparr>buffer := replicate BUFFER_HEIGHT (replicate BUFFER_WIDTH (blank w))\<rparr>)"
proof -
  let ?row = "replicate BUFFER_WIDTH (blank w)"
  let ?g = "\<lambda>r. w\<lparr>buffer := take r (replicate BUFFER_HEIGHT ?row) @ drop r (buffer w)\<rparr>"
  have "for_each [0..<BUFFER_HEIGHT] clear_row (?g 0) = Inr (?g BUFFER_HEIGHT)"
  proof (rule for_each_upt)
    fix r assume r: "0 \<le> r" "r < BUFFER_HEIGHT"
    have "grid_wf (buffer (?g r))"
      using assms r by (auto simp: grid_wf_def dest: in_set_dropD)
    moreover have "blank (?g r) = blank w" by (simp add: blank_def)
    ultimately show "clear_row r (?g r) = Inr (?g (Suc r))"
      using assms r list_update_prefix [of r "buffer w" "replicate BUFFER_HEIGHT ?row"]
      by (simp add: clear_row_eq)
  qed simp
  then show ?thesis using assms by simp
qed

lemma clear_screen_eq:
  "grid_wf (buffer w) \<Longrightarrow> clear_screen (w, io) = Inr (cleared w, io @ cursor_ops 0)"
  by (simp add: clear_screen_def clear_loop_eq move_hardware_cursor_eq cleared_def)

lemma cleared_wf: "writer_wf (cleared w)"
  by (auto simp: cleared_def writer_wf_def grid_wf_def)

end
