(* ===== verification/Text_Sink.thy ===== *)
theory Text_Sink
  imports Rust_Prelude
begin

text \<open>
  The contract of \<^verbatim>\<open>core::fmt::Write\<close> as the kernel uses it: a sink takes one byte
  at a time, never fails in the states it guarantees, and its effect on what an observer
  sees is a function of the byte. The global display provides it; the formatted
  output of the rest of the kernel is its client.
\<close>

locale text_sink =
  fixes put_byte :: "u8 \<Rightarrow> 's \<Rightarrow> 's res"
    and rel :: "'s \<Rightarrow> 'o \<Rightarrow> bool"
    and spec :: "u8 \<Rightarrow> 'o \<Rightarrow> 'o"
  assumes put_refines: "rel s a \<Longrightarrow> \<exists>s'. put_byte b s = Inr s' \<and> rel s' (spec b a)"
begin

lemma write_all_refines:
  "rel s a \<Longrightarrow> \<exists>s'. for_each bs put_byte s = Inr s' \<and> rel s' (fold spec bs a)"
proof (induction bs arbitrary: s a)
  case Nil
  then show ?case by simp
next
  case (Cons b bs)
  obtain s' where "put_byte b s = Inr s'" "rel s' (spec b a)"
    using put_refines [OF Cons.prems] by blast
  with Cons.IH [of s' "spec b a"] show ?case by simp
qed

lemma write_pieces_refines:
  "rel s a \<Longrightarrow>
     \<exists>s'. for_each pieces (\<lambda>p. for_each p put_byte) s = Inr s' \<and> rel s' (fold spec (concat pieces) a)"
proof (induction pieces arbitrary: s a)
  case Nil
  then show ?case by simp
next
  case (Cons p pieces)
  obtain s' where "for_each p put_byte s = Inr s'" "rel s' (fold spec p a)"
    using write_all_refines [OF Cons.prems] by blast
  with Cons.IH [of s' "fold spec p a"] show ?case by simp
qed

lemma write_all_concat:
  "for_each pieces (\<lambda>p. for_each p put_byte) s = for_each (concat pieces) put_byte s"
proof (induction pieces arbitrary: s)
  case Nil
  show ?case by simp
next
  case (Cons p pieces)
  then show ?case by (cases "for_each p put_byte s") (simp_all add: for_each_append)
qed

end

end
