(* ===== verification/Vga_Terminal.thy ===== *)
theory Vga_Terminal
  imports Vga_Buffer Text_Sink
begin

text \<open>
  The specification of the display: a terminal is the list of its finished lines and the
  line being written. The 25 by 80 grid shows the last 24 finished lines and the current
  one, each padded with blanks, in one colour. Every \<open>Writer\<close> operation refines the
  corresponding operation on terminals, and never panics in a state that shows one.
\<close>

section \<open>Terminals\<close>

record tty =
  past :: "bytes list"
  current :: bytes

definition tty_put :: "u8 \<Rightarrow> tty \<Rightarrow> tty" where
  "tty_put b t =
     (if b = newline then \<lparr>past = past t @ [current t], current = []\<rparr>
      else if BUFFER_WIDTH \<le> length (current t) then \<lparr>past = past t @ [current t], current = [b]\<rparr>
      else t\<lparr>current := current t @ [b]\<rparr>)"

definition tty_erase :: "tty \<Rightarrow> tty" where
  "tty_erase t = t\<lparr>current := butlast (current t)\<rparr>"

definition tty_empty :: tty where
  "tty_empty = \<lparr>past = [], current = []\<rparr>"

text \<open>Bytes outside printable ASCII are shown as the replacement character \<^verbatim>\<open>0xfe\<close>.\<close>

definition sanitize :: "u8 \<Rightarrow> u8" where
  "sanitize b = (if printable b \<or> b = newline then b else 0xfe)"

definition tty_write :: "bytes \<Rightarrow> tty \<Rightarrow> tty" where
  "tty_write s = fold (\<lambda>b. tty_put (sanitize b)) s"

definition tty_wf :: "tty \<Rightarrow> bool" where
  "tty_wf t \<longleftrightarrow> length (current t) \<le> BUFFER_WIDTH \<and> (\<forall>l \<in> set (past t). length l \<le> BUFFER_WIDTH)"

section \<open>What the grid shows\<close>

definition cells_of :: "ColorCode \<Rightarrow> bytes \<Rightarrow> ScreenChar list" where
  "cells_of c l =
     map (\<lambda>b. \<lparr>ascii_character = b, char_color = c\<rparr>) l @
     replicate (BUFFER_WIDTH - length l) \<lparr>ascii_character = 0x20, char_color = c\<rparr>"

definition last_lines :: "nat \<Rightarrow> bytes list \<Rightarrow> bytes list" where
  "last_lines n ls = drop (length ls) (replicate n [] @ ls)"

definition display :: "ColorCode \<Rightarrow> tty \<Rightarrow> Buffer" where
  "display c t =
     map (cells_of c) (last_lines (BUFFER_HEIGHT - 1) (past t)) @ [cells_of c (current t)]"

definition shows_tty :: "Writer \<Rightarrow> tty \<Rightarrow> bool" where
  "shows_tty w t \<longleftrightarrow>
     tty_wf t \<and> buffer w = display (color_code w) t \<and> column_position w = length (current t)"

lemma length_last_lines [simp]: "length (last_lines n ls) = n"
  by (simp add: last_lines_def)

lemma last_lines_snoc: "0 < n \<Longrightarrow> last_lines n (ls @ [l]) = tl (last_lines n ls) @ [l]"
proof -
  assume n: "0 < n"
  define ys where "ys = replicate n [] @ ls"
  have len: "length ys = n + length ls" by (simp add: ys_def)
  have "last_lines n (ls @ [l]) = drop (Suc (length ls)) (ys @ [l])"
    by (simp add: last_lines_def ys_def)
  also have "\<dots> = drop (Suc (length ls)) ys @ [l]" using len n by simp
  also have "drop (Suc (length ls)) ys = tl (last_lines n ls)"
    by (simp only: last_lines_def ys_def drop_Suc tl_drop)
  finally show ?thesis .
qed

lemma set_last_lines: "l \<in> set (last_lines n ls) \<Longrightarrow> l = [] \<or> l \<in> set ls"
  by (auto simp: last_lines_def dest: in_set_dropD in_set_takeD)

lemma length_cells_of [simp]: "length l \<le> BUFFER_WIDTH \<Longrightarrow> length (cells_of c l) = BUFFER_WIDTH"
  by (simp add: cells_of_def)

lemma display_wf: "tty_wf t \<Longrightarrow> grid_wf (display c t)"
  by (fastforce simp: grid_wf_def display_def tty_wf_def dest: set_last_lines)

lemma shows_tty_wf: "shows_tty w t \<Longrightarrow> writer_wf w"
  by (auto simp: shows_tty_def writer_wf_def display_wf) (simp add: tty_wf_def)

lemma cells_of_Nil: "cells_of (color_code w) [] = replicate BUFFER_WIDTH (blank w)"
  by (simp add: cells_of_def blank_def)

lemma cells_of_snoc:
  "length l < BUFFER_WIDTH \<Longrightarrow>
     (cells_of c l)[length l := \<lparr>ascii_character = b, char_color = c\<rparr>] = cells_of c (l @ [b])"
  by (cases "BUFFER_WIDTH - length l") (auto simp: cells_of_def list_update_append)

lemma cells_of_butlast:
  assumes "l \<noteq> []" and "length l \<le> BUFFER_WIDTH"
  shows "(cells_of c l)[length l - 1 := \<lparr>ascii_character = 0x20, char_color = c\<rparr>] =
    cells_of c (butlast l)"
proof -
  have "BUFFER_WIDTH - (length l - 1) = Suc (BUFFER_WIDTH - length l)"
    using assms by (cases l) auto
  moreover have "length l - 1 = length (butlast l)" by simp
  ultimately show ?thesis
    using assms by (cases l rule: rev_cases) (simp_all add: cells_of_def list_update_append)
qed

lemma display_last [simp]: "display c t ! (BUFFER_HEIGHT - Suc 0) = cells_of c (current t)"
  by (simp add: display_def nth_append)

lemma display_update_last:
  "(display c t)[BUFFER_HEIGHT - Suc 0 := cells_of c l] = display c (t\<lparr>current := l\<rparr>)"
  by (simp add: display_def list_update_append)

section \<open>The operations refine the terminal\<close>

lemma shows_scrolled:
  assumes "shows_tty w t"
  shows "shows_tty (scrolled w) \<lparr>past = past t @ [current t], current = []\<rparr>"
proof -
  have "last_lines (BUFFER_HEIGHT - Suc 0) (past t) \<noteq> []"
    using length_last_lines [of "BUFFER_HEIGHT - Suc 0" "past t"]
    by (auto simp: BUFFER_HEIGHT_def simp del: length_last_lines)
  then show ?thesis
    using assms
    by (auto simp: shows_tty_def display_def last_lines_snoc scrolled_def cells_of_Nil tty_wf_def
        BUFFER_HEIGHT_def map_tl)
qed

lemma shows_put:
  assumes "shows_tty w t"
  shows "shows_tty (put b w) (tty_put b t)"
proof (cases "b = newline")
  case True
  then show ?thesis using shows_scrolled [OF assms] by (simp add: put_def tty_put_def)
next
  case False
  define v where "v = (if BUFFER_WIDTH \<le> column_position w then scrolled w else w)"
  define u where "u = (if BUFFER_WIDTH \<le> length (current t)
    then \<lparr>past = past t @ [current t], current = []\<rparr> else t)"
  have vu: "shows_tty v u" and lt: "length (current u) < BUFFER_WIDTH"
    using assms shows_scrolled [OF assms] by (auto simp: v_def u_def shows_tty_def)
  have "put b w = (set_last_row (column_position v)
      \<lparr>ascii_character = b, char_color = color_code v\<rparr> v)\<lparr>column_position := column_position v + 1\<rparr>"
    using False by (simp add: put_def v_def Let_def)
  moreover have "tty_put b t = u\<lparr>current := current u @ [b]\<rparr>"
    using False by (simp add: tty_put_def u_def)
  ultimately show ?thesis
    using vu lt
    by (auto simp: shows_tty_def set_last_row_def cells_of_snoc display_update_last tty_wf_def)
qed

lemma shows_erased:
  assumes "shows_tty w t"
  shows "shows_tty (erased w) (tty_erase t)"
proof (cases "current t = []")
  case True
  then have "tty_erase t = t" by (cases t) (simp add: tty_erase_def)
  then show ?thesis using True assms by (simp add: erased_def shows_tty_def)
next
  case False
  then show ?thesis
    using assms cells_of_butlast [of "current t" "color_code w"]
    by (auto simp: erased_def tty_erase_def shows_tty_def tty_wf_def set_last_row_def blank_def
        display_update_last)
qed

lemma shows_cleared: "shows_tty (cleared w) tty_empty"
  by (simp add: shows_tty_def cleared_def tty_empty_def tty_wf_def display_def last_lines_def
      cells_of_def blank_def BUFFER_HEIGHT_def numeral_eq_Suc)

lemma write_string_byte_eq:
  "writer_wf w \<Longrightarrow>
     write_string_byte b (w, io) =
       Inr (put (sanitize b) w, io @ cursor_ops (column_position (put (sanitize b) w)))"
  by (auto simp: write_string_byte_def write_byte_eq sanitize_def printable_def)

interpretation vga_sink: text_sink write_string_byte "\<lambda>s t. shows_tty (fst s) t" "\<lambda>b. tty_put (sanitize b)"
proof unfold_locales
  fix s :: vga and t b
  assume "shows_tty (fst s) t"
  then show "\<exists>s'. write_string_byte b s = Inr s' \<and> shows_tty (fst s') (tty_put (sanitize b) t)"
    by (cases s) (auto simp: write_string_byte_eq shows_put shows_tty_wf)
qed

end
