(* ===== verification/Vga_Screen.thy ===== *)
theory Vga_Screen
  imports Vga_Terminal "HOL-Library.Sublist"
begin

text \<open>
  What an observer of the display can rely on: the refinement of the terminal by formatted
  output, the hardware cursor, erasing, the colour byte, and the two functions that search
  the screen.
\<close>

section \<open>Formatted output\<close>

lemma write_fmt_pieces: "write_fmt args = for_each args (\<lambda>p. for_each p write_string_byte)"
proof -
  have "write_str = (\<lambda>p. for_each p write_string_byte)"
    by (simp add: fun_eq_iff write_str_def write_string_def)
  then show ?thesis by (simp add: write_fmt_def)
qed

lemma write_fmt_shows:
  assumes "shows_tty w t"
  shows "\<exists>w' io'. write_fmt args (w, io) = Inr (w', io') \<and> shows_tty w' (tty_write (concat args) t)"
  using vga_sink.write_pieces_refines [of "(w, io)" t args] assms
  by (auto simp: write_fmt_pieces tty_write_def)

lemma sanitize_id [simp]: "printable b \<Longrightarrow> sanitize b = b" "sanitize newline = newline"
  by (simp_all add: sanitize_def)

lemma printable_not_newline: "printable b \<Longrightarrow> b \<noteq> newline"
  by (auto simp: printable_def)

text \<open>Printable text that fits is appended to the current line; a newline finishes the line.\<close>

lemma tty_write_fits:
  "\<forall>b \<in> set s. printable b \<Longrightarrow> length (current t) + length s \<le> BUFFER_WIDTH \<Longrightarrow>
     tty_write s t = t\<lparr>current := current t @ s\<rparr>"
proof (induction s arbitrary: t)
  case Nil
  show ?case by (simp add: tty_write_def)
next
  case (Cons b s)
  then have "tty_put (sanitize b) t = t\<lparr>current := current t @ [b]\<rparr>"
    by (simp add: tty_put_def printable_not_newline)
  then show ?case using Cons.IH [of "t\<lparr>current := current t @ [b]\<rparr>"] Cons.prems
    by (simp add: tty_write_def)
qed

lemma tty_write_append: "tty_write (s @ u) t = tty_write u (tty_write s t)"
  by (simp add: tty_write_def)

lemma tty_write_newline: "tty_write [newline] t = \<lparr>past = past t @ [current t], current = []\<rparr>"
  by (simp add: tty_write_def tty_put_def)

text \<open>The port values of a cursor position.\<close>

lemma cursor_halves:
  assumes "col \<le> BUFFER_WIDTH"
  shows "unat (of_nat (drop_bit 8 ((BUFFER_HEIGHT - 1) * BUFFER_WIDTH + col) AND 0xff) :: u8) * 256 +
    unat (of_nat (((BUFFER_HEIGHT - 1) * BUFFER_WIDTH + col) AND 0xff) :: u8) =
    (BUFFER_HEIGHT - 1) * BUFFER_WIDTH + col"
proof -
  have mask: "n AND 0xff = n mod 256" for n :: nat
    using take_bit_eq_mask [of 8 n] by (simp add: take_bit_eq_mod mask_eq_exp_minus_1)
  define p where "p = (BUFFER_HEIGHT - 1) * BUFFER_WIDTH + col"
  have "p < 256 * 256" using assms by (simp add: p_def BUFFER_HEIGHT_def BUFFER_WIDTH_def)
  then have "p div 256 < 256" by (simp add: less_mult_imp_div_less)
  then have "unat (of_nat (drop_bit 8 p AND 0xff) :: u8) = p div 256"
    "unat (of_nat (p AND 0xff) :: u8) = p mod 256"
    by (simp_all add: mask drop_bit_eq_div unat_of_nat)
  then show ?thesis unfolding p_def by (metis div_mult_mod_eq p_def)
qed

text \<open>The sink with the well-formedness of the writer as its relation.\<close>

interpretation vga_wf_sink: text_sink write_string_byte "\<lambda>s (_ :: unit). writer_wf (fst s)" "\<lambda>_ u. u"
proof unfold_locales
  fix s :: vga and u :: unit and b
  assume "writer_wf (fst s)"
  then show "\<exists>s'. write_string_byte b s = Inr s' \<and> writer_wf (fst s')"
    by (cases s) (simp add: write_string_byte_eq put_wf)
qed

section \<open>Searching\<close>

definition row_text :: "ScreenChar list \<Rightarrow> bytes" where
  "row_text cells = map ascii_character cells"

lemma window_matches_eq:
  assumes "r < length buf"
  shows "at + length bs \<le> length (buf ! r) \<Longrightarrow>
    window_matches buf r at bs = Inr (take (length bs) (drop at (row_text (buf ! r))) = bs)"
proof (induction bs arbitrary: at)
  case Nil
  show ?case by simp
next
  case (Cons b bs)
  then have "drop at (row_text (buf ! r)) =
      ascii_character (buf ! r ! at) # drop (Suc at) (row_text (buf ! r))"
    by (simp add: row_text_def Cons_nth_drop_Suc [symmetric] drop_map)
  then show ?case using Cons assms by (simp add: rust_simps)
qed

lemma row_contains_eq:
  assumes "r < length buf" and "\<forall>at \<in> set starts. at + length bs \<le> length (buf ! r)"
  shows "row_contains buf r bs starts =
    Inr (\<exists>at \<in> set starts. take (length bs) (drop at (row_text (buf ! r))) = bs)"
  using assms(2) by (induction starts) (auto simp: window_matches_eq [OF assms(1)])

lemma sublist_window:
  "sublist bs xs \<longleftrightarrow> (\<exists>at < Suc (length xs - length bs). take (length bs) (drop at xs) = bs)"
  if "length bs \<le> length xs"
proof
  assume "sublist bs xs"
  then obtain l r where "xs = l @ bs @ r" by (auto simp: sublist_def)
  then show "\<exists>at < Suc (length xs - length bs). take (length bs) (drop at xs) = bs"
    by (intro exI [of _ "length l"]) simp
next
  assume "\<exists>at < Suc (length xs - length bs). take (length bs) (drop at xs) = bs"
  then obtain at where "take (length bs) (drop at xs) = bs" by blast
  then have "xs = take at xs @ bs @ drop (length bs) (drop at xs)"
    by (metis append_take_drop_id)
  then show "sublist bs xs" by (metis sublist_def)
qed

lemma row_contains_sublist:
  assumes "grid_wf buf" and "r < BUFFER_HEIGHT" and "length bs \<le> BUFFER_WIDTH"
  shows "row_contains buf r bs [0..<Suc (BUFFER_WIDTH - length bs)] =
    Inr (sublist bs (row_text (buf ! r)))"
proof -
  have "length (row_text (buf ! r)) = BUFFER_WIDTH" using assms by (simp add: row_text_def)
  then show ?thesis
    using assms by (subst row_contains_eq) (auto simp: sublist_window atLeast0LessThan simp del: upt_Suc)
qed

lemma rows_contain_eq:
  assumes "grid_wf buf" and "length bs \<le> BUFFER_WIDTH" and "\<forall>r \<in> set rows. r < BUFFER_HEIGHT"
  shows "rows_contain buf bs rows = Inr (\<exists>r \<in> set rows. sublist bs (row_text (buf ! r)))"
  using assms(3)
  by (induction rows) (auto simp: row_contains_sublist [OF assms(1) _ assms(2)] simp del: upt_Suc)

lemma screen_contains_eq:
  assumes "grid_wf (buffer w)"
  shows "screen_contains needle w =
    Inr (needle \<noteq> [] \<and> (\<exists>cells \<in> set (buffer w). sublist needle (row_text cells)))"
proof (cases "needle = [] \<or> BUFFER_WIDTH < length needle")
  case True
  have "\<not> sublist needle (row_text cells)" if "BUFFER_WIDTH < length needle" "cells \<in> set (buffer w)" for cells
    using that assms sublist_length_le [of needle "row_text cells"] by (auto simp: grid_wf_def row_text_def)
  then show ?thesis using True by (auto simp: screen_contains_def)
next
  case False
  then have "screen_contains needle w = Inr (\<exists>r < BUFFER_HEIGHT. sublist needle (row_text (buffer w ! r)))"
    using assms by (auto simp: screen_contains_def rows_contain_eq)
  moreover have "set (buffer w) = (!) (buffer w) ` {..<BUFFER_HEIGHT}"
    using assms by (auto simp: set_conv_nth)
  ultimately show ?thesis using False by (simp add: Bex_def)
qed

lemma cells_blank_eq:
  assumes "r < length buf"
  shows "\<forall>c \<in> set cols. c < length (buf ! r) \<Longrightarrow>
    cells_blank buf r cols = Inr (\<forall>c \<in> set cols. ascii_character (buf ! r ! c) = 0x20)"
  using assms by (induction cols) (auto simp: rust_simps)

lemma rows_blank_eq:
  assumes "grid_wf buf"
  shows "\<forall>r \<in> set rows. r < BUFFER_HEIGHT \<Longrightarrow>
    rows_blank buf rows =
      Inr (\<forall>r \<in> set rows. \<forall>c < BUFFER_WIDTH. ascii_character (buf ! r ! c) = 0x20)"
  using assms by (induction rows) (auto simp: cells_blank_eq)

section \<open>Properties\<close>

text \<open>
  C7. Formatted output refines the terminal: whatever the pieces of the arguments are,
  \<open>write_fmt\<close> never panics, and the screen then shows the terminal in which the same bytes
  were written, with lines broken after 80 columns and at newlines, the oldest lines
  scrolled away, and bytes outside printable ASCII replaced by \<^verbatim>\<open>0xfe\<close>.
\<close>

theorem write_fmt_refines_terminal:
  assumes "shows_tty w t"
  shows "\<exists>w' io'. write_fmt args (w, io) = Inr (w', io') \<and> shows_tty w' (tty_write (concat args) t)"
  using assms by (rule write_fmt_shows)

definition blank_writer :: Writer where
  "blank_writer = cleared (Writer_init [])"

lemma blank_writer_shows: "shows_tty blank_writer tty_empty"
  by (simp add: blank_writer_def shows_cleared)

theorem write_fmt_refines_terminal_witness:
  "\<exists>w' io'. write_fmt [str ''ab'', [newline], str ''cd''] (blank_writer, []) = Inr (w', io') \<and>
     shows_tty w' \<lparr>past = [str ''ab''], current = str ''cd''\<rparr>"
  using write_fmt_refines_terminal [OF blank_writer_shows, of "[str ''ab'', [newline], str ''cd'']" "[]"]
  by (simp add: tty_write_def tty_put_def tty_empty_def byte_def sanitize_def printable_def BUFFER_WIDTH_def)

text \<open>
  C37. On a well-formed writer no operation panics, neither by an index nor by arithmetic,
  and each leaves the writer well-formed: the grid keeps its 25 rows of 80 cells and the
  column stays at most 80.
\<close>

theorem writer_operations_total:
  assumes "writer_wf w"
  shows "(\<exists>w'. new_line w = Inr w' \<and> writer_wf w') \<and>
    (\<exists>w' io'. write_byte b (w, io) = Inr (w', io') \<and> writer_wf w') \<and>
    (\<exists>w' io'. write_fmt args (w, io) = Inr (w', io') \<and> writer_wf w') \<and>
    (\<exists>w' io'. clear_screen (w, io) = Inr (w', io') \<and> writer_wf w') \<and>
    (\<exists>w' io'. backspace (w, io) = Inr (w', io') \<and> writer_wf w')"
proof -
  have "grid_wf (buffer w)" using assms by (simp add: writer_wf_def)
  moreover have "\<exists>s'. write_fmt args (w, io) = Inr s' \<and> writer_wf (fst s')"
    using assms vga_wf_sink.write_pieces_refines [of "(w, io)" args] by (simp add: write_fmt_pieces)
  ultimately show ?thesis
    using assms
    by (simp add: new_line_eq scrolled_wf write_byte_eq put_wf clear_screen_eq cleared_wf backspace_eq
        erased_wf)
qed

lemma blank_writer_wf: "writer_wf blank_writer"
  by (simp add: blank_writer_def cleared_wf)

theorem writer_operations_total_witness:
  "\<exists>w' io'. write_byte 0x41 (blank_writer, []) = Inr (w', io') \<and> writer_wf w'"
  using writer_operations_total [OF blank_writer_wf, of "0x41" "[]"] by blast

text \<open>
  The four port writes of an operation that moves the cursor select the high and the
  low half of the cursor location and give it the cell where the next byte goes: row 24,
  column \<open>column_position\<close>.
\<close>

lemma cursor_location_written:
  assumes "writer_wf w"
  shows "\<exists>w' hi lo. write_byte b (w, io) = Inr (w', io @
      [Out8 CRTC_INDEX_PORT CURSOR_LOCATION_HIGH, Out8 CRTC_DATA_PORT hi,
       Out8 CRTC_INDEX_PORT CURSOR_LOCATION_LOW, Out8 CRTC_DATA_PORT lo]) \<and>
    unat hi * 256 + unat lo = (BUFFER_HEIGHT - 1) * BUFFER_WIDTH + column_position w'"
  using assms put_wf [OF assms, of b] cursor_halves [of "column_position (put b w)"]
  by (simp add: write_byte_eq cursor_ops_def Let_def writer_wf_def)

text \<open>
  \<open>backspace\<close> takes back a byte: writing a byte that is not a newline on a line with
  room for it and erasing it gives the writer of before, every cell and the column.
\<close>

lemma backspace_undoes_write:
  assumes "shows_tty w t" and "b \<noteq> newline" and "column_position w < BUFFER_WIDTH"
  shows "\<exists>w1 io1 io2. write_byte b (w, io) = Inr (w1, io1) \<and> backspace (w1, io1) = Inr (w, io2)"
proof -
  have wf: "writer_wf w" using assms(1) by (rule shows_tty_wf)
  have put: "tty_put b t = t\<lparr>current := current t @ [b]\<rparr>"
    using assms by (simp add: tty_put_def shows_tty_def)
  have "shows_tty (erased (put b w)) t"
    using shows_erased [OF shows_put [OF assms(1), of b]] by (simp add: put tty_erase_def)
  moreover have "color_code (erased (put b w)) = color_code w"
    using assms(2,3) by (simp add: erased_def put_def Let_def)
  ultimately have "erased (put b w) = w" using assms(1) by (simp add: shows_tty_def)
  then show ?thesis using wf put_wf [OF wf, of b] by (simp add: write_byte_eq backspace_eq)
qed

text \<open>
  C38. \<open>screen_contains\<close> never panics and is true exactly when the text, which must not be
  empty, stands in one row of the screen as consecutive cells.
\<close>

theorem screen_contains_correct:
  assumes "grid_wf (buffer w)"
  shows "screen_contains needle w =
    Inr (needle \<noteq> [] \<and> (\<exists>cells \<in> set (buffer w). sublist needle (row_text cells)))"
  using assms by (rule screen_contains_eq)

theorem screen_contains_correct_witness:
  "screen_contains [0x20, 0x20] blank_writer =
    Inr ([0x20, 0x20 :: u8] \<noteq> [] \<and> (\<exists>cells \<in> set (buffer blank_writer). sublist [0x20, 0x20] (row_text cells)))"
  using blank_writer_wf by (intro screen_contains_correct) (simp add: writer_wf_def)

text \<open>
  A printed line is found: after printing printable text of at most 80 bytes at the
  start of a line, with or without the newline, \<open>screen_contains\<close> finds it.
\<close>

lemma printed_line_found:
  assumes "shows_tty w t" and "current t = []" and "\<forall>b \<in> set s. printable b"
    and "s \<noteq> []" and "length s \<le> BUFFER_WIDTH"
  shows "\<exists>w' io'. write_fmt [s, if nl then [newline] else []] (w, io) = Inr (w', io') \<and>
    screen_contains s w' = Inr True"
proof -
  let ?t = "tty_write (concat [s, if nl then [newline] else []]) t"
  obtain w' io' where w': "write_fmt [s, if nl then [newline] else []] (w, io) = Inr (w', io')"
    and sh: "shows_tty w' ?t" using write_fmt_shows [OF assms(1)] by blast
  have "s = current ?t \<or> s \<in> set (last_lines (BUFFER_HEIGHT - 1) (past ?t))"
    using assms(2,3,5) by (auto simp: tty_write_append tty_write_fits tty_write_newline last_lines_snoc
        tty_write_def [of "[]"] BUFFER_HEIGHT_def)
  then have "cells_of (color_code w') s \<in> set (buffer w')"
    using sh by (auto simp: shows_tty_def display_def)
  moreover have "sublist s (row_text (cells_of (color_code w') s))"
    by (simp add: row_text_def cells_of_def comp_def)
  moreover have "grid_wf (buffer w')" using shows_tty_wf [OF sh] by (simp add: writer_wf_def)
  ultimately have "screen_contains s w' = Inr True"
    using assms(4) by (auto simp: screen_contains_eq)
  then show ?thesis using w' by blast
qed

text \<open>
  The colour byte has the foreground in its low and the background in its high half,
  so both colours can be read back from it.
\<close>

lemma color_code_halves:
  "\<exists>c. ColorCode_new foreground background = ColorCode c \<and>
     c AND 0x0f = Color_as_u8 foreground \<and> drop_bit 4 c = Color_as_u8 background"
  by (cases foreground; cases background) (simp_all add: ColorCode_new_def)

end
