(* ===== verification/Keyboard.thy ===== *)
theory Keyboard
  imports Rust_Prelude
begin

unbundle bit_operations_syntax

text \<open>
  \<^verbatim>\<open>src/keyboard.rs\<close>: the state of the two Shift keys and the translation of Scan Code
  Set 1 to ASCII. \<open>translate\<close> takes the scancode and the \<open>ShiftState\<close> that the source
  keeps in \<^verbatim>\<open>SHIFT\<close>, and returns the byte, if there is one, and the new state. The layout
  that it implements is \<open>us_qwerty\<close>.
\<close>

section \<open>Shift keys\<close>

definition LEFT_SHIFT_MAKE :: u8 where
  "LEFT_SHIFT_MAKE = 0x2A"

definition LEFT_SHIFT_BREAK :: u8 where
  "LEFT_SHIFT_BREAK = 0xAA"

definition RIGHT_SHIFT_MAKE :: u8 where
  "RIGHT_SHIFT_MAKE = 0x36"

definition RIGHT_SHIFT_BREAK :: u8 where
  "RIGHT_SHIFT_BREAK = 0xB6"

lemmas shift_codes =
  LEFT_SHIFT_MAKE_def LEFT_SHIFT_BREAK_def RIGHT_SHIFT_MAKE_def RIGHT_SHIFT_BREAK_def

record ShiftState =
  left_held :: bool
  right_held :: bool

definition ShiftState_new :: ShiftState where
  "ShiftState_new = \<lparr>left_held = False, right_held = False\<rparr>"

definition is_active :: "ShiftState \<Rightarrow> bool" where
  "is_active s \<longleftrightarrow> left_held s \<or> right_held s"

section \<open>The make-code table\<close>

text \<open>
  The arms of the \<^verbatim>\<open>match\<close> that give a pair (without Shift, with Shift). The bytes
  0x27, 0x22, 0x60 and 0x5c are the quote, the double quote, the backquote and the
  backslash.
\<close>

definition make_code_table :: "(u8 \<times> u8 \<times> u8) list" where
  "make_code_table =
     [(0x02, (byte CHR ''1'', byte CHR ''!'')),
      (0x03, (byte CHR ''2'', byte CHR ''@'')),
      (0x04, (byte CHR ''3'', byte CHR ''#'')),
      (0x05, (byte CHR ''4'', byte CHR ''$'')),
      (0x06, (byte CHR ''5'', byte CHR ''%'')),
      (0x07, (byte CHR ''6'', byte CHR ''^'')),
      (0x08, (byte CHR ''7'', byte CHR ''&'')),
      (0x09, (byte CHR ''8'', byte CHR ''*'')),
      (0x0A, (byte CHR ''9'', byte CHR ''('')),
      (0x0B, (byte CHR ''0'', byte CHR '')'')),
      (0x0C, (byte CHR ''-'', byte CHR ''_'')),
      (0x0D, (byte CHR ''='', byte CHR ''+'')),
      (0x10, (byte CHR ''q'', byte CHR ''Q'')),
      (0x11, (byte CHR ''w'', byte CHR ''W'')),
      (0x12, (byte CHR ''e'', byte CHR ''E'')),
      (0x13, (byte CHR ''r'', byte CHR ''R'')),
      (0x14, (byte CHR ''t'', byte CHR ''T'')),
      (0x15, (byte CHR ''y'', byte CHR ''Y'')),
      (0x16, (byte CHR ''u'', byte CHR ''U'')),
      (0x17, (byte CHR ''i'', byte CHR ''I'')),
      (0x18, (byte CHR ''o'', byte CHR ''O'')),
      (0x19, (byte CHR ''p'', byte CHR ''P'')),
      (0x1A, (byte CHR ''['', byte CHR ''{'')),
      (0x1B, (byte CHR '']'', byte CHR ''}'')),
      (0x1E, (byte CHR ''a'', byte CHR ''A'')),
      (0x1F, (byte CHR ''s'', byte CHR ''S'')),
      (0x20, (byte CHR ''d'', byte CHR ''D'')),
      (0x21, (byte CHR ''f'', byte CHR ''F'')),
      (0x22, (byte CHR ''g'', byte CHR ''G'')),
      (0x23, (byte CHR ''h'', byte CHR ''H'')),
      (0x24, (byte CHR ''j'', byte CHR ''J'')),
      (0x25, (byte CHR ''k'', byte CHR ''K'')),
      (0x26, (byte CHR ''l'', byte CHR ''L'')),
      (0x27, (byte CHR '';'', byte CHR '':'')),
      (0x28, (0x27, 0x22)),
      (0x29, (0x60, byte CHR ''~'')),
      (0x2B, (0x5c, byte CHR ''|'')),
      (0x2C, (byte CHR ''z'', byte CHR ''Z'')),
      (0x2D, (byte CHR ''x'', byte CHR ''X'')),
      (0x2E, (byte CHR ''c'', byte CHR ''C'')),
      (0x2F, (byte CHR ''v'', byte CHR ''V'')),
      (0x30, (byte CHR ''b'', byte CHR ''B'')),
      (0x31, (byte CHR ''n'', byte CHR ''N'')),
      (0x32, (byte CHR ''m'', byte CHR ''M'')),
      (0x33, (byte CHR '','', byte CHR ''<'')),
      (0x34, (byte CHR ''.'', byte CHR ''>'')),
      (0x35, (byte CHR ''/'', byte CHR ''?''))]"

definition ascii_for_make_code :: "u8 \<Rightarrow> bool \<Rightarrow> u8 option" where
  "ascii_for_make_code code shift =
     (if code = 0x0E then Some 0x08
      else if code = 0x1C then Some newline
      else if code = 0x39 then Some (byte CHR '' '')
      else case map_of make_code_table code of
        None \<Rightarrow> None
      | Some (lower, upper) \<Rightarrow> Some (if shift then upper else lower))"

definition translate :: "u8 \<Rightarrow> ShiftState \<Rightarrow> u8 option \<times> ShiftState" where
  "translate scancode s =
     (if scancode = LEFT_SHIFT_MAKE then (None, s\<lparr>left_held := True\<rparr>)
      else if scancode = LEFT_SHIFT_BREAK then (None, s\<lparr>left_held := False\<rparr>)
      else if scancode = RIGHT_SHIFT_MAKE then (None, s\<lparr>right_held := True\<rparr>)
      else if scancode = RIGHT_SHIFT_BREAK then (None, s\<lparr>right_held := False\<rparr>)
      else if scancode AND 0x80 \<noteq> 0 then (None, s)
      else (ascii_for_make_code scancode (is_active s), s))"

text \<open>The bytes and the final state of a sequence of scancodes.\<close>

fun translate_all :: "u8 list \<Rightarrow> ShiftState \<Rightarrow> bytes \<times> ShiftState" where
  "translate_all [] s = ([], s)"
| "translate_all (c # cs) s =
     (let (b, s') = translate c s; (bs, s'') = translate_all cs s'
      in ((case b of None \<Rightarrow> bs | Some x \<Rightarrow> x # bs), s''))"

section \<open>Table facts\<close>

text \<open>All the bytes the keyboard can produce, with the key and the Shift state.\<close>

definition typed_keys :: "((u8 \<times> bool) \<times> u8) list" where
  "typed_keys =
     concat (map (\<lambda>(c, l, u). [((c, False), l), ((c, True), u)]) make_code_table)"

lemmas make_code_table_num = make_code_table_def [unfolded byte_def, simplified]

lemma typed_keys_distinct: "distinct (map (unat \<circ> snd) typed_keys)"
  by (simp add: typed_keys_def make_code_table_num)

lemma typed_keys_complete:
  assumes "printable b" and "b \<noteq> 0x20"
  shows "b \<in> set (map snd typed_keys)"
proof -
  have "unat b \<noteq> 0x20" using assms(2) by (simp add: word_unat_eq_iff)
  moreover have "unat b \<in> set [0x20..<0x7f]"
    using assms(1) by (simp only: set_upt atLeastLessThan_iff) (simp add: printable_def word_le_nat_alt)
  then have "unat b \<in> insert 0x20 (set (map (unat \<circ> snd) typed_keys))"
    by (rule subsetD [rotated]) (simp add: typed_keys_def make_code_table_num upt_rec_numeral)
  ultimately have "unat b \<in> unat ` snd ` set typed_keys" by (simp add: image_image)
  then obtain k where k: "k \<in> set typed_keys" "unat b = unat (snd k)" by auto
  from k(2) have "b = snd k" by (simp add: word_unat_eq_iff)
  with k(1) show ?thesis by simp
qed

lemma typed_keys_printable: "\<forall>k \<in> set typed_keys. printable (snd k)"
  by (simp add: typed_keys_def make_code_table_num printable_def)

lemma make_code_table_distinct: "distinct (map (unat \<circ> fst) make_code_table)"
  by (simp add: make_code_table_num)

lemma make_code_table_codes: "\<forall>k \<in> set make_code_table. fst k \<notin> {0x0E, 0x1C, 0x39}"
  by (simp add: make_code_table_num)

lemma typed_keys_ascii:
  assumes "((code, shift), b) \<in> set typed_keys"
  shows "ascii_for_make_code code shift = Some b"
proof -
  obtain l u where lu: "(code, l, u) \<in> set make_code_table" "b = (if shift then u else l)"
    using assms by (auto simp: typed_keys_def)
  have "distinct (map fst make_code_table)"
    using make_code_table_distinct by (simp add: distinct_map comp_inj_on_iff inj_on_def)
  then have "map_of make_code_table code = Some (l, u)"
    using lu(1) by (simp add: map_of_is_SomeI)
  moreover have "code \<notin> {0x0E, 0x1C, 0x39}" using lu(1) make_code_table_codes by force
  ultimately show ?thesis using lu(2) by (simp add: ascii_for_make_code_def)
qed

lemma typed_keys_make:
  "\<forall>k \<in> set typed_keys. fst (fst k) AND 0x80 = 0 \<and> (fst (fst k) OR 0x80) AND 0x80 \<noteq> 0 \<and>
     fst (fst k) \<notin> {LEFT_SHIFT_MAKE, LEFT_SHIFT_BREAK, RIGHT_SHIFT_MAKE, RIGHT_SHIFT_BREAK} \<and>
     fst (fst k) OR 0x80 \<notin> {LEFT_SHIFT_MAKE, LEFT_SHIFT_BREAK, RIGHT_SHIFT_MAKE, RIGHT_SHIFT_BREAK}"
  by (simp add: typed_keys_def make_code_table_num shift_codes)

lemma ascii_for_make_code_cases:
  assumes "ascii_for_make_code code shift = Some b"
  obtains "code = 0x0E" "b = 0x08" | "code = 0x1C" "b = newline" | "code = 0x39" "b = 0x20"
  | "((code, shift), b) \<in> set typed_keys"
proof -
  consider "code = 0x0E" | "code = 0x1C" | "code = 0x39" | l u where
    "(code, l, u) \<in> set make_code_table" "b = (if shift then u else l)"
    using assms
    by (auto simp: ascii_for_make_code_def split: if_splits option.splits dest: map_of_SomeD)
  then show thesis
  proof cases
    case (4 l u)
    then have "((code, shift), b) \<in> set typed_keys"
      by (force simp: typed_keys_def)
    then show thesis by (rule that(4))
  qed (use assms that in \<open>simp_all add: ascii_for_make_code_def byte_def\<close>)
qed

section \<open>Typing a text\<close>

text \<open>
  The scancodes of typing one printable byte: the key's make and break codes, between the
  make and break codes of the left Shift key where the byte needs Shift.
\<close>

definition key_for :: "u8 \<Rightarrow> (u8 \<times> bool) option" where
  "key_for b =
     (if b = 0x20 then Some (0x39, False)
      else map_of (map (\<lambda>(k, x). (x, k)) typed_keys) b)"

definition keystrokes :: "u8 \<Rightarrow> u8 list" where
  "keystrokes b =
     (case key_for b of
        None \<Rightarrow> []
      | Some (c, shift) \<Rightarrow>
          if shift then [LEFT_SHIFT_MAKE, c, c OR 0x80, LEFT_SHIFT_BREAK] else [c, c OR 0x80])"

definition enter_keystrokes :: "u8 list" where
  "enter_keystrokes = [0x1C, 0x9C]"

text \<open>What makes a key usable: its codes are ordinary make and break codes.\<close>

definition plain_key :: "u8 \<Rightarrow> bool" where
  "plain_key c \<longleftrightarrow> c AND 0x80 = 0 \<and> (c OR 0x80) AND 0x80 \<noteq> 0 \<and>
     c \<notin> {LEFT_SHIFT_MAKE, LEFT_SHIFT_BREAK, RIGHT_SHIFT_MAKE, RIGHT_SHIFT_BREAK} \<and>
     c OR 0x80 \<notin> {LEFT_SHIFT_MAKE, LEFT_SHIFT_BREAK, RIGHT_SHIFT_MAKE, RIGHT_SHIFT_BREAK}"

lemma key_for_printable:
  assumes "printable b"
  shows "\<exists>c shift. key_for b = Some (c, shift) \<and> ascii_for_make_code c shift = Some b \<and> plain_key c"
proof (cases "b = 0x20")
  case True
  then show ?thesis
    by (auto simp: key_for_def ascii_for_make_code_def byte_def shift_codes plain_key_def)
next
  case False
  then have "b \<in> fst ` set (map (\<lambda>(k, x). (x, k)) typed_keys)"
    using typed_keys_complete [OF assms] by (force simp: image_iff)
  then obtain c shift where k: "map_of (map (\<lambda>(k, x). (x, k)) typed_keys) b = Some (c, shift)"
    by (metis map_of_eq_None_iff not_None_eq surj_pair)
  then have mem: "((c, shift), b) \<in> set typed_keys" by (auto dest!: map_of_SomeD)
  then have "plain_key c" using typed_keys_make by (force simp: plain_key_def)
  with False k mem show ?thesis by (auto simp: key_for_def dest: typed_keys_ascii)
qed

lemma translate_all_append:
  "translate_all (xs @ ys) s =
     (let (b1, s1) = translate_all xs s; (b2, s2) = translate_all ys s1 in (b1 @ b2, s2))"
  by (induction xs arbitrary: s) (auto simp: Let_def split: prod.splits option.splits)

lemma translate_make:
  "c \<notin> {LEFT_SHIFT_MAKE, LEFT_SHIFT_BREAK, RIGHT_SHIFT_MAKE, RIGHT_SHIFT_BREAK} \<Longrightarrow>
     translate c s = (if c AND 0x80 = 0 then ascii_for_make_code c (is_active s) else None, s)"
  by (simp add: translate_def)

lemma translate_keystrokes:
  assumes "printable b"
  shows "translate_all (keystrokes b) ShiftState_new = ([b], ShiftState_new)"
proof -
  obtain c shift where k: "key_for b = Some (c, shift)" "ascii_for_make_code c shift = Some b"
    and c: "plain_key c"
    using key_for_printable [OF assms] by blast
  have "translate LEFT_SHIFT_MAKE s = (None, s\<lparr>left_held := True\<rparr>)"
    "translate LEFT_SHIFT_BREAK s = (None, s\<lparr>left_held := False\<rparr>)" for s
    by (simp_all add: translate_def shift_codes)
  then show ?thesis
    using k c translate_make [of c] translate_make [of "c OR 0x80"]
    by (cases shift) (simp_all add: keystrokes_def is_active_def ShiftState_new_def plain_key_def)
qed

section \<open>Properties\<close>

lemma translate_typed:
  "\<forall>b \<in> set input. printable b \<Longrightarrow>
     translate_all (concat (map keystrokes input)) ShiftState_new = (input, ShiftState_new)"
  by (induction input) (simp_all add: translate_all_append translate_keystrokes)

lemma translate_enter: "translate_all enter_keystrokes ShiftState_new = ([newline], ShiftState_new)"
  by (simp add: enter_keystrokes_def translate_def LEFT_SHIFT_MAKE_def LEFT_SHIFT_BREAK_def RIGHT_SHIFT_MAKE_def
      RIGHT_SHIFT_BREAK_def ascii_for_make_code_def)

text \<open>
  C31. Typing a text of printable bytes on a keyboard with no Shift key held, each byte by
  the make and break codes of its key (with the left Shift key around it where needed),
  makes \<open>translate\<close> produce exactly that text and leaves no Shift key held. In particular
  every printable ASCII byte can be typed.
\<close>

theorem typing_roundtrip:
  assumes "\<forall>b \<in> set input. printable b"
  shows "translate_all (concat (map keystrokes input)) ShiftState_new = (input, ShiftState_new)"
  using assms by (rule translate_typed)

theorem typing_roundtrip_witness:
  "list_all printable (str ''Hi~'') \<and>
   translate_all (concat (map keystrokes (str ''Hi~''))) ShiftState_new = (str ''Hi~'', ShiftState_new)"
proof -
  have h: "\<forall>b \<in> set (str ''Hi~''). printable b" by (simp add: byte_def printable_def)
  show ?thesis using h typing_roundtrip [OF h] by (simp only: list_all_iff)
qed

text \<open>
  A byte that \<open>translate\<close> produces is printable ASCII, Enter or Backspace, so the
  shell never receives a byte it would drop, and only the Shift codes change the state.
\<close>

lemma translate_output:
  assumes "translate c s = (Some b, s')"
  shows "(printable b \<or> b = newline \<or> b = 0x08) \<and> s' = s \<and> c AND 0x80 = 0"
proof -
  have "ascii_for_make_code c (is_active s) = Some b" "s' = s" "c AND 0x80 = 0"
    using assms by (auto simp: translate_def split: if_splits)
  then show ?thesis
    using typed_keys_printable
    by (auto elim!: ascii_for_make_code_cases simp: printable_def)
qed

definition held_after :: "u8 \<Rightarrow> u8 \<Rightarrow> bool \<Rightarrow> u8 list \<Rightarrow> bool" where
  "held_after mk brk h cs = (case filter (\<lambda>c. c = mk \<or> c = brk) cs of
     [] \<Rightarrow> h | e # es \<Rightarrow> last (e # es) = mk)"

lemma held_after_Cons:
  "held_after mk brk h (c # cs) = held_after mk brk (if c = mk then True else if c = brk then False else h) cs"
  by (auto simp: held_after_def split: list.splits)

text \<open>
  The two Shift keys are tracked independently: after any sequence of scancodes each
  is held exactly when the last make or break code of that key was a make code, and
  otherwise keeps its initial state.
\<close>

lemma shift_keys_independent:
  "snd (translate_all cs s) =
     \<lparr>left_held = held_after LEFT_SHIFT_MAKE LEFT_SHIFT_BREAK (left_held s) cs,
      right_held = held_after RIGHT_SHIFT_MAKE RIGHT_SHIFT_BREAK (right_held s) cs\<rparr>"
proof (induction cs arbitrary: s)
  case Nil
  show ?case by (simp add: held_after_def)
next
  case (Cons c cs)
  have "snd (translate_all (c # cs) s) = snd (translate_all cs (snd (translate c s)))"
    by (auto simp: Let_def split: prod.splits)
  also have "\<dots> =
     \<lparr>left_held = held_after LEFT_SHIFT_MAKE LEFT_SHIFT_BREAK (left_held s) (c # cs),
      right_held = held_after RIGHT_SHIFT_MAKE RIGHT_SHIFT_BREAK (right_held s) (c # cs)\<rparr>"
    unfolding Cons.IH held_after_Cons by (auto simp: translate_def shift_codes)
  finally show ?case .
qed

text \<open>
  The US QWERTY layout, independently of the table: in Scan Code Set 1 the keys of each row
  have consecutive make codes. A row is the code of its first key with the characters of
  its keys, without and with Shift; the keys beside the letters (quote, backquote,
  backslash) stand where the code set has them. Backspace, Enter and the space bar do not
  depend on Shift.
\<close>

definition us_qwerty_rows :: "(nat \<times> bytes \<times> bytes) list" where
  "us_qwerty_rows =
     [(0x02, str ''1234567890-='', str ''!@#$%^&*()_+''),
      (0x10, str ''qwertyuiop[]'', str ''QWERTYUIOP{}''),
      (0x1E, str ''asdfghjkl;'' @ [0x27, 0x60], str ''ASDFGHJKL:'' @ [0x22] @ str ''~''),
      (0x2B, [0x5c] @ str ''zxcvbnm,./'', str ''|ZXCVBNM<>?'')]"

definition us_qwerty_keys :: "(u8 \<times> u8 \<times> u8) list" where
  "us_qwerty_keys = concat (map (\<lambda>(first, plain, shifted).
     zip (map of_nat [first..<first + length plain]) (zip plain shifted)) us_qwerty_rows)"

definition us_qwerty :: "u8 \<Rightarrow> bool \<Rightarrow> u8 option" where
  "us_qwerty c shift =
     (if c = 0x0E then Some 0x08
      else if c = 0x1C then Some 0x0A
      else if c = 0x39 then Some 0x20
      else map_option (\<lambda>(plain, shifted). if shift then shifted else plain) (map_of us_qwerty_keys c))"

lemma make_code_table_layout: "make_code_table = us_qwerty_keys"
  by (simp add: make_code_table_num us_qwerty_keys_def us_qwerty_rows_def byte_def upt_rec_numeral)

lemma ascii_us_qwerty: "ascii_for_make_code c shift = us_qwerty c shift"
  by (simp add: ascii_for_make_code_def us_qwerty_def make_code_table_layout byte_def split: option.split)

lemma break_bit: "(c :: u8) AND 0x80 \<noteq> 0 \<longleftrightarrow> bit c 7"
  using and_exp_eq_0_iff_not_bit [of c 7] by simp

text \<open>
  C10. The keyboard is a US QWERTY keyboard: for every scancode and every state of the Shift
  keys, \<open>translate\<close> gives the character that the layout has on that key, the shifted one
  when either Shift key is held; nothing for a break code (bit 7 set) or for a code without
  a key in the layout. The make and break codes 0x2A and 0xAA of the left Shift key and
  0x36 and 0xB6 of the right one give nothing and set and clear exactly that key; no other
  code changes the Shift state.
\<close>

theorem keyboard_layout:
  "translate c s =
     (if bit c 7 \<or> c = 0x2A \<or> c = 0x36 then None else us_qwerty c (left_held s \<or> right_held s),
      \<lparr>left_held = (left_held s \<or> c = 0x2A) \<and> c \<noteq> 0xAA, right_held = (right_held s \<or> c = 0x36) \<and> c \<noteq> 0xB6\<rparr>)"
proof -
  have "bit (0xAA :: u8) 7" "bit (0xB6 :: u8) 7" "\<not> bit (0x2A :: u8) 7" "\<not> bit (0x36 :: u8) 7" by simp_all
  then show ?thesis
    by (cases s) (auto simp: translate_def shift_codes break_bit ascii_us_qwerty is_active_def)
qed

end
