(* ===== verification/Bounded_Store.thy ===== *)
theory Bounded_Store
  imports Rust_Prelude "HOL-Library.Sublist"
begin

text \<open>
  The contracts of the two fixed-size byte stores of the kernel. Both keep at most
  \<open>cap\<close> elements, and both operations never panic under the invariant. A
  \<open>lossy_fifo\<close> makes room by dropping its oldest element (the scancode queue between
  the keyboard interrupt and the main loop); a \<open>refusing_lifo\<close> refuses the new element
  (the line being edited). The clients' lemmas are proved here, once.
\<close>

locale bounded_store =
  fixes cap :: nat
    and inv :: "'q \<Rightarrow> bool"
    and contents :: "'q \<Rightarrow> 'a list"
    and new :: 'q
  assumes cap_pos: "0 < cap"
    and inv_new: "inv new"
    and contents_new: "contents new = []"
    and contents_bound: "inv q \<Longrightarrow> length (contents q) \<le> cap"

section \<open>First in, first out, dropping the oldest\<close>

definition keep_last :: "nat \<Rightarrow> 'a list \<Rightarrow> 'a list" where
  "keep_last n xs = drop (length xs - n) xs"

lemma keep_last_id: "length xs \<le> n \<Longrightarrow> keep_last n xs = xs"
  by (simp add: keep_last_def)

lemma keep_last_snoc:
  assumes "0 < n" and "length xs \<le> n"
  shows "keep_last n (xs @ [x]) = (if length xs = n then tl xs else xs) @ [x]"
  using assms by (cases xs) (auto simp: keep_last_def)

lemma keep_last_keep_last: "keep_last n (keep_last n xs @ ys) = keep_last n (xs @ ys)"
  by (cases "length xs \<le> n") (auto simp: keep_last_def add.commute)

text \<open>An operation of the producer or of the consumer.\<close>

datatype 'a store_op = Push 'a | Pop

text \<open>A run of such operations: the elements popped, and the final store.\<close>

fun run_store ::
  "('a \<Rightarrow> 'q \<Rightarrow> 'q res) \<Rightarrow> ('q \<Rightarrow> ('a option \<times> 'q) res) \<Rightarrow> 'a store_op list \<Rightarrow> 'q \<Rightarrow> ('a list \<times> 'q) res"
where
  "run_store push pop [] q = Inr ([], q)"
| "run_store push pop (Push x # ops) q = rbind (push x q) (run_store push pop ops)"
| "run_store push pop (Pop # ops) q =
     rbind (pop q) (\<lambda>(r, q').
     rbind (run_store push pop ops q') (\<lambda>(out, q'').
     Inr ((case r of None \<Rightarrow> out | Some x \<Rightarrow> x # out), q'')))"

fun pushed :: "'a store_op list \<Rightarrow> 'a list" where
  "pushed [] = []"
| "pushed (Push x # ops) = x # pushed ops"
| "pushed (Pop # ops) = pushed ops"

locale lossy_fifo = bounded_store cap inv contents new
  for cap :: nat and inv :: "'q \<Rightarrow> bool" and contents :: "'q \<Rightarrow> 'a list" and new :: 'q +
  fixes push :: "'a \<Rightarrow> 'q \<Rightarrow> 'q res"
    and pop :: "'q \<Rightarrow> ('a option \<times> 'q) res"
  assumes push_spec: "inv q \<Longrightarrow>
      \<exists>q'. push x q = Inr q' \<and> inv q' \<and>
        contents q' = (if length (contents q) = cap then tl (contents q) else contents q) @ [x]"
    and pop_spec: "inv q \<Longrightarrow>
      \<exists>q'. pop q = Inr (case contents q of [] \<Rightarrow> None | x # _ \<Rightarrow> Some x, q') \<and> inv q' \<and>
        contents q' = tl (contents q)"
begin

text \<open>Pushing a whole sequence keeps its last \<open>cap\<close> elements, in order.\<close>

lemma push_all_keeps_last:
  "inv q \<Longrightarrow> \<exists>q'. for_each xs push q = Inr q' \<and> inv q' \<and> contents q' = keep_last cap (contents q @ xs)"
proof (induction xs arbitrary: q)
  case Nil
  then show ?case by (simp add: keep_last_id contents_bound)
next
  case (Cons x xs)
  obtain q' where q': "push x q = Inr q'" "inv q'"
    "contents q' = (if length (contents q) = cap then tl (contents q) else contents q) @ [x]"
    using push_spec [OF Cons.prems] by blast
  then have "contents q' = keep_last cap (contents q @ [x])"
    using keep_last_snoc [OF cap_pos contents_bound [OF Cons.prems], of x] by simp
  then have "keep_last cap (contents q' @ xs) = keep_last cap (contents q @ x # xs)"
    using keep_last_keep_last [of cap "contents q @ [x]" xs] by simp
  with q'(1,2) Cons.IH [of q'] show ?case by simp
qed

text \<open>
  A run of producer and consumer steps: the elements popped followed by those left are a
  subsequence of those present at the start followed by those pushed. Nothing is
  reordered, duplicated or invented.
\<close>

lemma run_no_reorder:
  "inv q \<Longrightarrow> \<exists>out q'. run_store push pop ops q = Inr (out, q') \<and> inv q' \<and>
     subseq (out @ contents q') (contents q @ pushed ops)"
proof (induction ops arbitrary: q)
  case Nil
  then show ?case by simp
next
  case (Cons opn ops)
  show ?case
  proof (cases opn)
    case (Push x)
    obtain q1 where q1: "push x q = Inr q1" "inv q1"
      "contents q1 = (if length (contents q) = cap then tl (contents q) else contents q) @ [x]"
      using push_spec [OF Cons.prems] by blast
    obtain out q2 where r: "run_store push pop ops q1 = Inr (out, q2)" "inv q2"
      "subseq (out @ contents q2) (contents q1 @ pushed ops)"
      using Cons.IH [OF q1(2)] by blast
    have "subseq (contents q1 @ pushed ops) (contents q @ x # pushed ops)"
    proof (cases "contents q")
      case (Cons y ys)
      then show ?thesis using q1(3) by (auto intro: list_emb_append2 [of _ _ _ "[y]", simplified])
    qed (use q1(3) in auto)
    with Push q1 r show ?thesis by (auto intro: subseq_order.order_trans)
  next
    case Pop
    obtain q1 where q1: "pop q = Inr (case contents q of [] \<Rightarrow> None | x # _ \<Rightarrow> Some x, q1)"
      "inv q1" "contents q1 = tl (contents q)"
      using pop_spec [OF Cons.prems] by blast
    obtain out q2 where r: "run_store push pop ops q1 = Inr (out, q2)" "inv q2"
      "subseq (out @ contents q2) (contents q1 @ pushed ops)"
      using Cons.IH [OF q1(2)] by blast
    from Pop q1 r show ?thesis by (cases "contents q") auto
  qed
qed

end

section \<open>Last in, first out, refusing when full\<close>

locale refusing_lifo = bounded_store cap inv contents new
  for cap :: nat and inv :: "'q \<Rightarrow> bool" and contents :: "'q \<Rightarrow> 'a list" and new :: 'q +
  fixes push :: "'a \<Rightarrow> 'q \<Rightarrow> (bool \<times> 'q) res"
    and pop :: "'q \<Rightarrow> (bool \<times> 'q) res"
    and clear :: "'q \<Rightarrow> 'q"
    and accepts :: "'a \<Rightarrow> bool"
  assumes push_spec: "inv q \<Longrightarrow> accepts x \<Longrightarrow>
      \<exists>q'. push x q = Inr (length (contents q) < cap, q') \<and> inv q' \<and>
        contents q' = (if length (contents q) < cap then contents q @ [x] else contents q)"
    and pop_spec: "inv q \<Longrightarrow>
      \<exists>q'. pop q = Inr (contents q \<noteq> [], q') \<and> inv q' \<and> contents q' = butlast (contents q)"
    and clear_spec: "inv q \<Longrightarrow> inv (clear q) \<and> contents (clear q) = []"
begin

text \<open>Pushing a whole sequence keeps its first elements, up to the capacity.\<close>

lemma push_all_keeps_first:
  "inv q \<Longrightarrow> \<forall>x \<in> set xs. accepts x \<Longrightarrow>
     \<exists>q'. for_each xs (\<lambda>x q. rbind (push x q) (\<lambda>(_, q'). Inr q')) q = Inr q' \<and> inv q' \<and>
       contents q' = take cap (contents q @ xs)"
proof (induction xs arbitrary: q)
  case Nil
  then show ?case by (simp add: contents_bound)
next
  case (Cons x xs)
  obtain q' where q': "push x q = Inr (length (contents q) < cap, q')" "inv q'"
    "contents q' = (if length (contents q) < cap then contents q @ [x] else contents q)"
    using push_spec [OF Cons.prems(1)] Cons.prems(2) by fastforce
  obtain q'' where "for_each xs (\<lambda>x q. rbind (push x q) (\<lambda>(_, q'). Inr q')) q' = Inr q''" "inv q''"
    "contents q'' = take cap (contents q' @ xs)"
    using Cons.IH [OF q'(2)] Cons.prems(2) by auto
  moreover have "take cap (contents q' @ xs) = take cap (contents q @ x # xs)"
    using q'(3) contents_bound [OF Cons.prems(1)] by (auto simp: take_Cons')
  ultimately show ?case using q'(1) by simp
qed

text \<open>An accepted element is the one the next removal takes away.\<close>

lemma pop_push:
  assumes "inv q" and "accepts x" and "length (contents q) < cap"
  shows "\<exists>q' q''. push x q = Inr (True, q') \<and> pop q' = Inr (True, q'') \<and> inv q'' \<and>
    contents q'' = contents q"
proof -
  obtain q' where q': "push x q = Inr (True, q')" "inv q'" "contents q' = contents q @ [x]"
    using push_spec [OF assms(1,2)] assms(3) by auto
  then show ?thesis using pop_spec [OF q'(2)] by auto
qed

end

end
