(* ===== verification/Scancode_Queue.thy ===== *)
theory Scancode_Queue
  imports Bounded_Store
begin

text \<open>
  The ring buffer of \<^verbatim>\<open>src/interrupts.rs\<close> between the keyboard interrupt (producer)
  and the main loop (consumer), and the proof that it is a first-in first-out queue of
  capacity 16 that drops its oldest element when it is full.
\<close>

section \<open>The ring buffer\<close>

definition SCANCODE_QUEUE_CAPACITY :: usize where
  "SCANCODE_QUEUE_CAPACITY = 16"

record ScancodeQueue =
  sq_buffer :: "u8 list"
  sq_head :: usize
  sq_tail :: usize
  sq_len :: usize

definition ScancodeQueue_new :: ScancodeQueue where
  "ScancodeQueue_new =
     \<lparr>sq_buffer = replicate SCANCODE_QUEUE_CAPACITY 0, sq_head = 0, sq_tail = 0, sq_len = 0\<rparr>"

definition ScancodeQueue_push :: "u8 \<Rightarrow> ScancodeQueue \<Rightarrow> ScancodeQueue res" where
  "ScancodeQueue_push scancode q =
     rbind
       (if sq_len q = SCANCODE_QUEUE_CAPACITY then
          rbind (usize_add (sq_head q) 1) (\<lambda>h.
          rbind (usize_sub (sq_len q) 1) (\<lambda>l.
          Inr (q\<lparr>sq_head := h mod SCANCODE_QUEUE_CAPACITY, sq_len := l\<rparr>)))
        else Inr q) (\<lambda>q.
     rbind (arr_set (sq_buffer q) (sq_tail q) scancode) (\<lambda>buf.
     rbind (usize_add (sq_tail q) 1) (\<lambda>t.
     rbind (usize_add (sq_len q) 1) (\<lambda>l.
     Inr (q\<lparr>sq_buffer := buf, sq_tail := t mod SCANCODE_QUEUE_CAPACITY, sq_len := l\<rparr>)))))"

definition ScancodeQueue_pop :: "ScancodeQueue \<Rightarrow> (u8 option \<times> ScancodeQueue) res" where
  "ScancodeQueue_pop q =
     (if sq_len q = 0 then Inr (None, q)
      else
        rbind (arr_get (sq_buffer q) (sq_head q)) (\<lambda>scancode.
        rbind (usize_add (sq_head q) 1) (\<lambda>h.
        rbind (usize_sub (sq_len q) 1) (\<lambda>l.
        Inr (Some scancode, q\<lparr>sq_head := h mod SCANCODE_QUEUE_CAPACITY, sq_len := l\<rparr>)))))"

section \<open>Invariant and contents\<close>

definition queue_inv :: "ScancodeQueue \<Rightarrow> bool" where
  "queue_inv q \<longleftrightarrow>
     length (sq_buffer q) = SCANCODE_QUEUE_CAPACITY \<and>
     sq_head q < SCANCODE_QUEUE_CAPACITY \<and> sq_len q \<le> SCANCODE_QUEUE_CAPACITY \<and>
     sq_tail q = (sq_head q + sq_len q) mod SCANCODE_QUEUE_CAPACITY"

definition queue_contents :: "ScancodeQueue \<Rightarrow> u8 list" where
  "queue_contents q =
     map (\<lambda>i. sq_buffer q ! ((sq_head q + i) mod SCANCODE_QUEUE_CAPACITY)) [0..<sq_len q]"

lemma queue_contents_length [simp]: "length (queue_contents q) = sq_len q"
  by (simp add: queue_contents_def)

lemma queue_inv_new: "queue_inv ScancodeQueue_new"
  by (simp add: queue_inv_def ScancodeQueue_new_def SCANCODE_QUEUE_CAPACITY_def)

lemma queue_contents_new: "queue_contents ScancodeQueue_new = []"
  by (simp add: queue_contents_def ScancodeQueue_new_def)

text \<open>Taking the head away, as \<open>pop\<close> does and as \<open>push\<close> does on a full queue.\<close>

definition drop_head :: "ScancodeQueue \<Rightarrow> ScancodeQueue" where
  "drop_head q = q\<lparr>sq_head := (sq_head q + 1) mod SCANCODE_QUEUE_CAPACITY, sq_len := sq_len q - 1\<rparr>"

lemma drop_head_inv: "queue_inv q \<Longrightarrow> 0 < sq_len q \<Longrightarrow> queue_inv (drop_head q)"
  by (cases "sq_len q")
    (auto simp: queue_inv_def drop_head_def SCANCODE_QUEUE_CAPACITY_def mod_add_left_eq mod_Suc_eq)

lemma drop_head_contents: "queue_contents (drop_head q) = tl (queue_contents q)"
proof -
  have "tl [0..<sq_len q] = map Suc [0..<sq_len q - 1]"
    by (cases "sq_len q") (simp_all add: map_Suc_upt upt_conv_Cons del: upt_Suc)
  then show ?thesis
    by (simp add: queue_contents_def drop_head_def map_tl [symmetric] mod_add_left_eq comp_def)
qed

lemma queue_contents_hd:
  "queue_inv q \<Longrightarrow> 0 < sq_len q \<Longrightarrow> queue_contents q \<noteq> [] \<and> hd (queue_contents q) = sq_buffer q ! sq_head q"
  by (simp add: queue_contents_def queue_inv_def hd_map)

text \<open>Writing at the tail of a queue that is not full appends to its contents.\<close>

definition push_tail :: "u8 \<Rightarrow> ScancodeQueue \<Rightarrow> ScancodeQueue" where
  "push_tail x q =
     q\<lparr>sq_buffer := (sq_buffer q)[sq_tail q := x],
       sq_tail := (sq_tail q + 1) mod SCANCODE_QUEUE_CAPACITY, sq_len := sq_len q + 1\<rparr>"

lemma ring_slots_differ:
  assumes "i < l" and "l < (n::nat)"
  shows "(h + l) mod n \<noteq> (h + i) mod n"
proof
  assume "(h + l) mod n = (h + i) mod n"
  then have "n dvd l - i" using assms by (metis add_diff_cancel_left less_imp_le mod_eq_dvd_iff_nat
        nat_add_left_cancel_le)
  then show False using assms by (auto dest: dvd_imp_le)
qed

lemma push_tail_appends:
  assumes "queue_inv q" and "sq_len q < SCANCODE_QUEUE_CAPACITY"
  shows "queue_inv (push_tail x q) \<and> queue_contents (push_tail x q) = queue_contents q @ [x]"
proof -
  have "0 < SCANCODE_QUEUE_CAPACITY" by (simp add: SCANCODE_QUEUE_CAPACITY_def)
  then show ?thesis
    using assms ring_slots_differ [of _ "sq_len q" SCANCODE_QUEUE_CAPACITY "sq_head q"]
    by (auto simp: push_tail_def queue_inv_def queue_contents_def mod_add_left_eq mod_Suc_eq)
qed

lemma push_eq:
  "queue_inv q \<Longrightarrow>
     ScancodeQueue_push x q =
       Inr (push_tail x (if sq_len q = SCANCODE_QUEUE_CAPACITY then drop_head q else q))"
  by (auto simp: ScancodeQueue_push_def push_tail_def drop_head_def queue_inv_def rust_simps
      SCANCODE_QUEUE_CAPACITY_def)

lemma push_refines:
  assumes "queue_inv q"
  shows "\<exists>q'. ScancodeQueue_push x q = Inr q' \<and> queue_inv q' \<and>
    queue_contents q' =
      (if length (queue_contents q) = SCANCODE_QUEUE_CAPACITY then tl (queue_contents q)
       else queue_contents q) @ [x]"
proof -
  let ?r = "if sq_len q = SCANCODE_QUEUE_CAPACITY then drop_head q else q"
  have "queue_inv ?r"
    using assms drop_head_inv [OF assms] by (simp add: SCANCODE_QUEUE_CAPACITY_def)
  moreover have "sq_len ?r < SCANCODE_QUEUE_CAPACITY"
    using assms by (auto simp: drop_head_def queue_inv_def SCANCODE_QUEUE_CAPACITY_def)
  moreover have "queue_contents ?r = (if length (queue_contents q) = SCANCODE_QUEUE_CAPACITY
      then tl (queue_contents q) else queue_contents q)"
    by (simp add: drop_head_contents)
  ultimately show ?thesis
    using push_tail_appends [of ?r x] push_eq [OF assms, of x] by simp
qed

lemma pop_refines:
  assumes "queue_inv q"
  shows "\<exists>q'. ScancodeQueue_pop q = Inr (case queue_contents q of [] \<Rightarrow> None | x # _ \<Rightarrow> Some x, q') \<and>
    queue_inv q' \<and> queue_contents q' = tl (queue_contents q)"
proof (cases "sq_len q = 0")
  case True
  then have "queue_contents q = []" by (simp add: queue_contents_def)
  with True assms show ?thesis by (simp add: ScancodeQueue_pop_def)
next
  case False
  have "ScancodeQueue_pop q = Inr (Some (sq_buffer q ! sq_head q), drop_head q)"
    using assms False
    by (simp add: ScancodeQueue_pop_def queue_inv_def rust_simps drop_head_def SCANCODE_QUEUE_CAPACITY_def)
  with False assms drop_head_inv [OF assms] drop_head_contents [of q] queue_contents_hd [OF assms]
  show ?thesis by (auto split: list.splits)
qed

interpretation scancode_fifo: lossy_fifo SCANCODE_QUEUE_CAPACITY queue_inv queue_contents
    ScancodeQueue_new ScancodeQueue_push ScancodeQueue_pop
proof unfold_locales
  show "0 < SCANCODE_QUEUE_CAPACITY" by (simp add: SCANCODE_QUEUE_CAPACITY_def)
  show "queue_inv q \<Longrightarrow> length (queue_contents q) \<le> SCANCODE_QUEUE_CAPACITY" for q
    by (simp add: queue_inv_def)
qed (fact queue_inv_new queue_contents_new push_refines pop_refines)+

section \<open>Properties\<close>

text \<open>
  C11. The ring buffer implements a bounded first-in first-out queue: neither operation
  panics, \<open>push\<close> appends the scancode and, only when 16 are waiting, drops the oldest;
  \<open>pop\<close> returns the oldest waiting scancode, or \<^verbatim>\<open>None\<close> on the empty queue.
\<close>

theorem scancode_queue_refines:
  assumes "queue_inv q"
  shows "(\<exists>q'. ScancodeQueue_push x q = Inr q' \<and> queue_inv q' \<and>
            queue_contents q' = keep_last SCANCODE_QUEUE_CAPACITY (queue_contents q @ [x])) \<and>
         (\<exists>q'. ScancodeQueue_pop q =
              Inr (if queue_contents q = [] then None else Some (hd (queue_contents q)), q') \<and>
            queue_inv q' \<and> queue_contents q' = tl (queue_contents q))"
proof
  show "\<exists>q'. ScancodeQueue_push x q = Inr q' \<and> queue_inv q' \<and>
      queue_contents q' = keep_last SCANCODE_QUEUE_CAPACITY (queue_contents q @ [x])"
    using scancode_fifo.push_all_keeps_last [OF assms, of "[x]"]
    by (auto simp: rbind_Inr_iff)
  show "\<exists>q'. ScancodeQueue_pop q =
      Inr (if queue_contents q = [] then None else Some (hd (queue_contents q)), q') \<and>
    queue_inv q' \<and> queue_contents q' = tl (queue_contents q)"
    using pop_refines [OF assms] by (cases "queue_contents q") auto
qed

theorem scancode_queue_refines_witness:
  "queue_inv ScancodeQueue_new \<and>
   (\<exists>q'. ScancodeQueue_push 0x1E ScancodeQueue_new = Inr q' \<and> queue_contents q' = [0x1E])"
  using queue_inv_new scancode_queue_refines [OF queue_inv_new, of "0x1E"]
  by (auto simp: queue_contents_new keep_last_def SCANCODE_QUEUE_CAPACITY_def)

text \<open>
  Whatever the interleaving of the keyboard interrupt and the main loop, the queue
  never panics and the scancodes that the main loop has taken, followed by those still
  waiting, are a subsequence of those that the interrupt delivered: nothing is
  reordered, repeated or invented.
\<close>

lemma scancode_queue_no_reorder:
  "\<exists>out q. run_store ScancodeQueue_push ScancodeQueue_pop ops ScancodeQueue_new = Inr (out, q) \<and>
     queue_inv q \<and> subseq (out @ queue_contents q) (pushed ops)"
  using scancode_fifo.run_no_reorder [OF queue_inv_new, of ops] by (simp add: queue_contents_new)

text \<open>
  After a burst of scancodes with no consumer step in between, exactly the last 16 of
  them are waiting, in the order in which they arrived.
\<close>

lemma scancode_burst_keeps_last:
  "\<exists>q. for_each scancodes ScancodeQueue_push ScancodeQueue_new = Inr q \<and>
     queue_contents q = keep_last SCANCODE_QUEUE_CAPACITY scancodes"
  using scancode_fifo.push_all_keeps_last [OF queue_inv_new, of scancodes]
  by (auto simp: queue_contents_new)

end
