(* ===== verification/Rust_Str.thy ===== *)
theory Rust_Str
  imports Rust_Prelude
begin

text \<open>
  What the kernel uses of \<^verbatim>\<open>core::str\<close> and \<^verbatim>\<open>core::fmt\<close>: the validity check of
  \<open>from_utf8\<close>, \<open>trim\<close>, \<open>split_once(' ')\<close>, and the formats \<^verbatim>\<open>{}\<close> and
  \<^verbatim>\<open>{:#x}\<close> of an unsigned number. A \<^verbatim>\<open>&str\<close> is the list of its bytes. \<open>trim\<close>
  removes the ASCII white space only; the kernel applies it to lines of printable ASCII.
\<close>

section \<open>UTF-8\<close>

definition in_range :: "u8 \<Rightarrow> u8 \<Rightarrow> u8 \<Rightarrow> bool" where
  "in_range lo hi b \<longleftrightarrow> lo \<le> b \<and> b \<le> hi"

fun utf8_valid :: "bytes \<Rightarrow> bool" where
  "utf8_valid [] = True"
| "utf8_valid (a # r) =
     (if a < 0x80 then utf8_valid r
      else case r of [] \<Rightarrow> False
      | b # r2 \<Rightarrow>
          if in_range 0xC2 0xDF a then in_range 0x80 0xBF b \<and> utf8_valid r2
          else case r2 of [] \<Rightarrow> False
          | c # r3 \<Rightarrow>
              if a = 0xE0 then in_range 0xA0 0xBF b \<and> in_range 0x80 0xBF c \<and> utf8_valid r3
              else if a = 0xED then in_range 0x80 0x9F b \<and> in_range 0x80 0xBF c \<and> utf8_valid r3
              else if in_range 0xE1 0xEF a then in_range 0x80 0xBF b \<and> in_range 0x80 0xBF c \<and> utf8_valid r3
              else case r3 of [] \<Rightarrow> False
              | d # r4 \<Rightarrow>
                  (a = 0xF0 \<and> in_range 0x90 0xBF b \<or> in_range 0xF1 0xF3 a \<and> in_range 0x80 0xBF b \<or>
                   a = 0xF4 \<and> in_range 0x80 0x8F b) \<and>
                  in_range 0x80 0xBF c \<and> in_range 0x80 0xBF d \<and> utf8_valid r4)"

definition from_utf8 :: "bytes \<Rightarrow> bytes option" where
  "from_utf8 bs = (if utf8_valid bs then Some bs else None)"

lemma printable_less: "printable b \<Longrightarrow> b < 0x80"
  by (auto simp: printable_def word_le_nat_alt word_less_nat_alt)

lemma utf8_valid_printable: "\<forall>b \<in> set bs. printable b \<Longrightarrow> utf8_valid bs"
  by (induction bs) (simp_all add: printable_less)

section \<open>Trimming and splitting\<close>

definition is_ascii_space :: "u8 \<Rightarrow> bool" where
  "is_ascii_space b \<longleftrightarrow> in_range 0x09 0x0D b \<or> b = 0x20"

definition trim :: "bytes \<Rightarrow> bytes" where
  "trim s = rev (dropWhile is_ascii_space (rev (dropWhile is_ascii_space s)))"

fun split_once_space :: "bytes \<Rightarrow> (bytes \<times> bytes) option" where
  "split_once_space [] = None"
| "split_once_space (b # bs) =
     (if b = 0x20 then Some ([], bs)
      else case split_once_space bs of None \<Rightarrow> None | Some (l, r) \<Rightarrow> Some (b # l, r))"

lemma split_once_space_Some:
  "split_once_space s = Some (l, r) \<longleftrightarrow> s = l @ 0x20 # r \<and> 0x20 \<notin> set l"
proof (induction s arbitrary: l)
  case Nil
  show ?case by simp
next
  case (Cons b bs)
  show ?case
  proof (cases l)
    case Nil
    then show ?thesis by (auto split: option.splits)
  next
    case (Cons x xs)
    then show ?thesis using Cons.IH [of xs] by (auto split: option.splits)
  qed
qed

lemma split_once_space_None: "split_once_space s = None \<longleftrightarrow> 0x20 \<notin> set s"
  by (induction s) (auto split: option.splits)

lemma trim_sublist: "\<exists>l r. s = l @ trim s @ r \<and> (\<forall>b \<in> set l \<union> set r. is_ascii_space b)"
proof -
  define t where "t = dropWhile is_ascii_space s"
  have "s = takeWhile is_ascii_space s @ t" by (simp add: t_def)
  moreover have "t = rev (dropWhile is_ascii_space (rev t)) @ rev (takeWhile is_ascii_space (rev t))"
    by (metis rev_append rev_rev_ident takeWhile_dropWhile_id)
  ultimately have "s = takeWhile is_ascii_space s @ trim s @ rev (takeWhile is_ascii_space (rev t))"
    by (metis t_def trim_def)
  moreover have "\<forall>b \<in> set (takeWhile is_ascii_space s) \<union> set (rev (takeWhile is_ascii_space (rev t))).
      is_ascii_space b"
    by (auto dest: set_takeWhileD)
  ultimately show ?thesis by blast
qed

lemma set_trim: "set (trim s) \<subseteq> set s"
  using trim_sublist [of s] by (metis Un_iff set_append subsetI)

lemma dropWhile_hd: "xs = [] \<or> \<not> P (hd xs) \<Longrightarrow> dropWhile P xs = xs"
  by (cases xs) auto

lemma trim_id: "s = [] \<or> \<not> is_ascii_space (hd s) \<and> \<not> is_ascii_space (last s) \<Longrightarrow> trim s = s"
  by (auto simp: trim_def dropWhile_hd hd_rev)

section \<open>Numbers\<close>

fun digits :: "nat \<Rightarrow> nat \<Rightarrow> nat list" where
  "digits base n =
     (if base < 2 \<or> n < base then [n] else digits base (n div base) @ [n mod base])"

declare digits.simps [simp del]

definition digit_byte :: "nat \<Rightarrow> u8" where
  "digit_byte d = of_nat (if d < 10 then 0x30 + d else 0x61 + (d - 10))"

text \<open>The formats \<^verbatim>\<open>{}\<close> and \<^verbatim>\<open>{:#x}\<close>.\<close>

definition fmt_dec :: "nat \<Rightarrow> bytes" where
  "fmt_dec n = map digit_byte (digits 10 n)"

definition fmt_hex :: "nat \<Rightarrow> bytes" where
  "fmt_hex n = str ''0x'' @ map digit_byte (digits 16 n)"

text \<open>\<^verbatim>\<open>{}\<close> of a signed number.\<close>

definition fmt_int :: "int \<Rightarrow> bytes" where
  "fmt_int i = (if i < 0 then 0x2d # fmt_dec (nat (- i)) else fmt_dec (nat i))"

definition digit_value :: "u8 \<Rightarrow> nat" where
  "digit_value b = (if unat b < 0x3a then unat b - 0x30 else unat b - 0x61 + 10)"

definition parse_digits :: "nat \<Rightarrow> bytes \<Rightarrow> nat" where
  "parse_digits base bs = foldl (\<lambda>acc b. acc * base + digit_value b) 0 bs"

lemma digits_bound: "2 \<le> base \<Longrightarrow> d \<in> set (digits base n) \<Longrightarrow> d < base"
proof (induction base n rule: digits.induct)
  case (1 base n)
  then show ?case
    by (cases "n < base") (auto simp: digits.simps [of base n])
qed

lemma digit_byte_value: "d < 16 \<Longrightarrow> digit_value (digit_byte d) = d"
  by (simp add: digit_byte_def digit_value_def unat_of_nat)

lemma digit_byte_printable: "d < 16 \<Longrightarrow> printable (digit_byte d)"
  by (simp add: digit_byte_def printable_def word_le_nat_alt unat_of_nat)

lemma parse_digits_print:
  assumes "2 \<le> base" and "base \<le> 16"
  shows "parse_digits base (map digit_byte (digits base n)) = n"
  using assms
proof (induction base n rule: digits.induct)
  case (1 base n)
  then have "n mod base < 16" by (metis less_le_trans mod_less_divisor not_numeral_le_zero not_gr_zero)
  with 1 show ?case
    by (cases "n < base")
      (simp_all add: parse_digits_def digits.simps [of base n] digit_byte_value)
qed

lemma fmt_dec_printable: "\<forall>b \<in> set (fmt_dec n). printable b"
  using digits_bound [of 10 _ n] by (fastforce simp: fmt_dec_def intro: digit_byte_printable)

lemma fmt_hex_printable: "\<forall>b \<in> set (fmt_hex n). printable b"
proof -
  have "\<forall>d \<in> set (digits 16 n). printable (digit_byte d)"
    using digits_bound [of 16 _ n] by (auto intro: digit_byte_printable)
  moreover have "printable (byte CHR ''0'') \<and> printable (byte CHR ''x'')"
    by (simp add: byte_def printable_def)
  ultimately show ?thesis by (auto simp: fmt_hex_def)
qed

end
