(* ===== verification/Line_Buffer.thy ===== *)
theory Line_Buffer
  imports Bounded_Store Rust_Str
begin

text \<open>
  The line being edited, from \<^verbatim>\<open>src/shell.rs\<close>: a fixed array of 128 bytes and a
  length, and the proof that it is a bounded stack that refuses a byte when it is full.
\<close>

section \<open>The buffer\<close>

definition LINE_CAPACITY :: usize where
  "LINE_CAPACITY = 128"

record LineBuffer =
  lb_bytes :: bytes
  lb_len :: usize

definition LineBuffer_new :: LineBuffer where
  "LineBuffer_new = \<lparr>lb_bytes = replicate LINE_CAPACITY 0, lb_len = 0\<rparr>"

definition LineBuffer_push :: "u8 \<Rightarrow> LineBuffer \<Rightarrow> (bool \<times> LineBuffer) res" where
  "LineBuffer_push b l =
     (if lb_len l = LINE_CAPACITY then Inr (False, l)
      else
        rbind (arr_set (lb_bytes l) (lb_len l) b) (\<lambda>bs.
        rbind (usize_add (lb_len l) 1) (\<lambda>n.
        Inr (True, l\<lparr>lb_bytes := bs, lb_len := n\<rparr>))))"

definition LineBuffer_pop :: "LineBuffer \<Rightarrow> (bool \<times> LineBuffer) res" where
  "LineBuffer_pop l =
     (if lb_len l = 0 then Inr (False, l)
      else rbind (usize_sub (lb_len l) 1) (\<lambda>n. Inr (True, l\<lparr>lb_len := n\<rparr>)))"

definition LineBuffer_clear :: "LineBuffer \<Rightarrow> LineBuffer" where
  "LineBuffer_clear l = l\<lparr>lb_len := 0\<rparr>"

text \<open>The slice \<^verbatim>\<open>&self.bytes[..self.len]\<close> panics when the length exceeds the array.\<close>

definition LineBuffer_as_str :: "LineBuffer \<Rightarrow> bytes res" where
  "LineBuffer_as_str l =
     (if lb_len l \<le> length (lb_bytes l)
      then Inr (case from_utf8 (take (lb_len l) (lb_bytes l)) of Some s \<Rightarrow> s | None \<Rightarrow> [])
      else Inl (IndexOutOfBounds (length (lb_bytes l)) (lb_len l)))"

section \<open>Invariant and contents\<close>

definition line_contents :: "LineBuffer \<Rightarrow> bytes" where
  "line_contents l = take (lb_len l) (lb_bytes l)"

definition line_inv :: "LineBuffer \<Rightarrow> bool" where
  "line_inv l \<longleftrightarrow> length (lb_bytes l) = LINE_CAPACITY \<and> lb_len l \<le> LINE_CAPACITY \<and>
     (\<forall>b \<in> set (line_contents l). printable b)"

lemma line_contents_length: "line_inv l \<Longrightarrow> length (line_contents l) = lb_len l"
  by (simp add: line_inv_def line_contents_def)

lemma line_new: "line_inv LineBuffer_new" "line_contents LineBuffer_new = []"
  by (simp_all add: line_inv_def line_contents_def LineBuffer_new_def)

lemma line_push_refines:
  assumes "line_inv l" and "printable b"
  shows "\<exists>l'. LineBuffer_push b l = Inr (length (line_contents l) < LINE_CAPACITY, l') \<and> line_inv l' \<and>
    line_contents l' =
      (if length (line_contents l) < LINE_CAPACITY then line_contents l @ [b] else line_contents l)"
proof (cases "lb_len l = LINE_CAPACITY")
  case True
  then show ?thesis using assms line_contents_length [OF assms(1)] by (simp add: LineBuffer_push_def)
next
  case False
  then have lt: "lb_len l < length (lb_bytes l)" using assms(1) by (simp add: line_inv_def)
  have "LineBuffer_push b l =
      Inr (True, l\<lparr>lb_bytes := (lb_bytes l)[lb_len l := b], lb_len := lb_len l + 1\<rparr>)"
    using False lt assms(1)
    by (simp add: LineBuffer_push_def rust_simps line_inv_def LINE_CAPACITY_def)
  then show ?thesis
    using assms lt False line_contents_length [OF assms(1)] take_Suc_update [OF lt, of b]
    by (auto simp: line_inv_def line_contents_def)
qed

lemma line_pop_refines:
  assumes "line_inv l"
  shows "\<exists>l'. LineBuffer_pop l = Inr (line_contents l \<noteq> [], l') \<and> line_inv l' \<and>
    line_contents l' = butlast (line_contents l)"
proof -
  have "set (take (lb_len l - Suc 0) (lb_bytes l)) \<subseteq> set (take (lb_len l) (lb_bytes l))"
    by (rule set_take_subset_set_take) simp
  then show ?thesis
    using assms line_contents_length [OF assms]
    by (auto simp: LineBuffer_pop_def line_inv_def line_contents_def rust_simps butlast_take)
qed

lemma line_clear_refines:
  "line_inv l \<Longrightarrow> line_inv (LineBuffer_clear l) \<and> line_contents (LineBuffer_clear l) = []"
  by (simp add: line_inv_def line_contents_def LineBuffer_clear_def)

lemma line_as_str: "line_inv l \<Longrightarrow> LineBuffer_as_str l = Inr (line_contents l)"
  by (simp add: LineBuffer_as_str_def line_inv_def line_contents_def from_utf8_def utf8_valid_printable)

interpretation line_lifo: refusing_lifo LINE_CAPACITY line_inv line_contents LineBuffer_new
    LineBuffer_push LineBuffer_pop LineBuffer_clear printable
proof unfold_locales
  show "0 < LINE_CAPACITY" by (simp add: LINE_CAPACITY_def)
  show "line_inv q \<Longrightarrow> length (line_contents q) \<le> LINE_CAPACITY" for q
    by (simp add: line_inv_def line_contents_length)
qed (fact line_new line_push_refines line_pop_refines line_clear_refines)+

section \<open>Properties\<close>

text \<open>
  C30. The line buffer implements a stack of at most 128 printable bytes: a byte pushed on
  a line with room is appended and reported as accepted, a byte pushed on a full line is
  refused without effect, \<open>pop\<close> removes the last byte and reports whether there was one,
  no operation panics, and \<open>as_str\<close> is exactly the bytes accumulated.
\<close>

theorem line_buffer_refines:
  assumes "line_inv l" and "printable b"
  shows "(\<exists>l'. LineBuffer_push b l = Inr (length (line_contents l) < LINE_CAPACITY, l') \<and> line_inv l' \<and>
            line_contents l' =
              (if length (line_contents l) < LINE_CAPACITY then line_contents l @ [b] else line_contents l)) \<and>
         (\<exists>l'. LineBuffer_pop l = Inr (line_contents l \<noteq> [], l') \<and> line_inv l' \<and>
            line_contents l' = butlast (line_contents l)) \<and>
         LineBuffer_as_str l = Inr (line_contents l) \<and>
         LineBuffer_as_str (LineBuffer_clear l) = Inr []"
  using line_push_refines [OF assms] line_pop_refines [OF assms(1)] line_as_str [OF assms(1)]
    line_clear_refines [OF assms(1)] line_as_str [of "LineBuffer_clear l"]
  by auto

theorem line_buffer_refines_witness:
  "line_inv LineBuffer_new \<and> printable (byte CHR ''a'') \<and>
   (\<exists>l'. LineBuffer_push (byte CHR ''a'') LineBuffer_new = Inr (True, l') \<and> line_contents l' = [byte CHR ''a''])"
proof -
  have p: "printable (byte CHR ''a'')" by (simp add: printable_def byte_def)
  show ?thesis
    using p line_new line_buffer_refines [OF line_new(1) p] by (auto simp: LINE_CAPACITY_def)
qed

text \<open>
  Typing any text of printable bytes on the empty line keeps exactly its first 128
  bytes, whatever its length.
\<close>

lemma line_keeps_first_128:
  assumes "\<forall>b \<in> set input. printable b"
  shows "\<exists>l. for_each input (\<lambda>b l. rbind (LineBuffer_push b l) (\<lambda>(_, l'). Inr l')) LineBuffer_new = Inr l \<and>
    LineBuffer_as_str l = Inr (take LINE_CAPACITY input)"
  using line_lifo.push_all_keeps_first [OF line_new(1) assms] line_as_str by (auto simp: line_new)

end
