(* ===== verification/Frame_Allocator.thy ===== *)
theory Frame_Allocator
  imports Rust_Prelude
begin

text \<open>
  The physical frame allocator of \<^verbatim>\<open>src/memory.rs\<close>, over the memory map that the
  bootloader delivers. The address types belong to the \<^verbatim>\<open>x86_64\<close> crate: their
  operations are the fields of \<open>phys_api\<close>, an argument of the definitions, and
  \<open>phys_api_ok\<close> states what the crate documents about them. The contract of the
  \<^verbatim>\<open>FrameAllocator\<close> trait is the locale \<open>frame_source\<close>.
\<close>

section \<open>The memory map and the frame types\<close>

text \<open>Only \<^verbatim>\<open>Usable\<close> is named by the kernel; the other types carry their name.\<close>

datatype MemoryRegionType = Usable | OtherType string

record MemoryRegion =
  start_frame_number :: u64
  end_frame_number :: u64
  region_type :: MemoryRegionType

record 'frame phys_api =
  PhysAddr_new :: "u64 \<Rightarrow> u64 res"
  containing_address :: "u64 \<Rightarrow> 'frame"
  frame_start :: "'frame \<Rightarrow> u64"

definition phys_api_ok :: "'frame phys_api \<Rightarrow> bool" where
  "phys_api_ok P \<longleftrightarrow>
     (\<forall>a < 2 ^ 52. PhysAddr_new P a = Inr a) \<and>
     (\<forall>a. frame_start P (containing_address P a) = a - a mod 4096)"

section \<open>The allocator\<close>

record BootInfoFrameAllocator =
  memory_map :: "MemoryRegion list"
  next_index :: usize

definition BootInfoFrameAllocator_init :: "MemoryRegion list \<Rightarrow> BootInfoFrameAllocator" where
  "BootInfoFrameAllocator_init mm = \<lparr>memory_map = mm, next_index = 0\<rparr>"

definition usable_regions :: "MemoryRegion list \<Rightarrow> MemoryRegion list" where
  "usable_regions mm = filter (\<lambda>r. region_type r = Usable) mm"

definition usable_frame_numbers :: "MemoryRegion list \<Rightarrow> u64 list" where
  "usable_frame_numbers mm =
     concat (map (\<lambda>r. [start_frame_number r..<end_frame_number r]) (usable_regions mm))"

text \<open>The closure of the last \<^verbatim>\<open>map\<close>: the frame of a frame number.\<close>

definition frame_of_number :: "'frame phys_api \<Rightarrow> u64 \<Rightarrow> 'frame res" where
  "frame_of_number P n =
     rbind (usize_mul n 4096) (\<lambda>a. rbind (PhysAddr_new P a) (\<lambda>p. Inr (containing_address P p)))"

text \<open>
  \<^verbatim>\<open>nth\<close> on the mapped iterator: the closure runs on every element it passes.
\<close>

fun iter_nth :: "('a \<Rightarrow> 'b res) \<Rightarrow> 'a list \<Rightarrow> usize \<Rightarrow> 'b option res" where
  "iter_nth f [] n = Inr None"
| "iter_nth f (x # xs) 0 = rbind (f x) (\<lambda>y. Inr (Some y))"
| "iter_nth f (x # xs) (Suc n) = rbind (f x) (\<lambda>_. iter_nth f xs n)"

definition usable_frames_nth :: "'frame phys_api \<Rightarrow> MemoryRegion list \<Rightarrow> usize \<Rightarrow> 'frame option res" where
  "usable_frames_nth P mm n = iter_nth (frame_of_number P) (usable_frame_numbers mm) n"

definition allocate_frame ::
  "'frame phys_api \<Rightarrow> BootInfoFrameAllocator \<Rightarrow> ('frame option \<times> BootInfoFrameAllocator) res" where
  "allocate_frame P fa =
     rbind (usable_frames_nth P (memory_map fa) (next_index fa)) (\<lambda>frame.
     rbind (usize_add (next_index fa) 1) (\<lambda>n.
     Inr (frame, fa\<lparr>next_index := n\<rparr>)))"

section \<open>The contract of a frame allocator\<close>

text \<open>
  \<open>frames s\<close> are the frames that are still to be delivered. The allocator gives them one
  by one, never twice, and answers \<^verbatim>\<open>None\<close> from then on. The counter of calls is a
  \<open>usize\<close>, so the contract holds while \<open>calls_left\<close> is positive.
\<close>

locale frame_source =
  fixes allocate :: "'s \<Rightarrow> ('frame option \<times> 's) res"
    and inv :: "'s \<Rightarrow> bool"
    and frames :: "'s \<Rightarrow> 'frame list"
    and calls_left :: "'s \<Rightarrow> nat"
  assumes allocate_spec: "inv s \<Longrightarrow> 0 < calls_left s \<Longrightarrow>
      \<exists>s'. allocate s = Inr (if frames s = [] then None else Some (hd (frames s)), s') \<and>
        inv s' \<and> frames s' = tl (frames s) \<and> calls_left s' = calls_left s - 1"
    and frames_distinct: "inv s \<Longrightarrow> distinct (frames s)"
begin

text \<open>A delivered frame is not delivered again.\<close>

lemma allocated_fresh:
  assumes "inv s" and "0 < calls_left s" and "allocate s = Inr (Some f, s')"
  shows "f \<in> set (frames s) \<and> f \<notin> set (frames s')"
proof -
  have "frames s \<noteq> []" "f = hd (frames s)" "frames s' = tl (frames s)"
    using allocate_spec [OF assms(1,2)] assms(3) by (auto split: if_splits)
  then show ?thesis using frames_distinct [OF assms(1)] by (cases "frames s") auto
qed

end

section \<open>Well-formed memory maps\<close>

text \<open>
  What the bootloader guarantees of the map: frame numbers are those of 52-bit physical
  addresses, and the usable regions do not overlap.
\<close>

fun regions_disjoint :: "MemoryRegion list \<Rightarrow> bool" where
  "regions_disjoint [] = True"
| "regions_disjoint (r # rs) =
     (list_all (\<lambda>r'. end_frame_number r \<le> start_frame_number r' \<or>
                     end_frame_number r' \<le> start_frame_number r) rs \<and> regions_disjoint rs)"

definition map_wf :: "MemoryRegion list \<Rightarrow> bool" where
  "map_wf mm \<longleftrightarrow>
     list_all (\<lambda>r. end_frame_number r \<le> 2 ^ 40) mm \<and> regions_disjoint (usable_regions mm)"

lemma usable_numbers_distinct:
  "regions_disjoint rs \<Longrightarrow>
     distinct (concat (map (\<lambda>r. [start_frame_number r..<end_frame_number r]) rs))"
proof (induction rs)
  case Nil
  show ?case by simp
next
  case (Cons r rs)
  then show ?case by (fastforce simp: list_all_iff)
qed

lemma usable_number_bound: "map_wf mm \<Longrightarrow> n \<in> set (usable_frame_numbers mm) \<Longrightarrow> n < 2 ^ 40"
  by (fastforce simp: map_wf_def usable_frame_numbers_def usable_regions_def list_all_iff)

lemma frame_of_number_ok:
  assumes "phys_api_ok P" and "n < 2 ^ 40"
  shows "frame_of_number P n = Inr (containing_address P (n * 4096)) \<and>
    frame_start P (containing_address P (n * 4096)) = n * 4096"
proof -
  have "n * 4096 < 2 ^ 52" "n * 4096 < 2 ^ 64" using assms(2) by simp_all
  then show ?thesis using assms(1) by (simp add: frame_of_number_def phys_api_ok_def rust_simps)
qed

lemma iter_nth_ok:
  "\<forall>x \<in> set xs. f x = Inr (g x) \<Longrightarrow>
     iter_nth f xs n = Inr (if n < length xs then Some (g (xs ! n)) else None)"
  by (induction f xs n rule: iter_nth.induct) auto

section \<open>The kernel's allocator keeps the contract\<close>

text \<open>The state of the interface: the address operations together with the allocator.\<close>

type_synonym 'frame boot_frames = "'frame phys_api \<times> BootInfoFrameAllocator"

definition boot_allocate :: "'frame boot_frames \<Rightarrow> ('frame option \<times> 'frame boot_frames) res" where
  "boot_allocate = (\<lambda>(P, fa). rbind (allocate_frame P fa) (\<lambda>(f, fa'). Inr (f, (P, fa'))))"

definition boot_inv :: "'frame boot_frames \<Rightarrow> bool" where
  "boot_inv = (\<lambda>(P, fa). phys_api_ok P \<and> map_wf (memory_map fa))"

definition frames_left :: "'frame boot_frames \<Rightarrow> 'frame list" where
  "frames_left = (\<lambda>(P, fa).
     map (\<lambda>n. containing_address P (n * 4096))
       (drop (next_index fa) (usable_frame_numbers (memory_map fa))))"

definition boot_calls_left :: "'frame boot_frames \<Rightarrow> nat" where
  "boot_calls_left = (\<lambda>(P, fa). 2 ^ 64 - 1 - next_index fa)"

lemma allocate_frame_eq:
  assumes "phys_api_ok P" and "map_wf (memory_map fa)" and "next_index fa < 2 ^ 64 - 1"
  shows "allocate_frame P fa =
    Inr (if next_index fa < length (usable_frame_numbers (memory_map fa))
         then Some (containing_address P (usable_frame_numbers (memory_map fa) ! next_index fa * 4096))
         else None,
         fa\<lparr>next_index := next_index fa + 1\<rparr>)"
proof -
  have "\<forall>n \<in> set (usable_frame_numbers (memory_map fa)).
      frame_of_number P n = Inr (containing_address P (n * 4096))"
    using assms(1,2) frame_of_number_ok usable_number_bound by blast
  from iter_nth_ok [OF this] show ?thesis
    using assms(3) by (simp add: allocate_frame_def usable_frames_nth_def rust_simps)
qed

lemma boot_frames_distinct:
  assumes "phys_api_ok P" and "map_wf mm"
  shows "distinct (map (\<lambda>n. containing_address P (n * 4096)) (usable_frame_numbers mm))"
proof -
  have "inj_on (\<lambda>n. containing_address P (n * 4096)) (set (usable_frame_numbers mm))"
  proof (rule inj_onI)
    fix m n
    assume "m \<in> set (usable_frame_numbers mm)" "n \<in> set (usable_frame_numbers mm)"
      and "containing_address P (m * 4096) = containing_address P (n * 4096)"
    then have "m * 4096 = n * 4096"
      using assms frame_of_number_ok usable_number_bound by metis
    then show "m = n" by simp
  qed
  then show ?thesis
    using assms(2) usable_numbers_distinct
    by (simp add: distinct_map map_wf_def usable_frame_numbers_def)
qed

interpretation boot_frames: frame_source boot_allocate boot_inv frames_left boot_calls_left
proof unfold_locales
  fix s :: "'a boot_frames"
  assume inv: "boot_inv s" and "0 < boot_calls_left s"
  then show "\<exists>s'. boot_allocate s = Inr (if frames_left s = [] then None else Some (hd (frames_left s)), s') \<and>
      boot_inv s' \<and> frames_left s' = tl (frames_left s) \<and> boot_calls_left s' = boot_calls_left s - 1"
    by (cases s)
      (auto simp: boot_inv_def boot_allocate_def frames_left_def boot_calls_left_def
        allocate_frame_eq hd_map hd_drop_conv_nth drop_Suc tl_drop map_tl [symmetric])
next
  fix s :: "'a boot_frames"
  assume "boot_inv s"
  then show "distinct (frames_left s)"
    using boot_frames_distinct [of "fst s" "memory_map (snd s)"]
    by (cases s) (simp add: boot_inv_def frames_left_def drop_map [symmetric])
qed

section \<open>Properties\<close>

text \<open>The frames that a number of successive calls deliver.\<close>

fun allocate_many ::
  "'frame phys_api \<Rightarrow> nat \<Rightarrow> BootInfoFrameAllocator \<Rightarrow> 'frame option list res" where
  "allocate_many P 0 fa = Inr []"
| "allocate_many P (Suc n) fa =
     rbind (allocate_frame P fa) (\<lambda>(f, fa'). rbind (allocate_many P n fa') (\<lambda>fs. Inr (f # fs)))"

lemma allocate_many_eq:
  assumes "phys_api_ok P" and "map_wf (memory_map fa)" and "next_index fa + n < 2 ^ 64"
  shows "allocate_many P n fa =
    Inr (map (\<lambda>i. if i < length (usable_frame_numbers (memory_map fa))
                   then Some (containing_address P (usable_frame_numbers (memory_map fa) ! i * 4096))
                   else None) [next_index fa..<next_index fa + n])"
  using assms
proof (induction n arbitrary: fa)
  case 0
  then show ?case by simp
next
  case (Suc n)
  then show ?case
    using Suc.IH [of "fa\<lparr>next_index := next_index fa + 1\<rparr>"]
    by (simp add: allocate_frame_eq upt_conv_Cons del: upt_Suc)
qed

text \<open>
  C14. A fresh allocator delivers, call by call, exactly the 4 KiB frames of the usable
  regions in the order of the map, and \<^verbatim>\<open>None\<close> from then on: frame number
  \<open>k\<close> of the usable frame numbers is at the physical address \<open>4096 k\<close>, hence
  aligned, and the frames delivered are pairwise different.
\<close>

theorem frames_delivered_once:
  assumes "phys_api_ok P" and "map_wf mm" and "n < 2 ^ 64"
  shows "\<exists>fs. allocate_many P n (BootInfoFrameAllocator_init mm) =
      Inr (map Some fs @ replicate (n - length (usable_frame_numbers mm)) None) \<and>
    map (frame_start P) fs = map (\<lambda>k. k * 4096) (take n (usable_frame_numbers mm)) \<and>
    distinct fs"
proof -
  let ?nums = "usable_frame_numbers mm"
  let ?fs = "map (\<lambda>k. containing_address P (k * 4096)) (take n ?nums)"
  have "map (\<lambda>i. if i < length ?nums then Some (containing_address P (?nums ! i * 4096)) else None) [0..<n] =
      map Some ?fs @ replicate (n - length ?nums) None"
    by (rule nth_equalityI) (auto simp: nth_append)
  then have "allocate_many P n (BootInfoFrameAllocator_init mm) =
      Inr (map Some ?fs @ replicate (n - length ?nums) None)"
    using assms by (simp add: allocate_many_eq BootInfoFrameAllocator_init_def cong: if_cong)
  moreover have "map (frame_start P) ?fs = map (\<lambda>k. k * 4096) (take n ?nums)"
    using assms(1) by (simp add: phys_api_ok_def)
  moreover have "distinct ?fs"
    using boot_frames_distinct [OF assms(1,2)] by (simp add: take_map [symmetric] distinct_take)
  ultimately show ?thesis by blast
qed

text \<open>Address operations over plain numbers, and the map of 32 frames of \<^verbatim>\<open>tests/frame_allocator.rs\<close>.\<close>

definition example_phys :: "u64 phys_api" where
  "example_phys =
     \<lparr>PhysAddr_new = (\<lambda>a. if a < 2 ^ 52 then Inr a else Inl AddressNotCanonical),
      containing_address = (\<lambda>a. a - a mod 4096), frame_start = (\<lambda>f. f)\<rparr>"

definition mapa_pequeno :: "MemoryRegion list" where
  "mapa_pequeno =
     [\<lparr>start_frame_number = 0x100, end_frame_number = 0x100 + 32, region_type = Usable\<rparr>]"

lemma example_phys_ok: "phys_api_ok example_phys"
  by (simp add: phys_api_ok_def example_phys_def)

theorem frames_delivered_once_witness:
  "phys_api_ok example_phys \<and> map_wf mapa_pequeno \<and>
   (\<exists>fs. allocate_many example_phys 34 (BootInfoFrameAllocator_init mapa_pequeno) =
      Inr (map Some fs @ [None, None]) \<and> length fs = 32 \<and> distinct fs)"
proof -
  have wf: "map_wf mapa_pequeno"
    by (simp add: map_wf_def mapa_pequeno_def usable_regions_def)
  have nums: "usable_frame_numbers mapa_pequeno = [0x100..<0x120]"
    by (simp add: usable_frame_numbers_def usable_regions_def mapa_pequeno_def)
  have lt: "(34::nat) < 2 ^ 64" by simp
  obtain fs where fs: "allocate_many example_phys 34 (BootInfoFrameAllocator_init mapa_pequeno) =
      Inr (map Some fs @ replicate (34 - length [0x100..<0x120::nat]) None)"
    "map (frame_start example_phys) fs = map (\<lambda>k. k * 4096) (take 34 [0x100..<0x120])" "distinct fs"
    using frames_delivered_once [OF example_phys_ok wf lt] unfolding nums by blast
  have "length fs = 32" using arg_cong [OF fs(2), of length] by simp
  moreover have "replicate (34 - length [0x100..<0x120::nat]) None = [None, None :: nat option]"
    by (simp add: numeral_eq_Suc)
  ultimately show ?thesis using wf fs(1,3) example_phys_ok by metis
qed

end
