(* ===== verification/Kernel_Heap.thy ===== *)
theory Kernel_Heap
  imports Frame_Allocator
begin

text \<open>
  The kernel heap of \<^verbatim>\<open>src/allocator.rs\<close>: its fixed range of virtual addresses and
  \<open>init_heap\<close>, which maps every page of the range to a frame of its own before the
  global allocator is told about the region. The virtual address and page types, the
  page-table mapper and the heap allocator belong to the \<^verbatim>\<open>x86_64\<close> and
  \<^verbatim>\<open>linked_list_allocator\<close> crates: they are the records \<open>virt_api\<close> and
  \<open>mapper_api\<close> and the argument \<open>heap_init\<close>, and the predicates \<open>virt_api_ok\<close> and
  \<open>mapper_ok\<close> state what the crates document.
\<close>

section \<open>Addresses, pages and the mapper\<close>

record 'page virt_api =
  VirtAddr_new :: "u64 \<Rightarrow> u64 res"
  VirtAddr_add :: "u64 \<Rightarrow> u64 \<Rightarrow> u64 res"
  Page_containing_address :: "u64 \<Rightarrow> 'page"
  Page_range_inclusive :: "'page \<Rightarrow> 'page \<Rightarrow> 'page list"
  page_start :: "'page \<Rightarrow> u64"

text \<open>
  Addresses of the lower canonical half are accepted and added without panic; a page is
  the 4 KiB block that contains an address and is determined by its start; a closed range
  lists its pages in ascending order.
\<close>

definition virt_api_ok :: "'page virt_api \<Rightarrow> bool" where
  "virt_api_ok V \<longleftrightarrow>
     (\<forall>a < 2 ^ 47. VirtAddr_new V a = Inr a) \<and>
     (\<forall>a b. a + b < 2 ^ 47 \<longrightarrow> VirtAddr_add V a b = Inr (a + b)) \<and>
     (\<forall>a. page_start V (Page_containing_address V a) = a - a mod 4096) \<and>
     inj (page_start V) \<and>
     (\<forall>p q. page_start V p \<le> page_start V q \<longrightarrow>
        map (page_start V) (Page_range_inclusive V p q) =
        map (\<lambda>i. page_start V p + 4096 * i) [0..<Suc ((page_start V q - page_start V p) div 4096)])"

datatype PageTableFlag = PRESENT | WRITABLE | USER_ACCESSIBLE | OtherFlag nat

datatype 'frame MapToError = FrameAllocationFailed | ParentEntryHugePage | PageAlreadyMapped 'frame

record ('pt, 'page, 'frame, 'fa) mapper_api =
  map_to :: "'page \<Rightarrow> 'frame \<Rightarrow> PageTableFlag set \<Rightarrow> 'fa \<Rightarrow> 'pt \<Rightarrow>
               (('frame MapToError + unit) \<times> 'fa \<times> 'pt) res"
  flush :: "'page \<Rightarrow> 'pt \<Rightarrow> 'pt"
  leaf :: "'pt \<Rightarrow> 'page \<Rightarrow> ('frame \<times> PageTableFlag set) option"
  in_huge_page :: "'pt \<Rightarrow> 'page \<Rightarrow> u64 option"
  table_frames :: "'pt \<Rightarrow> 'frame set"

text \<open>
  \<open>leaf\<close> is what the tables say of a page, \<open>in_huge_page\<close> the physical address a huge page
  gives it, if one covers it, and \<open>table_frames\<close> are the frames in which the tables are.
  \<open>map_to\<close> requires that the frames it is given, and may take for tables, are not in use as
  tables. Then it takes at most three of them for tables of its own; on success the page,
  unmapped before, has exactly the given frame and flags and no other page changes; on an
  error no page changes, and the error says why: the allocator had no frame for a table,
  a huge page covers the page, or the page is mapped already. No operation makes or splits
  a huge page, and flushing changes no mapping.
\<close>

definition map_error_reason ::
  "('pt, 'page, 'frame, 'fa) mapper_api \<Rightarrow> nat \<Rightarrow> 'pt \<Rightarrow> 'page \<Rightarrow> 'frame MapToError \<Rightarrow> bool" where
  "map_error_reason M available pt page e =
     (case e of
        FrameAllocationFailed \<Rightarrow> available < 3
      | ParentEntryHugePage \<Rightarrow> in_huge_page M pt page \<noteq> None
      | PageAlreadyMapped _ \<Rightarrow> leaf M pt page \<noteq> None)"

definition mapper_ok ::
  "('fa \<Rightarrow> bool) \<Rightarrow> ('fa \<Rightarrow> 'frame list) \<Rightarrow> ('fa \<Rightarrow> nat) \<Rightarrow> ('pt, 'page, 'frame, 'fa) mapper_api \<Rightarrow> bool"
where
  "mapper_ok ok frames calls M \<longleftrightarrow>
     (\<forall>page pt. leaf M (flush M page pt) = leaf M pt \<and> in_huge_page M (flush M page pt) = in_huge_page M pt \<and>
        table_frames M (flush M page pt) = table_frames M pt) \<and>
     (\<forall>page frame flags fa pt. ok fa \<longrightarrow> 3 \<le> calls fa \<longrightarrow>
        set (frames fa) \<inter> table_frames M pt = {} \<longrightarrow> frame \<notin> table_frames M pt \<longrightarrow> frame \<notin> set (frames fa) \<longrightarrow>
        (\<exists>r fa' pt' k. map_to M page frame flags fa pt = Inr (r, fa', pt') \<and>
           k \<le> 3 \<and> ok fa' \<and> frames fa' = drop k (frames fa) \<and> calls fa' = calls fa - k \<and>
           in_huge_page M pt' = in_huge_page M pt \<and>
           table_frames M pt' \<subseteq> table_frames M pt \<union> set (take k (frames fa)) \<and>
           (case r of
              Inr _ \<Rightarrow> leaf M pt page = None \<and> leaf M pt' = (leaf M pt)(page \<mapsto> (frame, flags))
            | Inl e \<Rightarrow> leaf M pt' = leaf M pt \<and> map_error_reason M (length (frames fa)) pt page e)))"

definition page_free :: "('pt, 'page, 'frame, 'fa) mapper_api \<Rightarrow> 'pt \<Rightarrow> 'page \<Rightarrow> bool" where
  "page_free M pt page \<longleftrightarrow> leaf M pt page = None \<and> in_huge_page M pt page = None"

lemma map_error_cause: "map_error_reason M n pt page e \<Longrightarrow> n < 3 \<or> \<not> page_free M pt page"
  by (auto simp: map_error_reason_def page_free_def split: MapToError.splits)

section \<open>The heap\<close>

definition HEAP_START :: usize where
  "HEAP_START = 0x444444440000"

definition HEAP_SIZE :: usize where
  "HEAP_SIZE = 100 * 1024"

definition heap_page_range :: "'page virt_api \<Rightarrow> 'page list res" where
  "heap_page_range V =
     rbind (VirtAddr_new V HEAP_START) (\<lambda>heap_start.
     rbind (usize_sub HEAP_SIZE 1) (\<lambda>last_byte.
     rbind (VirtAddr_add V heap_start last_byte) (\<lambda>heap_end.
     Inr (Page_range_inclusive V (Page_containing_address V heap_start)
            (Page_containing_address V heap_end)))))"

text \<open>
  The body of the loop, which returns early with an error when there is no frame or the
  mapper reports one, and the loop, which \<^verbatim>\<open>?\<close> leaves at the first error.
\<close>

definition map_one ::
  "('fa \<Rightarrow> ('frame option \<times> 'fa) res) \<Rightarrow> ('pt, 'page, 'frame, 'fa) mapper_api \<Rightarrow> 'page \<Rightarrow>
     'fa \<Rightarrow> 'pt \<Rightarrow> (('frame MapToError + unit) \<times> 'fa \<times> 'pt) res"
where
  "map_one allocate M page fa pt =
     rbind (allocate fa) (\<lambda>(f, fa).
       case f of
         None \<Rightarrow> Inr (Inl FrameAllocationFailed, fa, pt)
       | Some frame \<Rightarrow>
           rbind (map_to M page frame {PRESENT, WRITABLE} fa pt) (\<lambda>(r, fa, pt).
             case r of
               Inl e \<Rightarrow> Inr (Inl e, fa, pt)
             | Inr _ \<Rightarrow> Inr (Inr (), fa, flush M page pt)))"

fun map_pages ::
  "('fa \<Rightarrow> ('frame option \<times> 'fa) res) \<Rightarrow> ('pt, 'page, 'frame, 'fa) mapper_api \<Rightarrow> 'page list \<Rightarrow>
     'fa \<Rightarrow> 'pt \<Rightarrow> (('frame MapToError + unit) \<times> 'fa \<times> 'pt) res"
where
  "map_pages allocate M [] fa pt = Inr (Inr (), fa, pt)"
| "map_pages allocate M (page # pages) fa pt =
     rbind (map_one allocate M page fa pt) (\<lambda>(r, fa, pt).
       case r of
         Inl e \<Rightarrow> Inr (Inl e, fa, pt)
       | Inr _ \<Rightarrow> map_pages allocate M pages fa pt)"

definition init_heap ::
  "'page virt_api \<Rightarrow> ('fa \<Rightarrow> ('frame option \<times> 'fa) res) \<Rightarrow> ('pt, 'page, 'frame, 'fa) mapper_api \<Rightarrow>
     (usize \<Rightarrow> usize \<Rightarrow> 'h \<Rightarrow> 'h) \<Rightarrow> 'fa \<Rightarrow> 'pt \<Rightarrow> 'h \<Rightarrow>
     (('frame MapToError + unit) \<times> 'fa \<times> 'pt \<times> 'h) res"
where
  "init_heap V allocate M heap_init fa pt h =
     rbind (heap_page_range V) (\<lambda>pages.
     rbind (map_pages allocate M pages fa pt) (\<lambda>(r, fa, pt).
       case r of
         Inl e \<Rightarrow> Inr (Inl e, fa, pt, h)
       | Inr _ \<Rightarrow> Inr (Inr (), fa, pt, heap_init HEAP_START HEAP_SIZE h)))"

section \<open>The pages of the heap\<close>

lemma heap_page_range_ok:
  assumes "virt_api_ok V"
  obtains pages where "heap_page_range V = Inr pages"
    "map (page_start V) pages = map (\<lambda>i. HEAP_START + 4096 * i) [0..<25]"
proof -
  let ?p = "Page_containing_address V HEAP_START"
  let ?q = "Page_containing_address V (HEAP_START + (HEAP_SIZE - 1))"
  have "VirtAddr_new V HEAP_START = Inr HEAP_START"
    "VirtAddr_add V HEAP_START (HEAP_SIZE - 1) = Inr (HEAP_START + (HEAP_SIZE - 1))"
    using assms by (simp_all add: virt_api_ok_def HEAP_START_def HEAP_SIZE_def)
  then have "heap_page_range V = Inr (Page_range_inclusive V ?p ?q)"
    by (simp add: heap_page_range_def usize_sub_def HEAP_SIZE_def)
  moreover have start: "page_start V ?p = HEAP_START" "page_start V ?q = HEAP_START + 24 * 4096"
    using assms by (simp_all add: virt_api_ok_def HEAP_START_def HEAP_SIZE_def)
  moreover have "map (page_start V) (Page_range_inclusive V ?p ?q) =
      map (\<lambda>i. page_start V ?p + 4096 * i) [0..<Suc ((page_start V ?q - page_start V ?p) div 4096)]"
    using assms start by (simp add: virt_api_ok_def)
  ultimately show thesis using that by simp
qed

section \<open>The mapping loop, for any allocator that keeps its contract\<close>

abbreviation (input) with_flags :: "'frame list \<Rightarrow> ('frame \<times> PageTableFlag set) list" where
  "with_flags fs \<equiv> map (\<lambda>f. (f, {PRESENT, WRITABLE})) fs"

context frame_source
begin

text \<open>
  One page: an error changes no mapping and has a cause; success maps the page, unmapped
  before, to a new frame.
\<close>

lemma map_one_spec:
  assumes "mapper_ok inv frames calls_left M" and "inv fa" and "4 \<le> calls_left fa"
    and "set (frames fa) \<inter> table_frames M pt = {}"
  shows "\<exists>r fa' pt'. map_one allocate M page fa pt = Inr (r, fa', pt') \<and>
    inv fa' \<and> calls_left fa - 4 \<le> calls_left fa' \<and> set (frames fa') \<subseteq> set (frames fa) \<and>
    length (frames fa) - 4 \<le> length (frames fa') \<and> in_huge_page M pt' = in_huge_page M pt \<and>
    set (frames fa') \<inter> table_frames M pt' = {} \<and> table_frames M pt' \<subseteq> table_frames M pt \<union> set (frames fa) \<and>
    (case r of
       Inl e \<Rightarrow> leaf M pt' = leaf M pt \<and> map_error_reason M (length (frames fa) - 1) pt page e
     | Inr _ \<Rightarrow> frames fa \<noteq> [] \<and> hd (frames fa) \<notin> set (frames fa') \<and>
         leaf M pt page = None \<and> leaf M pt' = (leaf M pt)(page \<mapsto> (hd (frames fa), {PRESENT, WRITABLE})))"
proof -
  obtain fa1 where fa1: "allocate fa = Inr (if frames fa = [] then None else Some (hd (frames fa)), fa1)"
    "inv fa1" "frames fa1 = tl (frames fa)" "calls_left fa1 = calls_left fa - 1"
    using allocate_spec [OF assms(2)] assms(3) by fastforce
  show ?thesis
  proof (cases "frames fa")
    case Nil
    then show ?thesis using fa1 assms(4) by (simp add: map_one_def map_error_reason_def)
  next
    case (Cons f rest)
    have fresh: "distinct rest" "f \<notin> set rest" using frames_distinct [OF assms(2)] Cons by simp_all
    have pre: "3 \<le> calls_left fa1" "set (frames fa1) \<inter> table_frames M pt = {}" "f \<notin> table_frames M pt"
      "f \<notin> set (frames fa1)"
      using assms(3,4) fa1(3,4) Cons fresh(2) by auto
    obtain r fa2 pt2 k where m: "map_to M page f {PRESENT, WRITABLE} fa1 pt = Inr (r, fa2, pt2)"
      and k: "k \<le> 3" "inv fa2" "frames fa2 = drop k rest" "calls_left fa2 = calls_left fa1 - k"
        "in_huge_page M pt2 = in_huge_page M pt" "table_frames M pt2 \<subseteq> table_frames M pt \<union> set (take k rest)"
      and leaf: "case r of Inr _ \<Rightarrow> leaf M pt page = None \<and> leaf M pt2 = (leaf M pt)(page \<mapsto> (f, {PRESENT, WRITABLE}))
                 | Inl e \<Rightarrow> leaf M pt2 = leaf M pt \<and> map_error_reason M (length rest) pt page e"
      using assms(1) fa1(2,3) pre Cons unfolding mapper_ok_def by (metis list.sel(3))
    have "set (frames fa2) \<subseteq> set rest" using k(3) by (auto dest: in_set_dropD)
    moreover have "set (take k rest) \<inter> set (drop k rest) = {}" using fresh(1) by (rule set_take_disj_set_drop_if_distinct) simp
    then have "set (frames fa2) \<inter> table_frames M pt2 = {}"
      using k(3,6) pre(2) calculation fa1(3) Cons by fastforce
    moreover have "table_frames M pt2 \<subseteq> table_frames M pt \<union> set (frames fa)"
      using k(6) Cons by (auto dest: in_set_takeD)
    moreover have "leaf M (flush M page pt2) = leaf M pt2" "in_huge_page M (flush M page pt2) = in_huge_page M pt2"
      "table_frames M (flush M page pt2) = table_frames M pt2"
      using assms(1) by (simp_all add: mapper_ok_def)
    ultimately show ?thesis
      using fa1 m k leaf Cons fresh(2) by (cases r) (auto simp: map_one_def)
  qed
qed

lemma map_pages_spec:
  assumes "mapper_ok inv frames calls_left M" and "inv fa" and "4 * length pages \<le> calls_left fa"
    and "distinct pages" and "set (frames fa) \<inter> table_frames M pt = {}"
  shows "\<exists>r fa' pt' fs. map_pages allocate M pages fa pt = Inr (r, fa', pt') \<and>
    inv fa' \<and> set (frames fa') \<subseteq> set (frames fa) \<and> table_frames M pt' \<subseteq> table_frames M pt \<union> set (frames fa) \<and>
    in_huge_page M pt' = in_huge_page M pt \<and> (fs \<noteq> [] \<longrightarrow> hd fs = hd (frames fa)) \<and>
    distinct fs \<and> set fs \<subseteq> set (frames fa) - set (frames fa') \<and>
    length fs \<le> length pages \<and> (r = Inr () \<longleftrightarrow> length fs = length pages) \<and>
    leaf M pt' = leaf M pt ++ map_of (zip pages (with_flags fs)) \<and>
    (r = Inr () \<or> length (frames fa) < 4 * length pages \<or> (\<exists>p \<in> set pages. \<not> page_free M pt p))"
  using assms(2-)
proof (induction pages arbitrary: fa pt)
  case Nil
  then show ?case by simp
next
  case (Cons page pages)
  obtain r1 fa1 pt1 where one: "map_one allocate M page fa pt = Inr (r1, fa1, pt1)"
    "inv fa1" "calls_left fa - 4 \<le> calls_left fa1" "set (frames fa1) \<subseteq> set (frames fa)"
    "length (frames fa) - 4 \<le> length (frames fa1)" "in_huge_page M pt1 = in_huge_page M pt"
    "set (frames fa1) \<inter> table_frames M pt1 = {}" "table_frames M pt1 \<subseteq> table_frames M pt \<union> set (frames fa)"
    and r1: "case r1 of Inl e \<Rightarrow> leaf M pt1 = leaf M pt \<and> map_error_reason M (length (frames fa) - 1) pt page e
     | Inr _ \<Rightarrow> frames fa \<noteq> [] \<and> hd (frames fa) \<notin> set (frames fa1) \<and>
         leaf M pt page = None \<and> leaf M pt1 = (leaf M pt)(page \<mapsto> (hd (frames fa), {PRESENT, WRITABLE}))"
    using map_one_spec [OF assms(1) Cons.prems(1) _ Cons.prems(4), of page] Cons.prems(2) by auto
  show ?case
  proof (cases r1)
    case (Inl e)
    then have "length (frames fa) < 4 \<or> \<not> page_free M pt page" using r1 map_error_cause [of M _ pt page e] by fastforce
    then show ?thesis using Inl one r1 by (intro exI [of _ "Inl e"] exI [of _ fa1] exI [of _ pt1] exI [of _ "[]"]) auto
  next
    case (Inr u)
    define f where "f = hd (frames fa)"
    have f: "f \<in> set (frames fa)" "f \<notin> set (frames fa1)"
      "leaf M pt1 = (leaf M pt)(page \<mapsto> (f, {PRESENT, WRITABLE}))" using r1 Inr by (simp_all add: f_def)
    have "4 * length pages \<le> calls_left fa1" "distinct pages" using Cons.prems(2,3) one(3) by simp_all
    from Cons.IH [OF one(2) this one(7)]
    obtain r' fa' pt' fs where IH: "map_pages allocate M pages fa1 pt1 = Inr (r', fa', pt')"
      "inv fa'" "set (frames fa') \<subseteq> set (frames fa1)" "distinct fs"
      "set fs \<subseteq> set (frames fa1) - set (frames fa')"
      "length fs \<le> length pages" "r' = Inr () \<longleftrightarrow> length fs = length pages"
      "leaf M pt' = leaf M pt1 ++ map_of (zip pages (with_flags fs))"
      "r' = Inr () \<or> length (frames fa1) < 4 * length pages \<or> (\<exists>p \<in> set pages. \<not> page_free M pt1 p)"
      "in_huge_page M pt' = in_huge_page M pt1" "table_frames M pt' \<subseteq> table_frames M pt1 \<union> set (frames fa1)"
      by blast
    have "page \<notin> dom (map_of (zip pages (with_flags fs)))"
      using Cons.prems(3) by (auto simp: dom_map_of_conv_image_fst dest: set_zip_leftD)
    then have "leaf M pt' = leaf M pt ++ map_of (zip (page # pages) (with_flags (f # fs)))"
      using IH(8) f(3) by (simp add: map_add_upd_left)
    moreover have "map_pages allocate M (page # pages) fa pt = Inr (r', fa', pt')"
      using one(1) Inr IH(1) by simp
    moreover have "distinct (f # fs)" "set (f # fs) \<subseteq> set (frames fa) - set (frames fa')"
      "set (frames fa') \<subseteq> set (frames fa)"
      using IH(3-5) one(4) f(1,2) by auto
    moreover have "length (f # fs) \<le> length (page # pages)"
      "r' = Inr () \<longleftrightarrow> length (f # fs) = length (page # pages)"
      using IH(6,7) by simp_all
    moreover have "page_free M pt1 p = page_free M pt p" if "p \<in> set pages" for p
      using that Cons.prems(3) f(3) one(6) by (auto simp: page_free_def)
    then have "r' = Inr () \<or> length (frames fa) < 4 * length (page # pages) \<or>
        (\<exists>p \<in> set (page # pages). \<not> page_free M pt p)"
      using IH(9) one(5) by auto
    moreover have "table_frames M pt' \<subseteq> table_frames M pt \<union> set (frames fa)" using IH(11) one(4,8) by blast
    moreover have "in_huge_page M pt' = in_huge_page M pt" "hd (f # fs) = hd (frames fa)" using IH(10) one(6) by (simp_all add: f_def)
    ultimately show ?thesis using IH(2) by blast
  qed
qed

end

section \<open>Properties\<close>

lemma heap_pages_distinct:
  assumes "map (page_start V) pages = map (\<lambda>i. HEAP_START + 4096 * i) [0..<25]"
  shows "distinct pages"
proof -
  have "distinct (map (page_start V) pages)" unfolding assms by (simp add: distinct_map inj_on_def)
  then show ?thesis by (simp add: distinct_map)
qed

lemma heap_address_page:
  assumes V: "virt_api_ok V" and starts: "map (page_start V) pages = map (\<lambda>i. HEAP_START + 4096 * i) [0..<25]"
  shows "Page_containing_address V a \<in> set pages \<longleftrightarrow> HEAP_START \<le> a \<and> a < HEAP_START + HEAP_SIZE"
proof -
  let ?p = "Page_containing_address V a"
  have "?p \<in> set pages \<longleftrightarrow> page_start V ?p \<in> page_start V ` set pages"
    using V inj_image_mem_iff [of "page_start V"] unfolding virt_api_ok_def by blast
  also have "page_start V ` set pages = (\<lambda>i. HEAP_START + 4096 * i) ` {0..<25}"
    using arg_cong [OF starts, of set] by simp
  also have "page_start V ?p = 4096 * (a div 4096)"
    using V by (simp add: virt_api_ok_def minus_mod_eq_mult_div)
  also have "4096 * (a div 4096) \<in> (\<lambda>i. HEAP_START + 4096 * i) ` {0..<25} \<longleftrightarrow>
      HEAP_START div 4096 \<le> a div 4096 \<and> a div 4096 < HEAP_START div 4096 + 25"
  proof
    assume "HEAP_START div 4096 \<le> a div 4096 \<and> a div 4096 < HEAP_START div 4096 + 25"
    then have "a div 4096 - HEAP_START div 4096 \<in> {0..<25}"
      "4096 * (a div 4096) = HEAP_START + 4096 * (a div 4096 - HEAP_START div 4096)"
      by (auto simp: HEAP_START_def)
    then show "4096 * (a div 4096) \<in> (\<lambda>i. HEAP_START + 4096 * i) ` {0..<25}" by (rule rev_image_eqI)
  qed (auto simp: HEAP_START_def)
  also have "\<dots> \<longleftrightarrow> HEAP_START \<le> a \<and> a < HEAP_START + HEAP_SIZE"
    by (simp add: HEAP_START_def HEAP_SIZE_def) linarith
  finally show ?thesis .
qed

lemma heap_address_index:
  assumes V: "virt_api_ok V" and starts: "map (page_start V) pages = map (\<lambda>i. HEAP_START + 4096 * i) [0..<25]"
    and a: "HEAP_START \<le> a" "a < HEAP_START + HEAP_SIZE"
  shows "(a - HEAP_START) div 4096 < length pages \<and>
    pages ! ((a - HEAP_START) div 4096) = Page_containing_address V a"
proof -
  let ?i = "(a - HEAP_START) div 4096"
  have len: "length pages = 25" using arg_cong [OF starts, of length] by simp
  have i: "?i < 25" using a by (simp add: HEAP_START_def HEAP_SIZE_def)
  have "page_start V (pages ! ?i) = HEAP_START + 4096 * ?i"
    using arg_cong [OF starts, of "\<lambda>xs. xs ! ?i"] i len by simp
  also have "\<dots> = a - a mod 4096"
  proof -
    obtain d where d: "a = HEAP_START + d" using le_Suc_ex [OF a(1)] by blast
    have "a mod 4096 = d mod 4096"
      using mod_mult_self2 [of d 4096 "HEAP_START div 4096"] d by (simp add: HEAP_START_def add.commute)
    moreover have "4096 * (d div 4096) + d mod 4096 = d" by simp
    moreover have "a - HEAP_START = d" using d by simp
    ultimately show ?thesis using d by (simp only:)
  qed
  also have "\<dots> = page_start V (Page_containing_address V a)" using V by (simp add: virt_api_ok_def)
  finally have "pages ! ?i = Page_containing_address V a"
    using V injD [of "page_start V"] unfolding virt_api_ok_def by blast
  with i len show ?thesis by simp
qed

lemma heap_page_address:
  assumes V: "virt_api_ok V" and starts: "map (page_start V) pages = map (\<lambda>i. HEAP_START + 4096 * i) [0..<25]"
    and p: "p \<in> set pages"
  shows "\<exists>a. HEAP_START \<le> a \<and> a < HEAP_START + HEAP_SIZE \<and> Page_containing_address V a = p"
proof -
  have len: "length pages = 25" using arg_cong [OF starts, of length] by simp
  then obtain i where i: "i < 25" "p = pages ! i" using p by (auto simp: in_set_conv_nth)
  have "HEAP_START \<le> HEAP_START + 4096 * i" "HEAP_START + 4096 * i < HEAP_START + HEAP_SIZE"
    using i(1) by (simp_all add: HEAP_SIZE_def)
  from heap_address_index [OF V starts this] i(2) this show ?thesis by (intro exI [of _ "HEAP_START + 4096 * i"]) simp
qed

lemma init_heap_spec:
  assumes "virt_api_ok V" and "mapper_ok boot_inv frames_left boot_calls_left M"
    and "boot_inv fa" and "100 \<le> boot_calls_left fa" and "set (frames_left fa) \<inter> table_frames M pt = {}"
  shows "\<exists>r fa' pt' h'. init_heap V boot_allocate M heap_init fa pt h = Inr (r, fa', pt', h') \<and>
    table_frames M pt' \<subseteq> table_frames M pt \<union> set (frames_left fa) \<and>
    (case r of
       Inl e \<Rightarrow> h' = h \<and> (length (frames_left fa) < 100 \<or>
         (\<exists>a. HEAP_START \<le> a \<and> a < HEAP_START + HEAP_SIZE \<and> \<not> page_free M pt (Page_containing_address V a)))
     | Inr _ \<Rightarrow>
         h' = heap_init HEAP_START HEAP_SIZE h \<and>
         in_huge_page M pt' = in_huge_page M pt \<and>
         (\<exists>fs. length fs = 25 \<and> distinct fs \<and> set fs \<subseteq> set (frames_left fa) - set (frames_left fa') \<and>
            hd fs = hd (frames_left fa) \<and>
            (\<forall>a. leaf M pt' (Page_containing_address V a) =
               (if HEAP_START \<le> a \<and> a < HEAP_START + HEAP_SIZE
                then Some (fs ! ((a - HEAP_START) div 4096), {PRESENT, WRITABLE})
                else leaf M pt (Page_containing_address V a)))))"
proof -
  obtain pages where pages: "heap_page_range V = Inr pages"
    and starts: "map (page_start V) pages = map (\<lambda>i. HEAP_START + 4096 * i) [0..<25]"
    using heap_page_range_ok [OF assms(1)] .
  have len: "length pages = 25" using arg_cong [OF starts, of length] by simp
  note dist = heap_pages_distinct [OF starts]
  have "4 * length pages \<le> boot_calls_left fa" using assms(4) len by simp
  from boot_frames.map_pages_spec [OF assms(2,3) this dist assms(5)]
  obtain r fa' pt' fs where mp: "map_pages boot_allocate M pages fa pt = Inr (r, fa', pt')"
    and fs: "distinct fs" "set fs \<subseteq> set (frames_left fa) - set (frames_left fa')"
      "r = Inr () \<longleftrightarrow> length fs = length pages"
      "leaf M pt' = leaf M pt ++ map_of (zip pages (with_flags fs))"
      "r = Inr () \<or> length (frames_left fa) < 4 * length pages \<or> (\<exists>p \<in> set pages. \<not> page_free M pt p)"
      "in_huge_page M pt' = in_huge_page M pt" "fs \<noteq> [] \<longrightarrow> hd fs = hd (frames_left fa)"
      "table_frames M pt' \<subseteq> table_frames M pt \<union> set (frames_left fa)"
    by blast
  have "\<exists>a. HEAP_START \<le> a \<and> a < HEAP_START + HEAP_SIZE \<and> \<not> page_free M pt (Page_containing_address V a)"
    if "p \<in> set pages" "\<not> page_free M pt p" for p
    using heap_page_address [OF assms(1) starts that(1)] that(2) by blast
  then have cause: "r \<noteq> Inr () \<Longrightarrow> length (frames_left fa) < 100 \<or>
      (\<exists>a. HEAP_START \<le> a \<and> a < HEAP_START + HEAP_SIZE \<and> \<not> page_free M pt (Page_containing_address V a))"
    using fs(5) len by auto
  have "leaf M pt' (Page_containing_address V a) =
      (if HEAP_START \<le> a \<and> a < HEAP_START + HEAP_SIZE
       then Some (fs ! ((a - HEAP_START) div 4096), {PRESENT, WRITABLE})
       else leaf M pt (Page_containing_address V a))" if "length fs = 25" for a
  proof (cases "HEAP_START \<le> a \<and> a < HEAP_START + HEAP_SIZE")
    case True
    note idx = heap_address_index [OF assms(1) starts, of a]
    then have "map_of (zip pages (with_flags fs)) (Page_containing_address V a) =
        Some (with_flags fs ! ((a - HEAP_START) div 4096))"
      using True map_of_zip_nth [of pages "with_flags fs" "(a - HEAP_START) div 4096"] len dist that
      by simp
    then show ?thesis using True idx fs(4) len that by (simp add: map_add_def)
  next
    case False
    then have "Page_containing_address V a \<notin> set pages"
      using heap_address_page [OF assms(1) starts] by blast
    then have "map_of (zip pages (with_flags fs)) (Page_containing_address V a) = None"
      by (auto simp: map_of_eq_None_iff dest: set_zip_leftD)
    then show ?thesis using False fs(4) by (auto simp: map_add_def)
  qed
  then show ?thesis
    using pages mp fs(1-3,6-8) len cause by (cases r) (auto simp: init_heap_def)
qed

text \<open>
  C12. \<open>init_heap\<close> never panics, given frames that do not hold page tables. When it
  succeeds, every address of the 100 KiB heap range is mapped, its page to a frame of its
  own among the usable frames not yet delivered, the first page to the first of them, with
  the flags \<open>PRESENT\<close> and \<open>WRITABLE\<close> only; every other page, huge ones included, keeps its
  mapping; and the global allocator is initialised with exactly that range. New page
  tables are only built in frames of the allocator. When it
  fails, the global allocator is not touched, and there is a reason: fewer than 100 frames
  were left (one for each of the 25 pages and at most three for its tables), or a page of
  the range was mapped already. So on free pages and with 100 frames it does succeed.
\<close>

theorem init_heap_maps_range:
  assumes "virt_api_ok V" and "mapper_ok boot_inv frames_left boot_calls_left M"
    and "boot_inv fa" and "100 \<le> boot_calls_left fa" and "set (frames_left fa) \<inter> table_frames M pt = {}"
  shows "\<exists>r fa' pt' h'. init_heap V boot_allocate M heap_init fa pt h = Inr (r, fa', pt', h') \<and>
    table_frames M pt' \<subseteq> table_frames M pt \<union> set (frames_left fa) \<and>
    (case r of
       Inl e \<Rightarrow> h' = h \<and> (length (frames_left fa) < 100 \<or>
         (\<exists>a. HEAP_START \<le> a \<and> a < HEAP_START + HEAP_SIZE \<and> \<not> page_free M pt (Page_containing_address V a)))
     | Inr _ \<Rightarrow>
         h' = heap_init HEAP_START HEAP_SIZE h \<and>
         in_huge_page M pt' = in_huge_page M pt \<and>
         (\<exists>fs. length fs = 25 \<and> distinct fs \<and> set fs \<subseteq> set (frames_left fa) - set (frames_left fa') \<and>
            hd fs = hd (frames_left fa) \<and>
            (\<forall>a. leaf M pt' (Page_containing_address V a) =
               (if HEAP_START \<le> a \<and> a < HEAP_START + HEAP_SIZE
                then Some (fs ! ((a - HEAP_START) div 4096), {PRESENT, WRITABLE})
                else leaf M pt (Page_containing_address V a)))))"
  using assms by (rule init_heap_spec)

text \<open>Concrete crates: pages and frames are their start addresses, the tables are a map.\<close>

definition example_virt :: "u64 virt_api" where
  "example_virt =
     \<lparr>VirtAddr_new = (\<lambda>a. if a < 2 ^ 47 then Inr a else Inl AddressNotCanonical),
      VirtAddr_add = (\<lambda>a b. if a + b < 2 ^ 47 then Inr (a + b) else Inl ArithmeticOverflow),
      Page_containing_address = (\<lambda>a. a - a mod 4096),
      Page_range_inclusive = (\<lambda>p q. map (\<lambda>i. p + 4096 * i) [0..<Suc ((q - p) div 4096)]),
      page_start = (\<lambda>p. p)\<rparr>"

definition example_mapper :: "(u64 \<rightharpoonup> u64 \<times> PageTableFlag set, u64, u64, 'fa) mapper_api" where
  "example_mapper =
     \<lparr>map_to = (\<lambda>page frame flags fa pt.
        case pt page of
          Some (f, _) \<Rightarrow> Inr (Inl (PageAlreadyMapped f), fa, pt)
        | None \<Rightarrow> Inr (Inr (), fa, pt(page \<mapsto> (frame, flags)))),
      flush = (\<lambda>page pt. pt), leaf = (\<lambda>pt. pt), in_huge_page = (\<lambda>_ _. None),
      table_frames = (\<lambda>_. {})\<rparr>"

lemma example_virt_ok: "virt_api_ok example_virt"
  by (simp add: virt_api_ok_def example_virt_def)

lemma example_mapper_ok: "mapper_ok ok frames calls example_mapper"
  unfolding mapper_ok_def
proof (intro conjI allI impI)
  fix page frame flags fa pt
  assume "ok fa"
  then show "\<exists>r fa' pt' k. map_to example_mapper page frame flags fa pt = Inr (r, fa', pt') \<and>
      k \<le> 3 \<and> ok fa' \<and> frames fa' = drop k (frames fa) \<and> calls fa' = calls fa - k \<and>
      in_huge_page example_mapper pt' = in_huge_page example_mapper pt \<and>
      table_frames example_mapper pt' \<subseteq> table_frames example_mapper pt \<union> set (take k (frames fa)) \<and>
      (case r of
         Inr _ \<Rightarrow> leaf example_mapper pt page = None \<and>
           leaf example_mapper pt' = (leaf example_mapper pt)(page \<mapsto> (frame, flags))
       | Inl e \<Rightarrow> leaf example_mapper pt' = leaf example_mapper pt \<and>
           map_error_reason example_mapper (length (frames fa)) pt page e)"
    by (cases "pt page") (auto simp: example_mapper_def map_error_reason_def intro!: exI [of _ 0])
qed (simp_all add: example_mapper_def)

text \<open>
  A mapper that needs tables: one for each region of 2 MiB, in a frame that it takes from the
  boot allocator when it maps the first page of the region. It keeps the contract as well.
\<close>

type_synonym region_tables = "(u64 \<rightharpoonup> u64 \<times> PageTableFlag set) \<times> (u64 \<rightharpoonup> u64)"

definition region_mapper :: "(region_tables, u64, u64, u64 boot_frames) mapper_api" where
  "region_mapper =
     \<lparr>map_to = (\<lambda>page frame flags fa (leaves, tables).
        case leaves page of
          Some (f, _) \<Rightarrow> Inr (Inl (PageAlreadyMapped f), fa, (leaves, tables))
        | None \<Rightarrow>
            if tables (page div 2 ^ 21) \<noteq> None then Inr (Inr (), fa, (leaves(page \<mapsto> (frame, flags)), tables))
            else rbind (boot_allocate fa) (\<lambda>(table, fa').
              case table of
                None \<Rightarrow> Inr (Inl FrameAllocationFailed, fa', (leaves, tables))
              | Some f \<Rightarrow> Inr (Inr (), fa', (leaves(page \<mapsto> (frame, flags)), tables(page div 2 ^ 21 \<mapsto> f))))),
      flush = (\<lambda>page pt. pt), leaf = fst, in_huge_page = (\<lambda>_ _. None), table_frames = (\<lambda>pt. ran (snd pt))\<rparr>"

lemma region_mapper_ok: "mapper_ok boot_inv frames_left boot_calls_left region_mapper"
  unfolding mapper_ok_def
proof (intro conjI allI impI, goal_cases)
  case (4 page frame flags fa pt)
  obtain leaves tables where pt: "pt = (leaves, tables)" by (cases pt)
  obtain fa' where fa': "boot_allocate fa = Inr (if frames_left fa = [] then None else Some (hd (frames_left fa)), fa')"
    "boot_inv fa'" "frames_left fa' = tl (frames_left fa)" "boot_calls_left fa' = boot_calls_left fa - 1"
    using boot_frames.allocate_spec [OF 4(1)] 4(2) by auto
  consider (mapped) f fl where "leaves page = Some (f, fl)" | (old) "leaves page = None" "tables (page div 2 ^ 21) \<noteq> None"
    | (fresh) "leaves page = None" "tables (page div 2 ^ 21) = None"
    by (cases "leaves page") auto
  then show ?case
  proof cases
    case mapped
    then show ?thesis using 4 pt by (auto simp: region_mapper_def map_error_reason_def intro!: exI [of _ 0])
  next
    case old
    then show ?thesis using 4 pt by (auto simp: region_mapper_def intro!: exI [of _ 0])
  next
    case fresh
    show ?thesis
    proof (cases "frames_left fa = []")
      case True
      then show ?thesis
        using fresh fa' pt by (auto simp: region_mapper_def map_error_reason_def intro!: exI [of _ 1])
    next
      case False
      then have "take (Suc 0) (frames_left fa) = [hd (frames_left fa)]" by (cases "frames_left fa") simp_all
      then show ?thesis
        using False fresh fa' pt by (auto simp: region_mapper_def drop_Suc ran_map_upd intro!: exI [of _ 1])
    qed
  qed
qed (simp_all add: region_mapper_def)

lemma example_no_tables: "table_frames example_mapper pt = {}"
  by (simp add: example_mapper_def)

lemma example_page_free: "page_free example_mapper Map.empty page"
  by (simp add: page_free_def example_mapper_def)

text \<open>A machine with one megabyte of usable memory.\<close>

definition mapa_comum :: "MemoryRegion list" where
  "mapa_comum = [\<lparr>start_frame_number = 0x100, end_frame_number = 0x200, region_type = Usable\<rparr>]"

lemma mapa_comum_numbers: "usable_frame_numbers mapa_comum = [0x100..<0x200]"
  by (simp add: usable_frame_numbers_def usable_regions_def mapa_comum_def)

definition example_frames :: "u64 boot_frames" where
  "example_frames = (example_phys, BootInfoFrameAllocator_init mapa_comum)"

lemma example_frames_ok: "boot_inv example_frames" "100 \<le> boot_calls_left example_frames"
  by (simp_all add: boot_inv_def example_frames_def example_phys_ok BootInfoFrameAllocator_init_def
      map_wf_def mapa_comum_def usable_regions_def boot_calls_left_def)

lemma example_frames_length: "length (frames_left example_frames) = 256"
  by (simp add: example_frames_def frames_left_def BootInfoFrameAllocator_init_def mapa_comum_numbers)

theorem init_heap_maps_range_witness:
  "\<exists>fa' pt'. init_heap example_virt boot_allocate region_mapper (\<lambda>a n h. Some (a, n))
     example_frames (Map.empty, Map.empty) None = Inr (Inr (), fa', pt', Some (HEAP_START, HEAP_SIZE))"
proof -
  have free: "page_free region_mapper (Map.empty, Map.empty) page" for page by (simp add: page_free_def region_mapper_def)
  have "set (frames_left example_frames) \<inter> table_frames region_mapper (Map.empty, Map.empty) = {}" by (simp add: region_mapper_def)
  note maps = init_heap_maps_range [OF example_virt_ok region_mapper_ok example_frames_ok this, of "\<lambda>a n h. Some (a, n)" None]
  obtain r fa' pt' h' where "init_heap example_virt boot_allocate region_mapper (\<lambda>a n h. Some (a, n))
     example_frames (Map.empty, Map.empty) None = Inr (r, fa', pt', h')"
    "case r of Inl e \<Rightarrow> False | Inr _ \<Rightarrow> h' = Some (HEAP_START, HEAP_SIZE) \<and> True"
    using maps by (elim exE conjE) (simp add: free example_frames_length split: sum.splits)
  then show ?thesis by (auto split: sum.splits)
qed

text \<open>
  With fewer than 25 usable frames left, \<open>init_heap\<close> reports an error and the global
  allocator stays uninitialised: the kernel never hands out heap memory that is not
  backed by a frame.
\<close>

lemma init_heap_out_of_frames:
  assumes "virt_api_ok V" and "mapper_ok boot_inv frames_left boot_calls_left M"
    and "boot_inv fa" and "100 \<le> boot_calls_left fa" and "length (frames_left fa) < 25"
    and "set (frames_left fa) \<inter> table_frames M pt = {}"
  shows "\<exists>e fa' pt'. init_heap V boot_allocate M heap_init fa pt h = Inr (Inl e, fa', pt', h)"
proof -
  obtain pages where pages: "heap_page_range V = Inr pages"
    and starts: "map (page_start V) pages = map (\<lambda>i. HEAP_START + 4096 * i) [0..<25]"
    using heap_page_range_ok [OF assms(1)] .
  have len: "length pages = 25" using arg_cong [OF starts, of length] by simp
  have "4 * length pages \<le> boot_calls_left fa" using assms(4) len by simp
  from boot_frames.map_pages_spec [OF assms(2,3) this heap_pages_distinct [OF starts] assms(6)]
  obtain r fa' pt' fs where mp: "map_pages boot_allocate M pages fa pt = Inr (r, fa', pt')"
    and fs: "distinct fs" "set fs \<subseteq> set (frames_left fa)" "r = Inr () \<longleftrightarrow> length fs = length pages"
    by blast
  have "length fs \<le> length (frames_left fa)"
    using fs(1,2) card_mono [OF finite_set, of "set fs" "frames_left fa"]
    by (simp add: distinct_card card_length order_trans)
  then have "r \<noteq> Inr ()" using fs(3) len assms(5) by simp
  then show ?thesis using pages mp by (cases r) (auto simp: init_heap_def)
qed

end
