(* ===== verification/Memory_Init.thy ===== *)
theory Memory_Init
  imports Kernel_Heap
begin

text \<open>
  The rest of \<^verbatim>\<open>src/memory.rs\<close>: access to the active level 4 table, translation of
  an address, mapping of one page, the memory summary, and what \<open>memory::init\<close> computes
  from the boot information. The control register \<^verbatim>\<open>CR3\<close> and the offset page table of
  the \<^verbatim>\<open>x86_64\<close> crate are the record \<open>paging_api\<close>.
\<close>

section \<open>The active tables\<close>

record ('pt, 'page, 'frame, 'fa) paging_api =
  Cr3_read :: 'frame
  OffsetPageTable_new :: "u64 \<Rightarrow> u64 \<Rightarrow> ('pt, 'page, 'frame, 'fa) mapper_api"
  mapper_translate_addr :: "('pt, 'page, 'frame, 'fa) mapper_api \<Rightarrow> u64 \<Rightarrow> 'pt \<Rightarrow> u64 option"

text \<open>
  The mapper built for the address of the active table and the offset \<open>off\<close> at which all
  physical memory is mapped is a page-table mapper (nothing is assumed of a mapper built for
  any other address or offset). An address of a page that is mapped with \<open>PRESENT\<close> translates to the address of
  the frame plus the offset inside the page; an address inside a huge page to the place
  that the huge page gives it; any other address has no translation.
\<close>

definition paging_ok ::
  "'frame phys_api \<Rightarrow> 'page virt_api \<Rightarrow> ('fa \<Rightarrow> bool) \<Rightarrow> ('fa \<Rightarrow> 'frame list) \<Rightarrow> ('fa \<Rightarrow> nat) \<Rightarrow>
     ('pt, 'page, 'frame, 'fa) paging_api \<Rightarrow> u64 \<Rightarrow> bool"
where
  "paging_ok P V ok frames calls G off \<longleftrightarrow>
     (let M = OffsetPageTable_new G (off + frame_start P (Cr3_read G)) off in
        mapper_ok ok frames calls M \<and>
        (\<forall>a pt. mapper_translate_addr G M a pt =
           (case leaf M pt (Page_containing_address V a) of
              Some (f, flags) \<Rightarrow> if PRESENT \<in> flags then Some (frame_start P f + a mod 4096) else None
            | None \<Rightarrow> map_option (\<lambda>b. b + a mod 4096) (in_huge_page M pt (Page_containing_address V a)))))"

definition active_level_4_table ::
  "'frame phys_api \<Rightarrow> 'page virt_api \<Rightarrow> ('pt, 'page, 'frame, 'fa) paging_api \<Rightarrow> u64 \<Rightarrow> u64 res" where
  "active_level_4_table P V G physical_memory_offset =
     VirtAddr_add V physical_memory_offset (frame_start P (Cr3_read G))"

definition translate_addr ::
  "'frame phys_api \<Rightarrow> 'page virt_api \<Rightarrow> ('pt, 'page, 'frame, 'fa) paging_api \<Rightarrow> u64 \<Rightarrow> u64 \<Rightarrow> 'pt \<Rightarrow>
     u64 option res"
where
  "translate_addr P V G addr physical_memory_offset pt =
     rbind (active_level_4_table P V G physical_memory_offset) (\<lambda>level_4_table.
       Inr (mapper_translate_addr G (OffsetPageTable_new G level_4_table physical_memory_offset) addr pt))"

text \<open>\<open>map_page\<close> has the same body as the loop of \<open>init_heap\<close>.\<close>

definition map_page ::
  "'frame phys_api \<Rightarrow> 'page virt_api \<Rightarrow> ('pt, 'page, 'frame, 'fa) paging_api \<Rightarrow>
     ('fa \<Rightarrow> ('frame option \<times> 'fa) res) \<Rightarrow> 'page \<Rightarrow> u64 \<Rightarrow> 'fa \<Rightarrow> 'pt \<Rightarrow>
     (('frame MapToError + unit) \<times> 'fa \<times> 'pt) res"
where
  "map_page P V G allocate page physical_memory_offset fa pt =
     rbind (active_level_4_table P V G physical_memory_offset) (\<lambda>level_4_table.
       map_one allocate (OffsetPageTable_new G level_4_table physical_memory_offset) page fa pt)"

section \<open>The summary\<close>

record MemoryInfo =
  usable_bytes :: u64
  heap_start :: usize
  heap_size :: usize

definition sum_usable_bytes :: "MemoryRegion list \<Rightarrow> u64 res" where
  "sum_usable_bytes mm =
     for_each (usable_regions mm) (\<lambda>region total.
       rbind (usize_sub (end_frame_number region) (start_frame_number region)) (\<lambda>n.
       rbind (usize_mul n 4096) (\<lambda>size.
       usize_add total size))) 0"

record BootInfo =
  boot_memory_map :: "MemoryRegion list"
  physical_memory_offset :: u64

text \<open>
  \<open>memory::init\<close> up to the store into \<^verbatim>\<open>MEMORY_INFO\<close>: the tables and the heap as
  \<open>init_heap\<close> leaves them, and the summary or the panic that follows.
\<close>

definition memory_setup ::
  "'frame phys_api \<Rightarrow> 'page virt_api \<Rightarrow> ('pt, 'page, 'frame, 'frame boot_frames) paging_api \<Rightarrow>
     (usize \<Rightarrow> usize \<Rightarrow> 'h \<Rightarrow> 'h) \<Rightarrow> BootInfo \<Rightarrow> 'pt \<Rightarrow> 'h \<Rightarrow> ('pt \<times> 'h \<times> MemoryInfo res) res"
where
  "memory_setup P V G heap_init boot_info pt h =
     rbind (VirtAddr_new V (physical_memory_offset boot_info)) (\<lambda>offset.
     rbind (active_level_4_table P V G offset) (\<lambda>level_4_table.
     rbind (init_heap V boot_allocate (OffsetPageTable_new G level_4_table offset) heap_init
              (P, BootInfoFrameAllocator_init (boot_memory_map boot_info)) pt h) (\<lambda>(r, _, pt, h).
     Inr (pt, h,
       rbind (case r of
                Inl e \<Rightarrow> Inl (Expect (str ''falha ao mapear o heap: memoria fisica insuficiente''))
              | Inr _ \<Rightarrow> Inr ()) (\<lambda>_.
       rbind (sum_usable_bytes (boot_memory_map boot_info)) (\<lambda>total.
       Inr \<lparr>usable_bytes = total, heap_start = HEAP_START, heap_size = HEAP_SIZE\<rparr>))))))"

section \<open>The sum of the usable memory\<close>

definition map_ordered :: "MemoryRegion list \<Rightarrow> bool" where
  "map_ordered mm \<longleftrightarrow> list_all (\<lambda>r. start_frame_number r \<le> end_frame_number r) mm"

lemma usable_total_bound: "map_wf mm \<Longrightarrow> length (usable_frame_numbers mm) \<le> 2 ^ 40"
proof -
  assume wf: "map_wf mm"
  then have "distinct (usable_frame_numbers mm)"
    by (simp add: map_wf_def usable_frame_numbers_def usable_numbers_distinct)
  moreover have "set (usable_frame_numbers mm) \<subseteq> {..<2 ^ 40}"
    using usable_number_bound [OF wf] by auto
  ultimately show ?thesis
    using card_mono [of "{..<2 ^ 40}" "set (usable_frame_numbers mm)"] by (simp add: distinct_card)
qed

lemma sum_usable_loop:
  fixes rs :: "MemoryRegion list"
  assumes "list_all (\<lambda>r. start_frame_number r \<le> end_frame_number r) rs"
    and "acc + 4096 * length (concat (map (\<lambda>r. [start_frame_number r..<end_frame_number r]) rs)) < 2 ^ 64"
  shows "for_each rs (\<lambda>region total.
       rbind (usize_sub (end_frame_number region) (start_frame_number region)) (\<lambda>n.
       rbind (usize_mul n 4096) (\<lambda>size. usize_add total size))) acc =
     Inr (acc + 4096 * length (concat (map (\<lambda>r. [start_frame_number r..<end_frame_number r]) rs)))"
  using assms
proof (induction rs arbitrary: acc)
  case Nil
  then show ?case by simp
next
  case (Cons r rs)
  let ?n = "end_frame_number r - start_frame_number r"
  have "?n * 4096 < 2 ^ 64" "acc + ?n * 4096 < 2 ^ 64" using Cons.prems(2) by simp_all
  then show ?case
    using Cons.IH [of "acc + ?n * 4096"] Cons.prems by (simp add: rust_simps algebra_simps)
qed

lemma sum_usable_eq:
  assumes "map_wf mm" and "map_ordered mm"
  shows "sum_usable_bytes mm = Inr (4096 * length (usable_frame_numbers mm))"
proof -
  have "list_all (\<lambda>r. start_frame_number r \<le> end_frame_number r) (usable_regions mm)"
    using assms(2) by (auto simp: map_ordered_def usable_regions_def list_all_iff)
  moreover have "4096 * length (usable_frame_numbers mm) < 2 ^ 64"
    using usable_total_bound [OF assms(1)] by simp
  ultimately show ?thesis
    using sum_usable_loop [of "usable_regions mm" 0]
    by (simp add: sum_usable_bytes_def usable_frame_numbers_def)
qed

lemma heap_offset_cancel:
  assumes "(a - HEAP_START) div 4096 = (b - HEAP_START) div 4096" and "a mod 4096 = b mod 4096"
    and "HEAP_START \<le> a" and "HEAP_START \<le> b"
  shows "a = b"
proof -
  have off: "x mod 4096 = (x - HEAP_START) mod 4096" if "HEAP_START \<le> x" for x
    using mod_mult_self2 [of "x - HEAP_START" 4096 "HEAP_START div 4096"] that
    by (simp add: HEAP_START_def)
  have "a - HEAP_START = b - HEAP_START"
    using assms(1,2) off [OF assms(3)] off [OF assms(4)] by (metis div_mult_mod_eq)
  then show ?thesis using assms(3,4) by linarith
qed

section \<open>Properties\<close>

lemma active_table_ok:
  assumes "virt_api_ok V" and "off + frame_start P (Cr3_read G) < 2 ^ 47"
  shows "active_level_4_table P V G off = Inr (off + frame_start P (Cr3_read G))"
  using assms by (simp add: active_level_4_table_def virt_api_ok_def)

lemma paging_mapper:
  "paging_ok P V ok frames calls G off \<Longrightarrow> mapper_ok ok frames calls (OffsetPageTable_new G (off + frame_start P (Cr3_read G)) off)"
  by (simp add: paging_ok_def Let_def)

lemma translate_addr_mapped:
  assumes "virt_api_ok V" and "paging_ok P V ok frames calls G off" and "off + frame_start P (Cr3_read G) < 2 ^ 47"
    and "leaf (OffsetPageTable_new G (off + frame_start P (Cr3_read G)) off) pt (Page_containing_address V a) =
      Some (f, {PRESENT, WRITABLE})"
  shows "translate_addr P V G a off pt = Inr (Some (frame_start P f + a mod 4096))"
  using assms by (simp add: translate_addr_def active_table_ok paging_ok_def Let_def)

text \<open>Translation only depends on what the tables say of the page.\<close>

lemma translate_addr_same:
  assumes "virt_api_ok V" and "paging_ok P V ok frames calls G off" and "off + frame_start P (Cr3_read G) < 2 ^ 47"
    and "M = OffsetPageTable_new G (off + frame_start P (Cr3_read G)) off"
    and "leaf M pt' (Page_containing_address V a) = leaf M pt (Page_containing_address V a)"
    and "in_huge_page M pt' (Page_containing_address V a) = in_huge_page M pt (Page_containing_address V a)"
  shows "translate_addr P V G a off pt' = translate_addr P V G a off pt"
  using assms by (simp add: translate_addr_def active_table_ok paging_ok_def Let_def split: option.split)

text \<open>
  C28. \<open>map_page\<close> never panics on a canonical table address and with frames that do not
  hold page tables. When it returns \<^verbatim>\<open>Ok\<close>, every address of the page translates into one
  frame, which was free before and is not handed out again, at the same offset, the page
  was not mapped before, and every other address translates as before; when it returns an
  error, no translation has changed, and the error is true: \<^verbatim>\<open>FrameAllocationFailed\<close> comes
  with fewer than three frames left for tables, \<^verbatim>\<open>ParentEntryHugePage\<close> from a huge page over
  the page, \<^verbatim>\<open>PageAlreadyMapped\<close> from a page that is mapped. What is delivered afterwards is
  not in use as a table.
\<close>

theorem map_page_then_translate:
  assumes "virt_api_ok V" and "paging_ok P V boot_inv frames_left boot_calls_left G off"
    and "off + frame_start P (Cr3_read G) < 2 ^ 47" and "boot_inv fa" and "4 \<le> boot_calls_left fa"
    and "M = OffsetPageTable_new G (off + frame_start P (Cr3_read G)) off"
    and "set (frames_left fa) \<inter> table_frames M pt = {}"
  shows "\<exists>r fa' pt'. map_page P V G boot_allocate page off fa pt = Inr (r, fa', pt') \<and>
    set (frames_left fa') \<inter> table_frames M pt' = {} \<and>
    (\<forall>a. r \<noteq> Inr () \<or> Page_containing_address V a \<noteq> page \<longrightarrow>
       translate_addr P V G a off pt' = translate_addr P V G a off pt) \<and>
    (case r of
       Inl e \<Rightarrow> map_error_reason M (length (frames_left fa) - 1) pt page e
     | Inr _ \<Rightarrow> \<exists>f. f \<in> set (frames_left fa) - set (frames_left fa') \<and> leaf M pt page = None \<and>
         (\<forall>a. Page_containing_address V a = page \<longrightarrow>
            translate_addr P V G a off pt' = Inr (Some (frame_start P f + a mod 4096))))"
proof -
  let ?f = "hd (frames_left fa)"
  have M: "mapper_ok boot_inv frames_left boot_calls_left M" unfolding assms(6) using assms(2) by (rule paging_mapper)
  obtain r fa' pt' where one: "map_one boot_allocate M page fa pt = Inr (r, fa', pt')"
    and huge: "in_huge_page M pt' = in_huge_page M pt" and free: "set (frames_left fa') \<inter> table_frames M pt' = {}"
    and r: "case r of
       Inl e \<Rightarrow> leaf M pt' = leaf M pt \<and> map_error_reason M (length (frames_left fa) - 1) pt page e
     | Inr _ \<Rightarrow> frames_left fa \<noteq> [] \<and> ?f \<notin> set (frames_left fa') \<and>
         leaf M pt page = None \<and> leaf M pt' = (leaf M pt)(page \<mapsto> (?f, {PRESENT, WRITABLE}))"
    using boot_frames.map_one_spec [OF M assms(4,5,7)] by blast
  have "map_page P V G boot_allocate page off fa pt = Inr (r, fa', pt')"
    using assms(1,3) one by (simp add: map_page_def active_table_ok flip: assms(6))
  moreover have "translate_addr P V G a off pt' = translate_addr P V G a off pt"
    if "r \<noteq> Inr () \<or> Page_containing_address V a \<noteq> page" for a
    using that r huge by (intro translate_addr_same [OF assms(1-3,6)]) (auto split: sum.splits)
  moreover have "translate_addr P V G a off pt' = Inr (Some (frame_start P ?f + a mod 4096))"
    if "leaf M pt' = (leaf M pt)(page \<mapsto> (?f, {PRESENT, WRITABLE}))" "Page_containing_address V a = page" for a
    using that by (intro translate_addr_mapped [OF assms(1-3)]) (simp flip: assms(6))
  ultimately show ?thesis using r free by (cases r) (auto intro!: exI [of _ ?f] list.set_sel(1))
qed

text \<open>Frames not yet delivered are aligned, and different frames start at different addresses.\<close>

lemma frames_left_start:
  assumes "boot_inv (P, fa)" and "f \<in> set (frames_left (P, fa))"
  shows "\<exists>n \<in> set (usable_frame_numbers (memory_map fa)). f = containing_address P (n * 4096) \<and> frame_start P f = n * 4096"
proof -
  obtain n where n: "n \<in> set (usable_frame_numbers (memory_map fa))" "f = containing_address P (n * 4096)"
    using assms(2) by (auto simp: frames_left_def dest: in_set_dropD)
  have P: "phys_api_ok P" and "n < 2 ^ 40"
    using assms(1) usable_number_bound [OF _ n(1)] by (simp_all add: boot_inv_def)
  then show ?thesis using frame_of_number_ok [of P n] n by blast
qed

lemma heap_translation_inj:
  assumes inv: "boot_inv (P, fa)" and fs: "set fs \<subseteq> set (frames_left (P, fa))" "distinct fs" "length fs = 25"
    and a: "HEAP_START \<le> a" "a < HEAP_START + HEAP_SIZE" and b: "HEAP_START \<le> b" "b < HEAP_START + HEAP_SIZE"
    and eq: "frame_start P (fs ! ((a - HEAP_START) div 4096)) + a mod 4096 =
      frame_start P (fs ! ((b - HEAP_START) div 4096)) + b mod 4096"
  shows "a = b"
proof -
  let ?i = "(a - HEAP_START) div 4096" and ?j = "(b - HEAP_START) div 4096"
  have ij: "?i < 25" "?j < 25" using a b by (simp_all add: HEAP_START_def HEAP_SIZE_def)
  have "fs ! ?i \<in> set (frames_left (P, fa))" "fs ! ?j \<in> set (frames_left (P, fa))"
    using fs(1,3) ij by (auto intro!: subsetD [OF fs(1)] nth_mem)
  note starts = this [THEN frames_left_start [OF inv]]
  obtain m where m: "fs ! ?i = containing_address P (m * 4096)" "frame_start P (fs ! ?i) = m * 4096"
    using starts(1) by blast
  obtain n where n: "fs ! ?j = containing_address P (n * 4096)" "frame_start P (fs ! ?j) = n * 4096"
    using starts(2) by blast
  have sum: "m * 4096 + a mod 4096 = n * 4096 + b mod 4096" using eq m(2) n(2) by simp
  have "(m * 4096 + a mod 4096) div 4096 = m" "(n * 4096 + b mod 4096) div 4096 = n" by simp_all
  then have "m = n" using arg_cong [OF sum, of "\<lambda>x. x div 4096"] by (simp only:)
  then have mn: "m = n" "a mod 4096 = b mod 4096" using sum by simp_all
  then have "fs ! ?i = fs ! ?j" using m(1) n(1) by simp
  then have "?i = ?j" using nth_eq_iff_index_eq [OF fs(2), of ?i ?j] fs(3) ij by simp
  then show "a = b" using mn(2) a(1) b(1) by (rule heap_offset_cancel)
qed

lemma heap_phys_usable:
  assumes "boot_inv (P, fa)" and "set fs \<subseteq> set (frames_left (P, fa))" and "length fs = 25"
    and "HEAP_START \<le> a" and "a < HEAP_START + HEAP_SIZE"
  shows "(frame_start P (fs ! ((a - HEAP_START) div 4096)) + a mod 4096) div 4096
    \<in> set (usable_frame_numbers (memory_map fa))"
proof -
  have "(a - HEAP_START) div 4096 < 25" using assms(4,5) by (simp add: HEAP_START_def HEAP_SIZE_def)
  then have "fs ! ((a - HEAP_START) div 4096) \<in> set (frames_left (P, fa))"
    using assms(2,3) by (metis nth_mem subsetD)
  from frames_left_start [OF assms(1) this] show ?thesis by auto
qed

text \<open>
  The bootloader reports the frames of its page tables as used. There are frames for the
  heap and its tables, and nothing is mapped in its range.
\<close>

definition tables_reserved ::
  "'frame phys_api \<Rightarrow> ('pt, 'page, 'frame, 'fa) paging_api \<Rightarrow> BootInfo \<Rightarrow> 'pt \<Rightarrow> bool" where
  "tables_reserved P G bi pt \<longleftrightarrow>
     (\<forall>n \<in> set (usable_frame_numbers (boot_memory_map bi)). containing_address P (n * 4096) \<notin>
        table_frames (OffsetPageTable_new G (physical_memory_offset bi + frame_start P (Cr3_read G)) (physical_memory_offset bi)) pt)"

definition heap_mappable ::
  "'frame phys_api \<Rightarrow> 'page virt_api \<Rightarrow> ('pt, 'page, 'frame, 'fa) paging_api \<Rightarrow> BootInfo \<Rightarrow> 'pt \<Rightarrow> bool" where
  "heap_mappable P V G bi pt \<longleftrightarrow>
     tables_reserved P G bi pt \<and> 100 \<le> length (usable_frame_numbers (boot_memory_map bi)) \<and>
     (\<forall>a. HEAP_START \<le> a \<longrightarrow> a < HEAP_START + HEAP_SIZE \<longrightarrow>
        page_free (OffsetPageTable_new G (physical_memory_offset bi + frame_start P (Cr3_read G)) (physical_memory_offset bi))
          pt (Page_containing_address V a))"

text \<open>
  What initialisation makes of the translation: the heap range goes injectively into usable
  memory, its first page into the first usable frame, and nothing else changes.
\<close>

definition heap_translated ::
  "'frame phys_api \<Rightarrow> 'page virt_api \<Rightarrow> ('pt, 'page, 'frame, 'fa) paging_api \<Rightarrow> BootInfo \<Rightarrow> 'pt \<Rightarrow> 'pt \<Rightarrow> bool" where
  "heap_translated P V G bi pt pt' \<longleftrightarrow>
     (\<exists>phys. inj_on phys {HEAP_START..<HEAP_START + HEAP_SIZE} \<and>
        phys HEAP_START = hd (usable_frame_numbers (boot_memory_map bi)) * 4096 \<and>
        (\<forall>a \<in> {HEAP_START..<HEAP_START + HEAP_SIZE}.
           translate_addr P V G a (physical_memory_offset bi) pt' = Inr (Some (phys a)) \<and>
           phys a div 4096 \<in> set (usable_frame_numbers (boot_memory_map bi)))) \<and>
     (\<forall>a. a \<notin> {HEAP_START..<HEAP_START + HEAP_SIZE} \<longrightarrow>
        translate_addr P V G a (physical_memory_offset bi) pt' = translate_addr P V G a (physical_memory_offset bi) pt)"

text \<open>
  What it makes of the tables: outside the heap range every page keeps its entry, and new
  tables are in usable frames.
\<close>

definition active_mapper ::
  "'frame phys_api \<Rightarrow> ('pt, 'page, 'frame, 'fa) paging_api \<Rightarrow> BootInfo \<Rightarrow> ('pt, 'page, 'frame, 'fa) mapper_api" where
  "active_mapper P G bi =
     OffsetPageTable_new G (physical_memory_offset bi + frame_start P (Cr3_read G)) (physical_memory_offset bi)"

definition heap_tables ::
  "'frame phys_api \<Rightarrow> 'page virt_api \<Rightarrow> ('pt, 'page, 'frame, 'frame boot_frames) paging_api \<Rightarrow> BootInfo \<Rightarrow> 'pt \<Rightarrow> 'pt \<Rightarrow> bool" where
  "heap_tables P V G bi pt pt' \<longleftrightarrow>
     in_huge_page (active_mapper P G bi) pt' = in_huge_page (active_mapper P G bi) pt \<and>
     (\<forall>a. a \<notin> {HEAP_START..<HEAP_START + HEAP_SIZE} \<longrightarrow>
        leaf (active_mapper P G bi) pt' (Page_containing_address V a) = leaf (active_mapper P G bi) pt (Page_containing_address V a)) \<and>
     table_frames (active_mapper P G bi) pt' \<subseteq> table_frames (active_mapper P G bi) pt \<union>
       set (frames_left (P, BootInfoFrameAllocator_init (boot_memory_map bi)))"

lemma heap_translation:
  assumes "virt_api_ok V" and "paging_ok P V boot_inv frames_left boot_calls_left G off"
    and "off + frame_start P (Cr3_read G) < 2 ^ 47" and inv: "boot_inv (P, fa)" and "next_index fa = 0"
    and fs: "length fs = 25" "distinct fs" "set fs \<subseteq> set (frames_left (P, fa))" "hd fs = hd (frames_left (P, fa))"
    and M: "M = OffsetPageTable_new G (off + frame_start P (Cr3_read G)) off"
    and huge: "in_huge_page M pt' = in_huge_page M pt"
    and leaf: "\<forall>a. leaf M pt' (Page_containing_address V a) =
      (if HEAP_START \<le> a \<and> a < HEAP_START + HEAP_SIZE then Some (fs ! ((a - HEAP_START) div 4096), {PRESENT, WRITABLE})
       else leaf M pt (Page_containing_address V a))"
  shows "(\<exists>phys. inj_on phys {HEAP_START..<HEAP_START + HEAP_SIZE} \<and>
      phys HEAP_START = hd (usable_frame_numbers (memory_map fa)) * 4096 \<and>
      (\<forall>a \<in> {HEAP_START..<HEAP_START + HEAP_SIZE}. translate_addr P V G a off pt' = Inr (Some (phys a)) \<and>
         phys a div 4096 \<in> set (usable_frame_numbers (memory_map fa)))) \<and>
    (\<forall>a. a \<notin> {HEAP_START..<HEAP_START + HEAP_SIZE} \<longrightarrow> translate_addr P V G a off pt' = translate_addr P V G a off pt)"
proof (intro conjI exI ballI allI impI)
  define phys where "phys a = frame_start P (fs ! ((a - HEAP_START) div 4096)) + a mod 4096" for a
  show "inj_on phys {HEAP_START..<HEAP_START + HEAP_SIZE}"
    by (rule inj_onI) (auto simp: phys_def intro: heap_translation_inj [OF inv fs(3,2,1)])
  let ?n = "hd (usable_frame_numbers (memory_map fa))"
  have ne: "usable_frame_numbers (memory_map fa) \<noteq> []" using fs(1,3) assms(5) by (auto simp: frames_left_def)
  have P: "phys_api_ok P" and "?n < 2 ^ 40"
    using inv usable_number_bound [of "memory_map fa" ?n] ne by (simp_all add: boot_inv_def)
  moreover have "fs ! 0 = containing_address P (?n * 4096)"
    using fs(1,4) ne assms(5) by (cases fs) (simp_all add: frames_left_def hd_map)
  ultimately show "phys HEAP_START = ?n * 4096"
    using frame_of_number_ok [of P ?n] by (simp add: phys_def HEAP_START_def)
  fix a
  show "translate_addr P V G a off pt' = Inr (Some (phys a))" if "a \<in> {HEAP_START..<HEAP_START + HEAP_SIZE}"
    using that leaf by (simp add: phys_def translate_addr_mapped [OF assms(1-3), folded M])
  show "phys a div 4096 \<in> set (usable_frame_numbers (memory_map fa))" if "a \<in> {HEAP_START..<HEAP_START + HEAP_SIZE}"
    using that heap_phys_usable [OF inv fs(3,1)] by (simp add: phys_def)
  show "translate_addr P V G a off pt' = translate_addr P V G a off pt" if "a \<notin> {HEAP_START..<HEAP_START + HEAP_SIZE}"
    using that leaf huge by (intro translate_addr_same [OF assms(1-3) M]) auto
qed

lemma memory_setup_result:
  assumes "phys_api_ok P" and "virt_api_ok V" and "paging_ok P V boot_inv frames_left boot_calls_left G (physical_memory_offset bi)"
    and "map_wf (boot_memory_map bi)" and "map_ordered (boot_memory_map bi)"
    and "physical_memory_offset bi + frame_start P (Cr3_read G) < 2 ^ 47" and "tables_reserved P G bi pt"
  shows "\<exists>pt' h' r. memory_setup P V G heap_init bi pt h = Inr (pt', h', r) \<and>
    (case r of
       Inl p \<Rightarrow> p = Expect (str ''falha ao mapear o heap: memoria fisica insuficiente'') \<and> h' = h \<and>
         \<not> heap_mappable P V G bi pt
     | Inr info \<Rightarrow> h' = heap_init HEAP_START HEAP_SIZE h \<and>
         info = \<lparr>usable_bytes = 4096 * length (usable_frame_numbers (boot_memory_map bi)),
                 heap_start = HEAP_START, heap_size = HEAP_SIZE\<rparr> \<and>
         heap_translated P V G bi pt pt' \<and> heap_tables P V G bi pt pt')"
proof -
  let ?off = "physical_memory_offset bi" and ?mm = "boot_memory_map bi"
  let ?M = "OffsetPageTable_new G (?off + frame_start P (Cr3_read G)) ?off"
  let ?fa = "(P, BootInfoFrameAllocator_init ?mm)"
  let ?info = "\<lparr>usable_bytes = 4096 * length (usable_frame_numbers ?mm), heap_start = HEAP_START, heap_size = HEAP_SIZE\<rparr>"
  have M: "mapper_ok boot_inv frames_left boot_calls_left ?M" using assms(3) by (rule paging_mapper)
  have inv: "boot_inv ?fa" "100 \<le> boot_calls_left ?fa"
    and left: "frames_left ?fa = map (\<lambda>n. containing_address P (n * 4096)) (usable_frame_numbers ?mm)"
    using assms(1,4) by (simp_all add: boot_inv_def boot_calls_left_def frames_left_def BootInfoFrameAllocator_init_def)
  have tables: "set (frames_left ?fa) \<inter> table_frames ?M pt = {}" using assms(7) left by (auto simp: tables_reserved_def)
  obtain r fa' pt' h' where heap: "init_heap V boot_allocate ?M heap_init ?fa pt h = Inr (r, fa', pt', h')"
    and new: "table_frames ?M pt' \<subseteq> table_frames ?M pt \<union> set (frames_left ?fa)"
    and r: "case r of Inl e \<Rightarrow> h' = h \<and> (length (frames_left ?fa) < 100 \<or>
        (\<exists>a. HEAP_START \<le> a \<and> a < HEAP_START + HEAP_SIZE \<and> \<not> page_free ?M pt (Page_containing_address V a)))
    | Inr _ \<Rightarrow> h' = heap_init HEAP_START HEAP_SIZE h \<and> in_huge_page ?M pt' = in_huge_page ?M pt \<and>
      (\<exists>fs. length fs = 25 \<and> distinct fs \<and> set fs \<subseteq> set (frames_left ?fa) - set (frames_left fa') \<and>
        hd fs = hd (frames_left ?fa) \<and>
        (\<forall>a. leaf ?M pt' (Page_containing_address V a) =
           (if HEAP_START \<le> a \<and> a < HEAP_START + HEAP_SIZE
            then Some (fs ! ((a - HEAP_START) div 4096), {PRESENT, WRITABLE})
            else leaf ?M pt (Page_containing_address V a))))"
    using init_heap_spec [OF assms(2) M inv tables, of heap_init h] by blast
  have result: "memory_setup P V G heap_init bi pt h = Inr (pt', h',
      case r of Inl e \<Rightarrow> Inl (Expect (str ''falha ao mapear o heap: memoria fisica insuficiente'')) | Inr _ \<Rightarrow> Inr ?info)"
    using heap assms(2) active_table_ok [OF assms(2,6)] sum_usable_eq [OF assms(4,5)] assms(6)
    by (simp add: memory_setup_def virt_api_ok_def split: sum.splits)
  show ?thesis
  proof (cases r)
    case (Inl e)
    then have "h' = h" "\<not> heap_mappable P V G bi pt" using r left by (auto simp: heap_mappable_def)
    then show ?thesis using result Inl by simp
  next
    case (Inr u)
    then obtain fs where h': "h' = heap_init HEAP_START HEAP_SIZE h" "in_huge_page ?M pt' = in_huge_page ?M pt"
      and fs: "length fs = 25" "distinct fs" "set fs \<subseteq> set (frames_left ?fa)" "hd fs = hd (frames_left ?fa)"
      and leaf: "\<forall>a. leaf ?M pt' (Page_containing_address V a) =
           (if HEAP_START \<le> a \<and> a < HEAP_START + HEAP_SIZE
            then Some (fs ! ((a - HEAP_START) div 4096), {PRESENT, WRITABLE})
            else leaf ?M pt (Page_containing_address V a))"
      using r by (simp only: sum.case) blast
    have "heap_translated P V G bi pt pt'"
      using heap_translation [OF assms(2,3,6) inv(1) _ fs refl h'(2) leaf]
      by (simp add: heap_translated_def BootInfoFrameAllocator_init_def)
    moreover have "heap_tables P V G bi pt pt'" using h'(2) leaf new by (simp add: heap_tables_def active_mapper_def)
    ultimately show ?thesis using Inr result h'(1) by (intro exI [of _ pt'] exI [of _ h'] exI [of _ "Inr ?info"]) simp
  qed
qed

text \<open>
  C13. \<open>memory::init\<close>, on page tables whose frames the memory map does not report as
  usable, stops with the panic that reports too little physical memory only if
  there are fewer than 100 usable frames or the heap range was not free, and then the
  global allocator is untouched. Otherwise it returns: the summary counts every frame the
  allocator can deliver, 4096 bytes each, the global allocator owns the heap range, the
  addresses of the range translate to pairwise different physical addresses of usable
  memory, and all other addresses translate as before.
\<close>

theorem memory_setup_spec:
  assumes "phys_api_ok P" and "virt_api_ok V" and "paging_ok P V boot_inv frames_left boot_calls_left G (physical_memory_offset bi)"
    and "map_wf (boot_memory_map bi)" and "map_ordered (boot_memory_map bi)"
    and "physical_memory_offset bi + frame_start P (Cr3_read G) < 2 ^ 47" and "tables_reserved P G bi pt"
  shows "\<exists>pt' h' r. memory_setup P V G heap_init bi pt h = Inr (pt', h', r) \<and>
    (case r of
       Inl p \<Rightarrow> p = Expect (str ''falha ao mapear o heap: memoria fisica insuficiente'') \<and> h' = h \<and>
         \<not> heap_mappable P V G bi pt
     | Inr info \<Rightarrow> h' = heap_init HEAP_START HEAP_SIZE h \<and>
         info = \<lparr>usable_bytes = 4096 * length (usable_frame_numbers (boot_memory_map bi)),
                 heap_start = HEAP_START, heap_size = HEAP_SIZE\<rparr> \<and>
         (\<exists>phys. inj_on phys {HEAP_START..<HEAP_START + HEAP_SIZE} \<and>
            (\<forall>a \<in> {HEAP_START..<HEAP_START + HEAP_SIZE}.
               translate_addr P V G a (physical_memory_offset bi) pt' = Inr (Some (phys a)) \<and>
               phys a div 4096 \<in> set (usable_frame_numbers (boot_memory_map bi)))) \<and>
         (\<forall>a. a \<notin> {HEAP_START..<HEAP_START + HEAP_SIZE} \<longrightarrow>
            translate_addr P V G a (physical_memory_offset bi) pt' = translate_addr P V G a (physical_memory_offset bi) pt))"
proof -
  obtain pt' h' r where "memory_setup P V G heap_init bi pt h = Inr (pt', h', r)" and r: "case r of
       Inl p \<Rightarrow> p = Expect (str ''falha ao mapear o heap: memoria fisica insuficiente'') \<and> h' = h \<and> \<not> heap_mappable P V G bi pt
     | Inr info \<Rightarrow> h' = heap_init HEAP_START HEAP_SIZE h \<and>
         info = \<lparr>usable_bytes = 4096 * length (usable_frame_numbers (boot_memory_map bi)),
                 heap_start = HEAP_START, heap_size = HEAP_SIZE\<rparr> \<and> heap_translated P V G bi pt pt' \<and> heap_tables P V G bi pt pt'"
    using memory_setup_result [OF assms, of heap_init h] by blast
  then show ?thesis
    by (intro exI [of _ pt'] exI [of _ h'] exI [of _ r]) (cases r; simp only: heap_translated_def sum.case simp_thms; blast)
qed

text \<open>
  C29. A second frame allocator on the same memory map delivers a frame that is in use:
  after a successful initialisation the first frame of a new allocator is the very frame to
  which the first page of the heap is mapped, and every frame that the initialisation has
  taken for a page table is among those that the new allocator will deliver.
\<close>

theorem second_allocator_aliases_heap:
  assumes "phys_api_ok P" and "virt_api_ok V" and "paging_ok P V boot_inv frames_left boot_calls_left G (physical_memory_offset bi)"
    and "map_wf (boot_memory_map bi)" and "map_ordered (boot_memory_map bi)"
    and "physical_memory_offset bi + frame_start P (Cr3_read G) < 2 ^ 47" and "tables_reserved P G bi pt"
    and "memory_setup P V G heap_init bi pt h = Inr (pt', h', Inr info)"
  shows "(\<exists>f fa'. allocate_frame P (BootInfoFrameAllocator_init (boot_memory_map bi)) = Inr (Some f, fa') \<and>
      translate_addr P V G HEAP_START (physical_memory_offset bi) pt' = Inr (Some (frame_start P f))) \<and>
    table_frames (active_mapper P G bi) pt' - table_frames (active_mapper P G bi) pt \<subseteq>
      set (frames_left (P, BootInfoFrameAllocator_init (boot_memory_map bi)))"
proof -
  let ?n = "hd (usable_frame_numbers (boot_memory_map bi))"
  have "heap_translated P V G bi pt pt'" and tables: "heap_tables P V G bi pt pt'"
    using memory_setup_result [OF assms(1-7), of heap_init h] assms(8) by auto
  then obtain phys where phys: "phys HEAP_START = ?n * 4096"
    "\<forall>a \<in> {HEAP_START..<HEAP_START + HEAP_SIZE}. translate_addr P V G a (physical_memory_offset bi) pt' = Inr (Some (phys a)) \<and>
       phys a div 4096 \<in> set (usable_frame_numbers (boot_memory_map bi))"
    unfolding heap_translated_def by blast
  have start: "HEAP_START \<in> {HEAP_START..<HEAP_START + HEAP_SIZE}" by (simp add: HEAP_SIZE_def)
  then have "usable_frame_numbers (boot_memory_map bi) \<noteq> []" using phys(2) by fastforce
  then have n: "?n < 2 ^ 40" "?n = usable_frame_numbers (boot_memory_map bi) ! 0" "0 < length (usable_frame_numbers (boot_memory_map bi))"
    using usable_number_bound [OF assms(4), of ?n] by (simp_all add: hd_conv_nth)
  show ?thesis
    using bspec [OF phys(2) start] phys(1) n frame_of_number_ok [OF assms(1) n(1)] tables
    by (simp add: heap_tables_def Diff_subset_conv allocate_frame_eq [OF assms(1)] assms(4) BootInfoFrameAllocator_init_def)
qed

text \<open>A concrete paging interface over the mapper and the memory map of the examples.\<close>

definition example_paging ::
  "(u64 \<rightharpoonup> u64 \<times> PageTableFlag set, u64, u64, u64 boot_frames) paging_api" where
  "example_paging =
     \<lparr>Cr3_read = 0x1000, OffsetPageTable_new = (\<lambda>_ _. example_mapper),
      mapper_translate_addr = (\<lambda>M a pt.
        case leaf M pt (a - a mod 4096) of
          Some (f, flags) \<Rightarrow> if PRESENT \<in> flags then Some (f + a mod 4096) else None
        | None \<Rightarrow> map_option (\<lambda>b. b + a mod 4096) (in_huge_page M pt (a - a mod 4096)))\<rparr>"

lemma example_paging_ok:
  "paging_ok example_phys example_virt boot_inv frames_left boot_calls_left example_paging off"
  by (simp add: paging_ok_def example_paging_def example_mapper_ok example_phys_def example_virt_def Let_def split: option.split)

definition example_boot_info :: BootInfo where
  "example_boot_info = \<lparr>boot_memory_map = mapa_comum, physical_memory_offset = 0x18000000000\<rparr>"

lemma example_cr3: "0x18000000000 + frame_start example_phys (Cr3_read example_paging) < 2 ^ 47"
  by (simp add: example_phys_def example_paging_def)

lemma example_usable: "length (usable_frame_numbers (boot_memory_map example_boot_info)) = 256"
  by (simp add: example_boot_info_def mapa_comum_numbers)

lemma example_tables_reserved: "tables_reserved example_phys example_paging bi pt"
  by (simp add: tables_reserved_def example_paging_def example_no_tables)

lemma example_heap_mappable: "heap_mappable example_phys example_virt example_paging example_boot_info Map.empty"
  by (simp add: heap_mappable_def example_tables_reserved) (simp add: example_boot_info_def mapa_comum_numbers example_paging_def example_page_free)

lemma example_map_wf: "map_wf (boot_memory_map example_boot_info)" "map_ordered (boot_memory_map example_boot_info)"
  by (simp_all add: example_boot_info_def map_wf_def map_ordered_def mapa_comum_def usable_regions_def)

lemma example_cr3_bound: "physical_memory_offset example_boot_info + frame_start example_phys (Cr3_read example_paging) < 2 ^ 47"
  by (simp add: example_boot_info_def example_phys_def example_paging_def)

theorem map_page_then_translate_witness:
  "\<exists>f fa' pt'. map_page example_phys example_virt example_paging boot_allocate 0x5000 0x18000000000
     example_frames Map.empty = Inr (Inr (), fa', pt') \<and>
     translate_addr example_phys example_virt example_paging 0x5123 0x18000000000 pt' = Inr (Some (f + 0x123))"
proof -
  have a: "Page_containing_address example_virt 0x5123 = 0x5000" "(0x5123::nat) mod 4096 = 0x123"
    by (simp_all add: example_virt_def)
  have M: "example_mapper = OffsetPageTable_new example_paging (0x18000000000 + frame_start example_phys (Cr3_read example_paging)) 0x18000000000"
    by (simp add: example_paging_def)
  let ?M = "example_mapper :: (u64 \<rightharpoonup> u64 \<times> PageTableFlag set, u64, u64, u64 boot_frames) mapper_api"
  have no: "\<not> map_error_reason ?M (length (frames_left example_frames) - 1) Map.empty 0x5000 e" for e
    using map_error_cause [of ?M 255 Map.empty "0x5000" e] by (auto simp: example_frames_length example_page_free)
  have "4 \<le> boot_calls_left example_frames" "set (frames_left example_frames) \<inter> table_frames ?M Map.empty = {}"
    using example_frames_ok(2) by (simp_all add: example_no_tables)
  from map_page_then_translate [OF example_virt_ok example_paging_ok example_cr3 example_frames_ok(1) this(1) M this(2), of "0x5000"]
  obtain r fa' pt' where r: "map_page example_phys example_virt example_paging boot_allocate 0x5000 0x18000000000
      example_frames Map.empty = Inr (r, fa', pt')"
    "case r of Inl e \<Rightarrow> map_error_reason ?M (length (frames_left example_frames) - 1) Map.empty 0x5000 e
     | Inr _ \<Rightarrow> \<exists>f. f \<in> set (frames_left example_frames) - set (frames_left fa') \<and> leaf ?M Map.empty 0x5000 = None \<and>
         (\<forall>a. Page_containing_address example_virt a = 0x5000 \<longrightarrow>
            translate_addr example_phys example_virt example_paging a 0x18000000000 pt' =
              Inr (Some (frame_start example_phys f + a mod 4096)))"
    by blast
  then show ?thesis
  proof (cases r)
    case (Inr u)
    then show ?thesis using r a by fastforce
  qed (use r(2) no in simp)
qed

theorem memory_setup_spec_witness:
  "\<exists>pt'. memory_setup example_phys example_virt example_paging (\<lambda>a n h. Some (a, n)) example_boot_info Map.empty None =
      Inr (pt', Some (HEAP_START, HEAP_SIZE),
        Inr \<lparr>usable_bytes = 1048576, heap_start = HEAP_START, heap_size = HEAP_SIZE\<rparr>)"
proof -
  from memory_setup_spec [OF example_phys_ok example_virt_ok example_paging_ok example_map_wf example_cr3_bound example_tables_reserved [of _ Map.empty],
      of "\<lambda>a n h. Some (a, n)" None]
  obtain pt' h' r where "memory_setup example_phys example_virt example_paging (\<lambda>a n h. Some (a, n))
      example_boot_info Map.empty None = Inr (pt', h', r)"
    "case r of Inl p \<Rightarrow> False | Inr info \<Rightarrow> h' = Some (HEAP_START, HEAP_SIZE) \<and>
       info = \<lparr>usable_bytes = 1048576, heap_start = HEAP_START, heap_size = HEAP_SIZE\<rparr> \<and> True"
    by (elim exE conjE) (simp add: example_heap_mappable example_usable split: sum.splits)
  then show ?thesis by (auto split: sum.splits)
qed

theorem second_allocator_aliases_heap_witness:
  "\<exists>pt' h' info f fa'. memory_setup example_phys example_virt example_paging (\<lambda>a n h. h) example_boot_info Map.empty () =
      Inr (pt', h', Inr info) \<and>
    allocate_frame example_phys (BootInfoFrameAllocator_init (boot_memory_map example_boot_info)) = Inr (Some f, fa') \<and>
    translate_addr example_phys example_virt example_paging HEAP_START (physical_memory_offset example_boot_info) pt' =
      Inr (Some (frame_start example_phys f))"
proof -
  obtain pt' h' info where inited: "memory_setup example_phys example_virt example_paging (\<lambda>a n h. h) example_boot_info Map.empty () =
      Inr (pt', h', Inr info)"
    using memory_setup_result [OF example_phys_ok example_virt_ok example_paging_ok example_map_wf example_cr3_bound
        example_tables_reserved [of _ Map.empty], of "\<lambda>a n h. h" "()"] example_heap_mappable
    by (elim exE conjE) (simp split: sum.splits)
  from second_allocator_aliases_heap [OF example_phys_ok example_virt_ok example_paging_ok example_map_wf example_cr3_bound
      example_tables_reserved inited] inited show ?thesis by blast
qed

end
