(* ===== verification/Gdt_Tss.thy ===== *)
theory Gdt_Tss
  imports Rust_Prelude
begin

text \<open>
  The descriptor tables of \<^verbatim>\<open>src/gdt.rs\<close>: the task state segment with the stack of the
  double fault handler in its interrupt stack table, and the global descriptor table with
  the code segment of the kernel and the descriptor of the task state segment. The table
  types belong to the \<^verbatim>\<open>x86_64\<close> crate: \<open>gdt_api\<close> has the constructors the code calls.
\<close>

definition DOUBLE_FAULT_IST_INDEX :: u16 where
  "DOUBLE_FAULT_IST_INDEX = 0"

definition DOUBLE_FAULT_STACK_SIZE :: usize where
  "DOUBLE_FAULT_STACK_SIZE = 5 * 4096"

text \<open>The field of the task state segment that the kernel writes.\<close>

record TaskStateSegment =
  interrupt_stack_table :: "u64 list"

text \<open>
  \<open>gdt_append\<close> panics when the table is full. \<open>tss_at\<close> is the task state segment that the
  processor finds through the descriptor of a selector.
\<close>

record ('g, 'd) gdt_api =
  TaskStateSegment_new :: TaskStateSegment
  GlobalDescriptorTable_new :: 'g
  gdt_append :: "'d \<Rightarrow> 'g \<Rightarrow> (u16 \<times> 'g) res"
  Descriptor_kernel_code_segment :: 'd
  Descriptor_tss_segment :: "TaskStateSegment \<Rightarrow> 'd"
  VirtAddr_offset :: "u64 \<Rightarrow> u64 \<Rightarrow> u64 res"
  tss_at :: "'g \<Rightarrow> u16 \<Rightarrow> TaskStateSegment option"

text \<open>
  A new segment has seven empty stack slots; an address of the lower half can be advanced; a
  new table has room for a code segment and the descriptor of a task state segment, and the
  selector of the latter leads the processor to that segment.
\<close>

definition gdt_api_ok :: "('g, 'd) gdt_api \<Rightarrow> bool" where
  "gdt_api_ok D \<longleftrightarrow>
     interrupt_stack_table (TaskStateSegment_new D) = replicate 7 0 \<and>
     (\<forall>a b. a + b < 2 ^ 47 \<longrightarrow> VirtAddr_offset D a b = Inr (a + b)) \<and>
     (\<exists>code g. gdt_append D (Descriptor_kernel_code_segment D) (GlobalDescriptorTable_new D) = Inr (code, g) \<and>
        (\<forall>t. \<exists>sel g'. gdt_append D (Descriptor_tss_segment D t) g = Inr (sel, g') \<and> tss_at D g' sel = Some t))"

text \<open>\<open>stack\<close> is the address of \<^verbatim>\<open>DOUBLE_FAULT_STACK\<close>.\<close>

definition TSS :: "('g, 'd) gdt_api \<Rightarrow> u64 \<Rightarrow> TaskStateSegment res" where
  "TSS D stack =
     (let tss = TaskStateSegment_new D; stack_start = stack in
      rbind (VirtAddr_offset D stack_start DOUBLE_FAULT_STACK_SIZE) (\<lambda>top.
      rbind (arr_set (interrupt_stack_table tss) (unat DOUBLE_FAULT_IST_INDEX) top) (\<lambda>ist.
      Inr (tss\<lparr>interrupt_stack_table := ist\<rparr>))))"

record Selectors =
  code_selector :: u16
  tss_selector :: u16

definition GDT :: "('g, 'd) gdt_api \<Rightarrow> u64 \<Rightarrow> ('g \<times> Selectors) res" where
  "GDT D stack =
     (let gdt = GlobalDescriptorTable_new D in
      rbind (gdt_append D (Descriptor_kernel_code_segment D) gdt) (\<lambda>(code_selector, gdt).
      rbind (TSS D stack) (\<lambda>tss.
      rbind (gdt_append D (Descriptor_tss_segment D tss) gdt) (\<lambda>(tss_selector, gdt).
      Inr (gdt, \<lparr>code_selector = code_selector, tss_selector = tss_selector\<rparr>)))))"

text \<open>
  The stack pointer that the processor loads for an entry with a stack index: the slot of
  the loaded segment. An empty slot is no stack (nothing can be pushed below address 0).
\<close>

definition ist_slot :: "TaskStateSegment \<Rightarrow> u16 \<Rightarrow> u64 option" where
  "ist_slot tss i =
     (if unat i < length (interrupt_stack_table tss) \<and> interrupt_stack_table tss ! unat i \<noteq> 0
      then Some (interrupt_stack_table tss ! unat i) else None)"

definition ist_pointer :: "u16 \<Rightarrow> TaskStateSegment option \<Rightarrow> u64 option" where
  "ist_pointer i loaded = Option.bind loaded (\<lambda>tss. ist_slot tss i)"

lemma TSS_ok:
  assumes "gdt_api_ok D" and "stack + DOUBLE_FAULT_STACK_SIZE < 2 ^ 47"
  shows "\<exists>tss. TSS D stack = Inr tss \<and> ist_slot tss DOUBLE_FAULT_IST_INDEX = Some (stack + DOUBLE_FAULT_STACK_SIZE)"
  using assms
  by (auto simp: TSS_def gdt_api_ok_def DOUBLE_FAULT_IST_INDEX_def DOUBLE_FAULT_STACK_SIZE_def arr_set_def Let_def ist_slot_def)

text \<open>The table is built, and its selector leads to a segment with the stack in the slot.\<close>

lemma GDT_loads_stack:
  assumes "gdt_api_ok D" and "stack + DOUBLE_FAULT_STACK_SIZE < 2 ^ 47"
  shows "\<exists>gdt sel tss. GDT D stack = Inr (gdt, sel) \<and> tss_at D gdt (tss_selector sel) = Some tss \<and>
    ist_slot tss DOUBLE_FAULT_IST_INDEX = Some (stack + DOUBLE_FAULT_STACK_SIZE)"
proof -
  obtain tss where tss: "TSS D stack = Inr tss" "ist_slot tss DOUBLE_FAULT_IST_INDEX = Some (stack + DOUBLE_FAULT_STACK_SIZE)"
    using TSS_ok [OF assms] by blast
  obtain code g where code: "gdt_append D (Descriptor_kernel_code_segment D) (GlobalDescriptorTable_new D) = Inr (code, g)"
    "\<forall>t. \<exists>sel g'. gdt_append D (Descriptor_tss_segment D t) g = Inr (sel, g') \<and> tss_at D g' sel = Some t"
    using assms(1) by (auto simp: gdt_api_ok_def)
  obtain sel g' where "gdt_append D (Descriptor_tss_segment D tss) g = Inr (sel, g')" "tss_at D g' sel = Some tss"
    using code(2) by blast
  then show ?thesis using code(1) tss by (simp add: GDT_def)
qed

end
