(* ===== verification/Kernel_State.thy ===== *)
theory Kernel_State
  imports Vga_Screen Keyboard Scancode_Queue Line_Buffer Memory_Init Gdt_Tss
begin

text \<open>
  The global state of the kernel and the effects its code has on it. Every
  \<^verbatim>\<open>static\<close> of the sources is a field of the record \<open>kernel\<close>, beside the processor
  registers the kernel loads and the logs of what it sends to the devices. A piece of
  code is a function from the state to an \<open>outcome\<close>: it returns a value and a state, or
  the processor stops for good, because the code parked it, because it spins on a lock
  that nobody will release, or by a triple fault.

  There is one processor, and handlers of interrupts run to their end or never return.
  So a \<^verbatim>\<open>spin::Mutex\<close> is the membership of its name in the set \<open>held\<close>, and an
  attempt to take a lock that is held is the outcome \<open>Spin\<close>. \<open>wp\<close> is the weakest
  precondition of a piece of code: \<open>Q\<close> for a normal return, \<open>S\<close> for a stop.
\<close>

section \<open>Outcomes\<close>

datatype lock =
    WRITER_lock | SERIAL1_lock | SHIFT_lock | LINE_lock | SCANCODE_QUEUE_lock | PICS_lock
  | MEMORY_INFO_lock

datatype stop = Halted | Spin lock | Triple_fault

datatype ('a, 's) outcome = Ret 'a 's | Stop stop 's

type_synonym ('a, 's) prog = "'s \<Rightarrow> ('a, 's) outcome"

definition kret :: "'a \<Rightarrow> ('a, 's) prog" where
  "kret x s = Ret x s"

definition kbind :: "('a, 's) prog \<Rightarrow> ('a \<Rightarrow> ('b, 's) prog) \<Rightarrow> ('b, 's) prog" where
  "kbind m f s = (case m s of Ret x s' \<Rightarrow> f x s' | Stop e s' \<Rightarrow> Stop e s')"

definition kthen :: "('a, 's) prog \<Rightarrow> ('b, 's) prog \<Rightarrow> ('b, 's) prog" where
  "kthen m n = kbind m (\<lambda>_. n)"

definition kget :: "('s \<Rightarrow> 'a) \<Rightarrow> ('a, 's) prog" where
  "kget f s = Ret (f s) s"

definition kupd :: "('s \<Rightarrow> 's) \<Rightarrow> (unit, 's) prog" where
  "kupd f s = Ret () (f s)"

fun kfor :: "'i list \<Rightarrow> ('i \<Rightarrow> (unit, 's) prog) \<Rightarrow> (unit, 's) prog" where
  "kfor [] body = kret ()"
| "kfor (i # is) body = kthen (body i) (kfor is body)"

definition wp :: "('a, 's) prog \<Rightarrow> ('a \<Rightarrow> 's \<Rightarrow> bool) \<Rightarrow> (stop \<Rightarrow> 's \<Rightarrow> bool) \<Rightarrow> 's \<Rightarrow> bool" where
  "wp m Q S s = (case m s of Ret x s' \<Rightarrow> Q x s' | Stop e s' \<Rightarrow> S e s')"

named_theorems wp_simps \<open>weakest preconditions of the primitive pieces of code\<close>

lemma wp_value [wp_simps]:
  "wp (kret x) Q S = Q x"
  "wp (kget g) Q S = (\<lambda>s. Q (g s) s)"
  by (simp_all add: fun_eq_iff wp_def kret_def kget_def)

lemma wp_kupd [wp_simps]: "wp (kupd h) Q S = (\<lambda>s. Q () (h s))"
  by (simp add: fun_eq_iff wp_def kupd_def)

lemma wp_seq [wp_simps]:
  "wp (kbind m f) Q S = wp m (\<lambda>x. wp (f x) Q S) S"
  "wp (kthen m n) Q S = wp m (\<lambda>_. wp n Q S) S"
  by (simp_all add: fun_eq_iff wp_def kbind_def kthen_def split: outcome.splits)

lemma wp_if [wp_simps]: "wp (if b then m else n) Q S = (if b then wp m Q S else wp n Q S)"
  by simp

lemma wp_mono:
  "wp m Q S s \<Longrightarrow> (\<And>x s'. Q x s' \<Longrightarrow> Q' x s') \<Longrightarrow> (\<And>e s'. S e s' \<Longrightarrow> S' e s') \<Longrightarrow> wp m Q' S' s"
  by (simp add: wp_def split: outcome.splits)

lemma wp_Ret_iff: "wp m (\<lambda>x s'. x = y \<and> s' = t) (\<lambda>_ _. False) s \<longleftrightarrow> m s = Ret y t"
  by (auto simp: wp_def split: outcome.splits)

section \<open>Devices and processor tables\<close>

text \<open>Calls on the \<^verbatim>\<open>uart_16550::SerialPort\<close> object; its \<open>write_str\<close> always returns \<^verbatim>\<open>Ok\<close>.\<close>

datatype serial_op = SerialPort_new u16 | SerialPort_init | Serial_write_str bytes

text \<open>Calls on the \<^verbatim>\<open>pic8259::ChainedPics\<close> object, created for two vector offsets.\<close>

datatype pic_op = Pics_initialize u8 u8 | Pics_write_masks u8 u8 | Pics_notify_end_of_interrupt u8

text \<open>The functions that a descriptor table can name; two of them belong to test binaries.\<close>

datatype handler_fn =
    breakpoint_handler_fn | invalid_opcode_handler_fn | general_protection_fault_handler_fn
  | page_fault_handler_fn | double_fault_handler_fn | keyboard_interrupt_handler_fn
  | test_page_fault_handler_fn | test_double_fault_handler_fn

record idt_entry =
  entry_handler :: handler_fn
  entry_stack_index :: "u16 option"

type_synonym idt = "u8 \<rightharpoonup> idt_entry"

section \<open>The state\<close>

record ('pt, 'h, 'g) kernel =
  WRITER :: Writer
  SERIAL1_initialized :: bool
  SHIFT :: ShiftState
  LINE :: LineBuffer
  SCANCODE_QUEUE :: ScancodeQueue
  PANICKING :: bool
  MEMORY_INFO :: "MemoryInfo option"
  held :: "lock set"
  ports :: "port_op list"
  serial_log :: "serial_op list"
  pic_log :: "pic_op list"
  keyboard_data :: u8
  interrupts_enabled :: bool
  cpu_gdt :: "'g option"
  cpu_cs :: "u16 option"
  cpu_tss :: "TaskStateSegment option"
  cpu_stack :: "u64 option"
  cpu_idt :: "idt option"
  cpu_cr2 :: u64
  page_tables :: 'pt
  heap :: 'h

text \<open>
  The initial values of the statics, over the video memory \<open>mem\<close>, the page tables and
  the empty heap; the bootloader enters the kernel with interrupts disabled.
\<close>

definition kernel_start :: "Buffer \<Rightarrow> 'pt \<Rightarrow> 'h \<Rightarrow> ('pt, 'h, 'g) kernel" where
  "kernel_start mem pt h =
     \<lparr>WRITER = Writer_init mem, SERIAL1_initialized = False, SHIFT = ShiftState_new,
      LINE = LineBuffer_new, SCANCODE_QUEUE = ScancodeQueue_new, PANICKING = False,
      MEMORY_INFO = None, held = {}, ports = [], serial_log = [], pic_log = [], keyboard_data = 0,
      interrupts_enabled = False, cpu_gdt = None, cpu_cs = None, cpu_tss = None, cpu_stack = None, cpu_idt = None,
      cpu_cr2 = 0, page_tables = pt, heap = h\<rparr>"

definition with_lock :: "lock \<Rightarrow> ('a, ('pt, 'h, 'g) kernel) prog \<Rightarrow> ('a, ('pt, 'h, 'g) kernel) prog" where
  "with_lock l m s =
     (if l \<in> held s then Stop (Spin l) s
      else case m (s\<lparr>held := insert l (held s)\<rparr>) of
        Ret x s' \<Rightarrow> Ret x (s'\<lparr>held := held s' - {l}\<rparr>)
      | Stop e s' \<Rightarrow> Stop e s')"

definition without_interrupts :: "('a, ('pt, 'h, 'g) kernel) prog \<Rightarrow> ('a, ('pt, 'h, 'g) kernel) prog" where
  "without_interrupts m =
     kbind (kget interrupts_enabled) (\<lambda>was.
     kthen (if was then kupd (\<lambda>s. s\<lparr>interrupts_enabled := False\<rparr>) else kret ())
     (kbind m (\<lambda>x.
     kthen (if was then kupd (\<lambda>s. s\<lparr>interrupts_enabled := True\<rparr>) else kret ())
     (kret x))))"

lemma wp_with_lock [wp_simps]:
  "l \<notin> held s \<Longrightarrow>
     wp (with_lock l m) Q S s =
       wp m (\<lambda>x s'. Q x (s'\<lparr>held := held s' - {l}\<rparr>)) S (s\<lparr>held := insert l (held s)\<rparr>)"
  by (simp add: wp_def with_lock_def split: outcome.splits)

lemma wp_with_lock_held: "l \<in> held s \<Longrightarrow> wp (with_lock l m) Q S s = S (Spin l) s"
  by (simp add: wp_def with_lock_def)

lemma wp_without_interrupts [wp_simps]:
  "wp (without_interrupts m) Q S s =
     (if interrupts_enabled s
      then wp m (\<lambda>x s'. Q x (s'\<lparr>interrupts_enabled := True\<rparr>)) S (s\<lparr>interrupts_enabled := False\<rparr>)
      else wp m Q S s)"
  by (simp add: without_interrupts_def wp_simps)

section \<open>The serial port\<close>

definition SERIAL_IO_PORT :: u16 where
  "SERIAL_IO_PORT = 0x3F8"

text \<open>The first access to \<^verbatim>\<open>SERIAL1\<close> creates and initialises the port.\<close>

definition SERIAL1_force :: "(unit, ('pt, 'h, 'g) kernel) prog" where
  "SERIAL1_force =
     kbind (kget SERIAL1_initialized) (\<lambda>ready.
       if ready then kret ()
       else kupd (\<lambda>s. s\<lparr>SERIAL1_initialized := True,
              serial_log := serial_log s @ [SerialPort_new SERIAL_IO_PORT, SerialPort_init]\<rparr>))"

definition serial_init :: "(unit, ('pt, 'h, 'g) kernel) prog" where
  "serial_init = SERIAL1_force"

definition serial_print :: "bytes list \<Rightarrow> (unit, ('pt, 'h, 'g) kernel) prog" where
  "serial_print args =
     without_interrupts
       (kthen SERIAL1_force
       (with_lock SERIAL1_lock
         (kfor args (\<lambda>piece. kupd (\<lambda>s. s\<lparr>serial_log := serial_log s @ [Serial_write_str piece]\<rparr>)))))"

definition serial_println :: "bytes list \<Rightarrow> (unit, ('pt, 'h, 'g) kernel) prog" where
  "serial_println args = serial_print (args @ [[newline]])"

text \<open>The text sent so far.\<close>

fun serial_bytes :: "serial_op list \<Rightarrow> bytes" where
  "serial_bytes [] = []"
| "serial_bytes (Serial_write_str p # ops) = p @ serial_bytes ops"
| "serial_bytes (_ # ops) = serial_bytes ops"

definition serial_text :: "('pt, 'h, 'g) kernel \<Rightarrow> bytes" where
  "serial_text s = serial_bytes (serial_log s)"

lemma serial_bytes_append [simp]: "serial_bytes (xs @ ys) = serial_bytes xs @ serial_bytes ys"
  by (induction xs rule: serial_bytes.induct) simp_all

lemma serial_bytes_pieces [simp]: "serial_bytes (map Serial_write_str ps) = concat ps"
  by (induction ps) simp_all

lemma kfor_serial:
  "kfor args (\<lambda>piece. kupd (\<lambda>s. s\<lparr>serial_log := serial_log s @ [Serial_write_str piece]\<rparr>)) s =
     Ret () (s\<lparr>serial_log := serial_log s @ map Serial_write_str args\<rparr>)"
  by (induction args arbitrary: s) (simp_all add: kret_def kthen_def kbind_def kupd_def)

text \<open>What a message on the serial port changes: the log, and the port is initialised.\<close>

definition sent :: "bytes list \<Rightarrow> ('pt, 'h, 'g) kernel \<Rightarrow> ('pt, 'h, 'g) kernel" where
  "sent args s = s\<lparr>SERIAL1_initialized := True,
     serial_log := serial_log s @
       (if SERIAL1_initialized s then [] else [SerialPort_new SERIAL_IO_PORT, SerialPort_init]) @
       map Serial_write_str args\<rparr>"

lemma serial_print_eq:
  "SERIAL1_lock \<notin> held s \<Longrightarrow> serial_print args s = Ret () (sent args s)"
  by (cases "interrupts_enabled s"; cases "SERIAL1_initialized s")
    (simp_all add: serial_print_def without_interrupts_def SERIAL1_force_def with_lock_def kfor_serial
      kbind_def kthen_def kget_def kupd_def kret_def sent_def)

lemma wp_serial_println [wp_simps]:
  "SERIAL1_lock \<notin> held s \<Longrightarrow> wp (serial_println args) Q S s = Q () (sent (args @ [[newline]]) s)"
  by (simp add: serial_println_def wp_def serial_print_eq)

lemma serial_text_sent [simp]: "serial_text (sent args s) = serial_text s @ concat args"
  by (simp add: serial_text_def sent_def)

end
