(* ===== verification/Panic.thy ===== *)
theory Panic
  imports Kernel_State
begin

text \<open>
  Stopping the kernel, from \<^verbatim>\<open>src/panic.rs\<close>, and the global display functions of
  \<^verbatim>\<open>src/vga_buffer.rs\<close>, whose panics go to the panic handler; the panic handlers of the
  kernel (\<^verbatim>\<open>src/main.rs\<close>), of the test binaries (\<^verbatim>\<open>src/lib.rs\<close>) and of
  \<^verbatim>\<open>tests/should_panic.rs\<close>. The version string is that of \<^verbatim>\<open>src/lib.rs\<close>.

  What the compiler and the crates provide at run time is the record \<open>env\<close>: the
  panic handler that is linked into the binary, the text of the panics the compiler inserts, the addresses of the instructions of interest, the
  masks of the page fault error code, what the processor answers to a memory access, the
  room left on the stack, and the global allocator.
\<close>

section \<open>The environment\<close>

record PanicInfo =
  panic_location :: bytes
  panic_message :: bytes

datatype fault_site = int3_site | ud2_site | read_site | write_site | call_site

datatype cpu_exception =
    Breakpoint | Invalid_opcode | General_protection_fault u64 | Page_fault u64 u64 | Double_fault

text \<open>
  The function with \<^verbatim>\<open>#[panic_handler]\<close> of the binary: the one of the kernel in
  \<^verbatim>\<open>src/main.rs\<close>, the one of the test binaries, or the one of \<^verbatim>\<open>tests/should_panic.rs\<close>.
\<close>

datatype panic_handler_fn = on_panic_fn | test_on_panic_fn | should_panic_handler_fn

record ('pt, 'h) env =
  panic_handler :: panic_handler_fn
  panic_info_of :: "rust_panic \<Rightarrow> PanicInfo"
  instruction_address :: "fault_site \<Rightarrow> u64"
  CAUSED_BY_WRITE :: u64
  PROTECTION_VIOLATION :: u64
  memory_access :: "'pt \<Rightarrow> bool \<Rightarrow> u64 \<Rightarrow> cpu_exception option"
  stack_room :: nat
  stack_guard :: u64
  heap_alloc :: "usize \<Rightarrow> usize \<Rightarrow> 'h \<Rightarrow> usize option \<times> 'h"
  heap_realloc :: "usize \<Rightarrow> usize \<Rightarrow> usize \<Rightarrow> usize \<Rightarrow> 'h \<Rightarrow> usize option \<times> 'h"
  heap_dealloc :: "usize \<Rightarrow> usize \<Rightarrow> usize \<Rightarrow> 'h \<Rightarrow> 'h"

definition VERSION :: bytes where
  "VERSION = str ''proto-os v0.4.0''"

section \<open>The panic handler\<close>

definition halt_loop :: "('a, ('pt, 'h, 'g) kernel) prog" where
  "halt_loop s = Stop Halted s"

definition enter_fatal_handler :: "(bool, ('pt, 'h, 'g) kernel) prog" where
  "enter_fatal_handler =
     kbind (kget PANICKING) (\<lambda>was. kthen (kupd (\<lambda>s. s\<lparr>PANICKING := True\<rparr>)) (kret was))"

text \<open>The pieces in which \<^verbatim>\<open>PanicInfo\<close> is displayed.\<close>

definition panic_display :: "PanicInfo \<Rightarrow> bytes list" where
  "panic_display info =
     [str ''panicked at '', panic_location info, str '':'' @ [newline], panic_message info]"

text \<open>
  A method call on the writer; \<open>on_err\<close> runs when the method panics. (The partial
  changes of a method that panics are not tracked: no method does, on a writer that is
  well-formed.)
\<close>

definition run_vga ::
  "(rust_panic \<Rightarrow> (unit, ('pt, 'h, 'g) kernel) prog) \<Rightarrow> (vga \<Rightarrow> vga res) \<Rightarrow> (unit, ('pt, 'h, 'g) kernel) prog"
where
  "run_vga on_err method s =
     (case method (WRITER s, ports s) of
        Inl p \<Rightarrow> on_err p s
      | Inr (w, io) \<Rightarrow> Ret () (s\<lparr>WRITER := w, ports := io\<rparr>))"

text \<open>
  The body of \<open>panic::handle\<close>. A panic inside it enters the handler again, where
  \<open>PANICKING\<close> is already set, so two levels are all there can be.
\<close>

definition handle_body ::
  "(rust_panic \<Rightarrow> (unit, ('pt, 'h, 'g) kernel) prog) \<Rightarrow> PanicInfo \<Rightarrow> ('a, ('pt, 'h, 'g) kernel) prog" where
  "handle_body on_err info =
     kbind enter_fatal_handler (\<lambda>reentrant.
       if reentrant then halt_loop
       else
         kthen (serial_println (str ''[PANIC] '' # panic_display info))
         (kthen (with_lock WRITER_lock
           (kthen (run_vga on_err (write_fmt [[newline] @ str ''[PANIC] '', VERSION, str '' parou: '']))
                  (run_vga on_err (write_fmt (panic_display info)))))
         halt_loop))"

definition handle :: "('pt, 'h) env \<Rightarrow> PanicInfo \<Rightarrow> ('a, ('pt, 'h, 'g) kernel) prog" where
  "handle E = handle_body (\<lambda>p. handle_body (\<lambda>_. halt_loop) (panic_info_of E p))"

definition on_panic :: "('pt, 'h) env \<Rightarrow> PanicInfo \<Rightarrow> ('a, ('pt, 'h, 'g) kernel) prog" where
  "on_panic E info = handle E info"

section \<open>The panic handlers of the test binaries\<close>

datatype QemuExitCode = Success | Failed

fun QemuExitCode_as_u32 :: "QemuExitCode \<Rightarrow> u32" where
  "QemuExitCode_as_u32 Success = 0x10"
| "QemuExitCode_as_u32 Failed = 0x11"

definition exit_qemu :: "QemuExitCode \<Rightarrow> ('a, ('pt, 'h, 'g) kernel) prog" where
  "exit_qemu code =
     kthen (kupd (\<lambda>s. s\<lparr>ports := ports s @ [Out32 0xf4 (QemuExitCode_as_u32 code)]\<rparr>)) halt_loop"

definition test_panic_handler :: "PanicInfo \<Rightarrow> ('a, ('pt, 'h, 'g) kernel) prog" where
  "test_panic_handler info =
     kthen (serial_println [str ''[failed]'' @ [newline]])
     (kthen (serial_println (str ''Error: '' # panic_display info @ [[newline]]))
     (exit_qemu Failed))"

definition test_on_panic :: "PanicInfo \<Rightarrow> ('a, ('pt, 'h, 'g) kernel) prog" where
  "test_on_panic info = test_panic_handler info"

definition should_panic_handler :: "PanicInfo \<Rightarrow> ('a, ('pt, 'h, 'g) kernel) prog" where
  "should_panic_handler info = kthen (serial_println [str ''[ok]'']) (exit_qemu Success)"

section \<open>Panics\<close>

text \<open>A panic calls the handler of the binary, which does not return.\<close>

definition call_panic_handler :: "('pt, 'h) env \<Rightarrow> PanicInfo \<Rightarrow> ('a, ('pt, 'h, 'g) kernel) prog" where
  "call_panic_handler E info =
     (case panic_handler E of
        on_panic_fn \<Rightarrow> on_panic E info
      | test_on_panic_fn \<Rightarrow> test_on_panic info
      | should_panic_handler_fn \<Rightarrow> should_panic_handler info)"

definition raise_panic :: "('pt, 'h) env \<Rightarrow> rust_panic \<Rightarrow> ('a, ('pt, 'h, 'g) kernel) prog" where
  "raise_panic E p = call_panic_handler E (panic_info_of E p)"

text \<open>The environment of the kernel's own binary.\<close>

abbreviation (input) kernel_binary :: "('pt, 'h) env \<Rightarrow> bool" where
  "kernel_binary E \<equiv> panic_handler E = on_panic_fn"

lemma call_panic_kernel: "kernel_binary E \<Longrightarrow> call_panic_handler E = handle E"
  by (simp add: call_panic_handler_def on_panic_def fun_eq_iff)

lemma call_panic_test: "panic_handler E = test_on_panic_fn \<Longrightarrow> call_panic_handler E = test_panic_handler"
  by (simp add: call_panic_handler_def test_on_panic_def fun_eq_iff)

definition kres :: "('pt, 'h) env \<Rightarrow> 'a res \<Rightarrow> ('a, ('pt, 'h, 'g) kernel) prog" where
  "kres E r = (case r of Inl p \<Rightarrow> raise_panic E p | Inr x \<Rightarrow> kret x)"

section \<open>The global display\<close>

definition print :: "('pt, 'h) env \<Rightarrow> bytes list \<Rightarrow> (unit, ('pt, 'h, 'g) kernel) prog" where
  "print E args = with_lock WRITER_lock (run_vga (raise_panic E) (write_fmt args))"

definition println :: "('pt, 'h) env \<Rightarrow> bytes list \<Rightarrow> (unit, ('pt, 'h, 'g) kernel) prog" where
  "println E args = print E (args @ [[newline]])"

definition vga_clear_screen :: "('pt, 'h) env \<Rightarrow> (unit, ('pt, 'h, 'g) kernel) prog" where
  "vga_clear_screen E = with_lock WRITER_lock (run_vga (raise_panic E) clear_screen)"

definition vga_backspace :: "('pt, 'h) env \<Rightarrow> (unit, ('pt, 'h, 'g) kernel) prog" where
  "vga_backspace E = with_lock WRITER_lock (run_vga (raise_panic E) backspace)"

section \<open>Their effect\<close>

definition on_screen :: "(vga \<Rightarrow> vga res) \<Rightarrow> ('pt, 'h, 'g) kernel \<Rightarrow> ('pt, 'h, 'g) kernel" where
  "on_screen method s =
     (case method (WRITER s, ports s) of
        Inl p \<Rightarrow> s
      | Inr (w, io) \<Rightarrow> s\<lparr>WRITER := w, ports := io\<rparr>)"

definition printed :: "bytes \<Rightarrow> ('pt, 'h, 'g) kernel \<Rightarrow> ('pt, 'h, 'g) kernel" where
  "printed text s = on_screen (write_fmt [text]) s"

lemma on_screen_fields [simp]:
  "SERIAL1_initialized (on_screen f s) = SERIAL1_initialized s"
  "SHIFT (on_screen f s) = SHIFT s"
  "LINE (on_screen f s) = LINE s"
  "SCANCODE_QUEUE (on_screen f s) = SCANCODE_QUEUE s"
  "PANICKING (on_screen f s) = PANICKING s"
  "MEMORY_INFO (on_screen f s) = MEMORY_INFO s"
  "held (on_screen f s) = held s"
  "serial_log (on_screen f s) = serial_log s"
  "pic_log (on_screen f s) = pic_log s"
  "keyboard_data (on_screen f s) = keyboard_data s"
  "interrupts_enabled (on_screen f s) = interrupts_enabled s"
  "cpu_gdt (on_screen f s) = cpu_gdt s"
  "cpu_cs (on_screen f s) = cpu_cs s"
  "cpu_tss (on_screen f s) = cpu_tss s"
  "cpu_stack (on_screen f s) = cpu_stack s"
  "cpu_idt (on_screen f s) = cpu_idt s"
  "cpu_cr2 (on_screen f s) = cpu_cr2 s"
  "page_tables (on_screen f s) = page_tables s"
  "heap (on_screen f s) = heap s"
  by (simp_all add: on_screen_def split: sum.splits)

lemma sent_fields [simp]:
  "WRITER (sent args s) = WRITER s"
  "SERIAL1_initialized (sent args s)"
  "SHIFT (sent args s) = SHIFT s"
  "LINE (sent args s) = LINE s"
  "SCANCODE_QUEUE (sent args s) = SCANCODE_QUEUE s"
  "PANICKING (sent args s) = PANICKING s"
  "MEMORY_INFO (sent args s) = MEMORY_INFO s"
  "held (sent args s) = held s"
  "ports (sent args s) = ports s"
  "pic_log (sent args s) = pic_log s"
  "keyboard_data (sent args s) = keyboard_data s"
  "interrupts_enabled (sent args s) = interrupts_enabled s"
  "cpu_gdt (sent args s) = cpu_gdt s"
  "cpu_cs (sent args s) = cpu_cs s"
  "cpu_tss (sent args s) = cpu_tss s"
  "cpu_stack (sent args s) = cpu_stack s"
  "cpu_idt (sent args s) = cpu_idt s"
  "cpu_cr2 (sent args s) = cpu_cr2 s"
  "page_tables (sent args s) = page_tables s"
  "heap (sent args s) = heap s"
  by (simp_all add: sent_def)

text \<open>Printing in pieces is printing the text; the lock does not matter to the effect.\<close>

lemma write_fmt_concat: "write_fmt args = write_fmt [concat args]"
  by (simp add: fun_eq_iff write_fmt_pieces vga_sink.write_all_concat)

lemma on_screen_print: "on_screen (write_fmt args) s = printed (concat args) s"
  by (simp add: printed_def write_fmt_concat [of args])

lemma on_screen_lock:
  "on_screen f (s\<lparr>held := L\<rparr>) = (on_screen f s)\<lparr>held := L\<rparr>"
  by (simp add: on_screen_def split: sum.splits)

lemma printed_lock: "printed text (s\<lparr>held := L\<rparr>) = (printed text s)\<lparr>held := L\<rparr>"
  by (simp add: printed_def on_screen_lock)

lemma printed_fields [simp]:
  "SERIAL1_initialized (printed text s) = SERIAL1_initialized s"
  "SHIFT (printed text s) = SHIFT s"
  "LINE (printed text s) = LINE s"
  "SCANCODE_QUEUE (printed text s) = SCANCODE_QUEUE s"
  "PANICKING (printed text s) = PANICKING s"
  "MEMORY_INFO (printed text s) = MEMORY_INFO s"
  "held (printed text s) = held s"
  "serial_log (printed text s) = serial_log s"
  "pic_log (printed text s) = pic_log s"
  "keyboard_data (printed text s) = keyboard_data s"
  "interrupts_enabled (printed text s) = interrupts_enabled s"
  "cpu_gdt (printed text s) = cpu_gdt s"
  "cpu_cs (printed text s) = cpu_cs s"
  "cpu_tss (printed text s) = cpu_tss s"
  "cpu_stack (printed text s) = cpu_stack s"
  "cpu_idt (printed text s) = cpu_idt s"
  "cpu_cr2 (printed text s) = cpu_cr2 s"
  "page_tables (printed text s) = page_tables s"
  "heap (printed text s) = heap s"
  by (simp_all add: printed_def)

lemma shows_printed:
  "shows_tty (WRITER s) t \<Longrightarrow> shows_tty (WRITER (printed text s)) (tty_write text t)"
  using write_fmt_shows [of "WRITER s" t "[text]" "ports s"] by (auto simp: printed_def on_screen_def)

lemma write_fmt_total: "writer_wf w \<Longrightarrow> \<exists>s'. write_fmt args (w, io) = Inr s' \<and> writer_wf (fst s')"
  using vga_wf_sink.write_pieces_refines [of "(w, io)" args] by (simp add: write_fmt_pieces)

lemma printed_wf: "writer_wf (WRITER s) \<Longrightarrow> writer_wf (WRITER (printed text s))"
  using write_fmt_total [of "WRITER s" "[text]" "ports s"] by (auto simp: printed_def on_screen_def)

lemma run_vga_total:
  "\<exists>s'. method (WRITER s, ports s) = Inr s' \<Longrightarrow> run_vga on_err method s = Ret () (on_screen method s)"
  by (auto simp: run_vga_def on_screen_def)

lemma run_vga_print:
  "writer_wf (WRITER s) \<Longrightarrow> run_vga on_err (write_fmt args) s = Ret () (printed (concat args) s)"
  using write_fmt_total [of "WRITER s" args "ports s"]
  by (simp add: run_vga_total on_screen_print [symmetric]) (metis run_vga_total)

lemma held_same: "held s = L \<Longrightarrow> s\<lparr>held := L\<rparr> = s"
  by auto

lemma wp_run_vga_print [wp_simps]:
  "writer_wf (WRITER s) \<Longrightarrow>
     wp (run_vga on_err (write_fmt args)) Q S s = Q () (printed (concat args) s)"
  by (simp add: wp_def run_vga_print)

lemma wp_print [wp_simps]:
  assumes "WRITER_lock \<notin> held s" and "writer_wf (WRITER s)"
  shows "wp (print E args) Q S s = Q () (printed (concat args) s)"
  using assms by (simp add: print_def wp_simps printed_lock held_same)

lemma wp_println [wp_simps]:
  assumes "WRITER_lock \<notin> held s" and "writer_wf (WRITER s)"
  shows "wp (println E args) Q S s = Q () (printed (concat args @ [newline]) s)"
  using assms by (simp add: println_def wp_simps)

lemma wp_halt_loop [wp_simps]: "wp halt_loop Q S s = S Halted s"
  by (simp add: wp_def halt_loop_def)

lemma wp_enter_fatal_handler [wp_simps]:
  "wp enter_fatal_handler Q S s = Q (PANICKING s) (s\<lparr>PANICKING := True\<rparr>)"
  by (simp add: enter_fatal_handler_def wp_simps)

lemma clear_screen_total: "writer_wf w \<Longrightarrow> clear_screen (w, io) = Inr (cleared w, io @ cursor_ops 0)"
  by (simp add: clear_screen_eq writer_wf_def)

definition screen_cleared :: "('pt, 'h, 'g) kernel \<Rightarrow> ('pt, 'h, 'g) kernel" where
  "screen_cleared s = on_screen clear_screen s"

definition screen_erased :: "('pt, 'h, 'g) kernel \<Rightarrow> ('pt, 'h, 'g) kernel" where
  "screen_erased s = on_screen backspace s"

lemma wp_vga_clear_screen [wp_simps]:
  assumes "WRITER_lock \<notin> held s" and "writer_wf (WRITER s)"
  shows "wp (vga_clear_screen E) Q S s = Q () (screen_cleared s)"
  using assms
  by (simp add: vga_clear_screen_def wp_simps)
    (simp add: wp_def run_vga_total clear_screen_total on_screen_lock held_same screen_cleared_def)

lemma wp_vga_backspace [wp_simps]:
  assumes "WRITER_lock \<notin> held s" and "writer_wf (WRITER s)"
  shows "wp (vga_backspace E) Q S s = Q () (screen_erased s)"
  using assms
  by (simp add: vga_backspace_def wp_simps)
    (simp add: wp_def run_vga_total backspace_eq on_screen_lock held_same screen_erased_def)

lemma shows_screen_cleared: "writer_wf (WRITER s) \<Longrightarrow> shows_tty (WRITER (screen_cleared s)) tty_empty"
  by (simp add: screen_cleared_def on_screen_def clear_screen_total shows_cleared)

lemma shows_screen_erased: "shows_tty (WRITER s) t \<Longrightarrow> shows_tty (WRITER (screen_erased s)) (tty_erase t)"
  using shows_tty_wf [of "WRITER s" t]
  by (simp add: screen_erased_def on_screen_def backspace_eq shows_erased)

lemma write_fmt_one: "write_fmt [t] v = for_each t write_string_byte v"
  by (cases "for_each t write_string_byte v") (simp_all add: write_fmt_pieces)

lemma printed_twice:
  assumes "writer_wf (WRITER s)"
  shows "printed u (printed t s) = printed (t @ u) s"
proof -
  obtain w io where t: "for_each t write_string_byte (WRITER s, ports s) = Inr (w, io)" "writer_wf w"
    using write_fmt_total [OF assms, of "[t]" "ports s"] by (auto simp: write_fmt_one)
  obtain v where "for_each u write_string_byte (w, io) = Inr v"
    using write_fmt_total [OF t(2), of "[u]" io] by (auto simp: write_fmt_one)
  with t(1) show ?thesis
    by (simp add: printed_def on_screen_def write_fmt_one for_each_append split: prod.splits)
qed

lemma panicking_same: "PANICKING s \<Longrightarrow> s\<lparr>PANICKING := True\<rparr> = s"
  by simp

lemma serial_text_printed [simp]:
  "serial_text (printed t s) = serial_text s"
  "serial_text (screen_cleared s) = serial_text s"
  "serial_text (screen_erased s) = serial_text s"
  by (simp_all add: serial_text_def screen_cleared_def screen_erased_def)

lemma serial_text_panicking [simp]:
  "serial_text (s\<lparr>PANICKING := b\<rparr>) = serial_text s"
  by (simp add: serial_text_def)

section \<open>Properties\<close>

lemma wp_handle_first:
  assumes "\<not> PANICKING s" and "WRITER_lock \<notin> held s" and "SERIAL1_lock \<notin> held s" and "writer_wf (WRITER s)"
  shows "wp (handle E info) Q S s =
    S Halted (printed (newline # str ''[PANIC] '' @ VERSION @ str '' parou: '' @ concat (panic_display info))
      (sent (str ''[PANIC] '' # panic_display info @ [[newline]]) (s\<lparr>PANICKING := True\<rparr>)))"
  using assms
  by (simp add: handle_def handle_body_def wp_simps printed_lock held_same printed_wf printed_twice)

lemma wp_handle_again: "PANICKING s \<Longrightarrow> wp (handle E info) Q S s = S Halted s"
  by (simp add: handle_def handle_body_def wp_simps panicking_same)

text \<open>What the panic handler of the binary sends, and what shows that it has run.\<close>

definition exited :: "QemuExitCode \<Rightarrow> ('pt, 'h, 'g) kernel \<Rightarrow> bool" where
  "exited code s \<longleftrightarrow> ports s \<noteq> [] \<and> last (ports s) = Out32 0xf4 (QemuExitCode_as_u32 code)"

definition failure_text :: "PanicInfo \<Rightarrow> bytes" where
  "failure_text info = str ''[failed]'' @ [newline, newline] @ str ''Error: '' @ concat (panic_display info) @
     [newline, newline]"

definition panic_report :: "('pt, 'h) env \<Rightarrow> PanicInfo \<Rightarrow> bytes" where
  "panic_report E info =
     (case panic_handler E of
        on_panic_fn \<Rightarrow> str ''[PANIC] '' @ concat (panic_display info) @ [newline]
      | test_on_panic_fn \<Rightarrow> failure_text info
      | should_panic_handler_fn \<Rightarrow> str ''[ok]'' @ [newline])"

definition panic_over :: "('pt, 'h) env \<Rightarrow> ('pt, 'h, 'g) kernel \<Rightarrow> bool" where
  "panic_over E s =
     (case panic_handler E of
        on_panic_fn \<Rightarrow> PANICKING s
      | test_on_panic_fn \<Rightarrow> exited Failed s
      | should_panic_handler_fn \<Rightarrow> exited Success s)"

definition panicked :: "('pt, 'h) env \<Rightarrow> PanicInfo \<Rightarrow> ('pt, 'h, 'g) kernel \<Rightarrow> ('pt, 'h, 'g) kernel \<Rightarrow> bool" where
  "panicked E info s s' \<longleftrightarrow> panic_over E s' \<and> serial_text s' = serial_text s @ panic_report E info \<and> heap s' = heap s"

lemma serial_text_ports [simp]: "serial_text (s\<lparr>ports := io\<rparr>) = serial_text s"
  by (simp add: serial_text_def)

lemma wp_exit_qemu [wp_simps]:
  "wp (exit_qemu code) Q S s = S Halted (s\<lparr>ports := ports s @ [Out32 0xf4 (QemuExitCode_as_u32 code)]\<rparr>)"
  by (simp add: exit_qemu_def wp_simps)

lemma wp_test_panic_handler:
  "SERIAL1_lock \<notin> held s \<Longrightarrow>
     wp (test_panic_handler info) Q S s = S Halted
       ((sent (str ''Error: '' # panic_display info @ [[newline], [newline]]) (sent [str ''[failed]'' @ [newline], [newline]] s))
         \<lparr>ports := ports s @ [Out32 0xf4 (QemuExitCode_as_u32 Failed)]\<rparr>)"
  by (simp add: test_panic_handler_def wp_simps del: str_simps)

lemma wp_should_panic_handler:
  "SERIAL1_lock \<notin> held s \<Longrightarrow>
     wp (should_panic_handler info) Q S s = S Halted
       ((sent [str ''[ok]'', [newline]] s)\<lparr>ports := ports s @ [Out32 0xf4 (QemuExitCode_as_u32 Success)]\<rparr>)"
  by (simp add: should_panic_handler_def wp_simps del: str_simps)

lemma wp_call_panic:
  assumes "\<not> PANICKING s" and "WRITER_lock \<notin> held s" and "SERIAL1_lock \<notin> held s" and "writer_wf (WRITER s)"
    and "\<And>s'. panicked E info s s' \<Longrightarrow> S Halted s'"
  shows "wp (call_panic_handler E info) Q S s"
  using assms(1-4)
  by (cases "panic_handler E")
    (auto simp: call_panic_handler_def on_panic_def test_on_panic_def wp_handle_first wp_test_panic_handler wp_should_panic_handler
      panicked_def panic_over_def panic_report_def failure_text_def exited_def simp del: str_simps intro!: assms(5))

lemma wp_StopD: "wp m (\<lambda>_ _. False) (\<lambda>e s'. e = f \<and> P s') s \<Longrightarrow> \<exists>s'. m s = Stop f s' \<and> P s'"
  by (auto simp: wp_def split: outcome.splits)

text \<open>
  A concrete environment: pages are mapped by a plain map, the heap is the list of its live
  blocks, each new one after the last.
\<close>

type_synonym example_tables = "u64 \<rightharpoonup> u64 \<times> PageTableFlag set"
type_synonym example_heap = "(usize \<times> usize) list"
type_synonym example_gdt = "TaskStateSegment option list"

definition example_fits :: "usize \<Rightarrow> usize \<Rightarrow> example_heap \<Rightarrow> usize \<Rightarrow> bool" where
  "example_fits sz align h a \<longleftrightarrow> align dvd a \<and> a + sz \<le> HEAP_START + HEAP_SIZE \<and>
     list_all (\<lambda>(q, n). q \<noteq> a \<and> (a + sz \<le> q \<or> q + n \<le> a)) h"

definition example_alloc :: "usize \<Rightarrow> usize \<Rightarrow> example_heap \<Rightarrow> usize option \<times> example_heap" where
  "example_alloc sz align h =
     (case find (example_fits sz align h) [HEAP_START..<HEAP_START + HEAP_SIZE] of
        None \<Rightarrow> (None, h)
      | Some a \<Rightarrow> (Some a, (a, sz) # h))"

definition example_env :: "(example_tables, example_heap) env" where
  "example_env =
     \<lparr>panic_handler = on_panic_fn, panic_info_of = (\<lambda>p. \<lparr>panic_location = str ''src/x.rs:1:1'', panic_message = str ''panic''\<rparr>),
      instruction_address = (\<lambda>_. 0x200000), CAUSED_BY_WRITE = 2, PROTECTION_VIOLATION = 1,
      memory_access = (\<lambda>pt write a.
        if 2 ^ 47 \<le> a then Some (General_protection_fault 0)
        else case pt (a - a mod 4096) of
            Some (f, flags) \<Rightarrow> if PRESENT \<in> flags then None else Some (Page_fault a (if write then 2 else 0))
          | None \<Rightarrow> Some (Page_fault a (if write then 2 else 0))),
      stack_room = 3, stack_guard = 0x57ac8f000, heap_alloc = example_alloc,
      heap_realloc = (\<lambda>ptr old align new h.
        case example_alloc new align h of
          (None, h) \<Rightarrow> (None, h) | (Some a, h) \<Rightarrow> (Some a, removeAll (ptr, old) h)),
      heap_dealloc = (\<lambda>ptr sz align h. removeAll (ptr, sz) h)\<rparr>"

lemma example_kernel_binary: "kernel_binary example_env"
  by (simp add: example_env_def)

definition example_kernel :: "(example_tables, example_heap, example_gdt) kernel" where
  "example_kernel = (kernel_start [] Map.empty [])\<lparr>WRITER := blank_writer\<rparr>"

lemma example_kernel_fields [simp]:
  "\<not> PANICKING example_kernel" "held example_kernel = {}" "WRITER example_kernel = blank_writer"
  by (simp_all add: example_kernel_def kernel_start_def)

text \<open>
  The first panic, with neither the display nor the serial port locked, is reported
  on both and parks the processor: the serial port gets the whole message on one line, and
  the screen shows it after what was there, under the name of the kernel.
\<close>

lemma panic_reported:
  assumes "\<not> PANICKING s" and "WRITER_lock \<notin> held s" and "SERIAL1_lock \<notin> held s"
    and "shows_tty (WRITER s) t"
  shows "\<exists>s'. handle E info s = Stop Halted s' \<and> PANICKING s' \<and>
    serial_text s' = serial_text s @ str ''[PANIC] '' @ concat (panic_display info) @ [newline] \<and>
    shows_tty (WRITER s') (tty_write
      (newline # str ''[PANIC] '' @ VERSION @ str '' parou: '' @ concat (panic_display info)) t)"
  using assms shows_tty_wf [OF assms(4)]
  by (intro wp_StopD) (simp add: wp_handle_first shows_printed serial_text_printed serial_text_panicking)

text \<open>
  C26. A second fatal event changes nothing: while a panic or a fatal exception is being
  handled, a panic parks the processor at once, whatever locks are held, and leaves the
  screen and the serial port as the first event left them.
\<close>

theorem panic_reentrant:
  assumes "PANICKING s"
  shows "handle E info s = Stop Halted s"
  using wp_StopD [of "handle E info" Halted "\<lambda>s'. s' = s" s] assms by (simp add: wp_handle_again)

theorem panic_reentrant_witness:
  "handle example_env \<lparr>panic_location = [], panic_message = []\<rparr>
     (example_kernel\<lparr>PANICKING := True, held := {WRITER_lock, SERIAL1_lock}\<rparr>) =
   Stop Halted (example_kernel\<lparr>PANICKING := True, held := {WRITER_lock, SERIAL1_lock}\<rparr>)"
  by (rule panic_reentrant) simp

end
