(* ===== verification/Test_Support.thy ===== *)
theory Test_Support
  imports Panic
begin

text \<open>
  What test binaries need below the interrupt table: assertions, and the two exception
  handlers that \<^verbatim>\<open>tests/page_fault.rs\<close> and \<^verbatim>\<open>tests/double_fault.rs\<close> put into a table of
  their own.
\<close>

section \<open>Assertions\<close>

definition assert_that :: "('pt, 'h) env \<Rightarrow> bool \<Rightarrow> (unit, ('pt, 'h, 'g) kernel) prog" where
  "assert_that E b = (if b then kret () else raise_panic E AssertionFailed)"

section \<open>Handlers of test binaries\<close>

definition endereco_esperado :: "u64 res" where
  "endereco_esperado = usize_add HEAP_START HEAP_SIZE"

definition test_page_fault_handler :: "('pt, 'h) env \<Rightarrow> (unit, ('pt, 'h, 'g) kernel) prog" where
  "test_page_fault_handler E =
     kbind (kget cpu_cr2) (\<lambda>fault_address.
     kbind (kres E endereco_esperado) (\<lambda>esperado.
       if fault_address = esperado then exit_qemu Success
       else
         kthen (serial_println [str ''endereco de falha inesperado: esperava '', fmt_hex esperado,
                  str '', recebeu '', fmt_hex fault_address])
         (exit_qemu Failed)))"

definition test_double_fault_handler :: "(unit, ('pt, 'h, 'g) kernel) prog" where
  "test_double_fault_handler = exit_qemu Success"

end
