(* ===== verification/Interrupts.thy ===== *)
theory Interrupts
  imports Test_Support
begin

text \<open>
  The interrupt descriptor table, the exception handlers, the keyboard interrupt and the
  programming of the interrupt controllers, from \<^verbatim>\<open>src/interrupts.rs\<close>. Beside the
  handlers stands what the processor does with the table: \<open>deliver\<close> calls the handler of
  an exception, on the interrupted stack or on a stack of the interrupt stack table, turns
  an exception it cannot deliver into a double fault, and stops by a triple fault when
  that cannot be delivered either.
\<close>

section \<open>Constants and the table\<close>

definition PIC_1_OFFSET :: u8 where
  "PIC_1_OFFSET = 32"

definition PIC_2_OFFSET :: u8 where
  "PIC_2_OFFSET = PIC_1_OFFSET + 8"

definition KEYBOARD_INTERRUPT_VECTOR :: u8 where
  "KEYBOARD_INTERRUPT_VECTOR = PIC_1_OFFSET + 1"

definition MASTER_PIC_MASK :: u8 where
  "MASTER_PIC_MASK = 0b11111101"

definition SLAVE_PIC_MASK :: u8 where
  "SLAVE_PIC_MASK = 0b11111111"

definition set_handler_fn :: "handler_fn \<Rightarrow> idt_entry" where
  "set_handler_fn f = \<lparr>entry_handler = f, entry_stack_index = None\<rparr>"

definition IDT :: idt where
  "IDT = Map.empty
     (3 \<mapsto> set_handler_fn breakpoint_handler_fn,
      6 \<mapsto> set_handler_fn invalid_opcode_handler_fn,
      13 \<mapsto> set_handler_fn general_protection_fault_handler_fn,
      14 \<mapsto> set_handler_fn page_fault_handler_fn,
      8 \<mapsto> (set_handler_fn double_fault_handler_fn)\<lparr>entry_stack_index := Some DOUBLE_FAULT_IST_INDEX\<rparr>,
      KEYBOARD_INTERRUPT_VECTOR \<mapsto> set_handler_fn keyboard_interrupt_handler_fn)"

section \<open>Fatal exceptions\<close>

text \<open>\<open>contains\<close> as the crate documents it: all bits of the flag are set in the code.\<close>

definition contains :: "u64 \<Rightarrow> u64 \<Rightarrow> bool" where
  "contains code flag \<longleftrightarrow> code AND flag = flag"

definition page_fault_words :: "('pt, 'h) env \<Rightarrow> u64 \<Rightarrow> bytes \<times> bytes" where
  "page_fault_words E code =
     (if contains code (CAUSED_BY_WRITE E) then str ''escrita'' else str ''leitura'',
      if contains code (PROTECTION_VIOLATION E) then str ''violacao de protecao'' else str ''pagina ausente'')"

text \<open>The lines that follow the heading, on the serial port and on the screen.\<close>

definition exception_details ::
  "(bytes list \<Rightarrow> (unit, 's) prog) \<Rightarrow> u64 \<Rightarrow> u64 option \<Rightarrow> (u64 \<times> bytes \<times> bytes) option \<Rightarrow> (unit, 's) prog"
where
  "exception_details writeln address error_code words =
     kthen (writeln [str ''endereco da instrucao: '', fmt_hex address])
     (kthen (case error_code of
               None \<Rightarrow> kret ()
             | Some code \<Rightarrow> writeln [str ''codigo de erro: '', fmt_hex code])
     (case words of
        None \<Rightarrow> kret ()
      | Some (fault_address, acesso, causa) \<Rightarrow>
          kthen (writeln [str ''endereco de falha: '', fmt_hex fault_address])
          (kthen (writeln [str ''acesso: '', acesso])
          (writeln [str ''causa: '', causa]))))"

text \<open>The dash of the reentrant message, in UTF-8.\<close>

definition em_dash :: bytes where
  "em_dash = [0xe2, 0x80, 0x94]"

definition fatal_exception ::
  "('pt, 'h) env \<Rightarrow> bytes \<Rightarrow> bytes \<Rightarrow> u64 \<Rightarrow> u64 option \<Rightarrow> (u64 \<times> u64) option \<Rightarrow>
     ('a, ('pt, 'h, 'g) kernel) prog"
where
  "fatal_exception E name mnemonic instruction_pointer error_code page_fault_info =
     kbind enter_fatal_handler (\<lambda>reentrant.
       if reentrant then
         kthen (serial_println [str ''[EXCEPTION] '', name, str '' ('', mnemonic, str '') reentrante '',
                  em_dash, str '' '', VERSION, str '' parou''])
         halt_loop
       else
         let address = instruction_pointer;
             words = map_option (\<lambda>(fault_address, code). (fault_address, page_fault_words E code)) page_fault_info
         in
         kthen (serial_println [str ''[EXCEPTION] '', name, str '' ('', mnemonic, str '')''])
         (kthen (exception_details serial_println address error_code words)
         (kthen (serial_println [VERSION])
         (kthen (with_lock WRITER_lock
           (kthen (run_vga (raise_panic E) (write_fmt [[newline] @ str ''[EXCEPTION] '', name, str '' ('', mnemonic,
                     str '') - '', VERSION, str '' parou'' @ [newline]]))
                  (exception_details (\<lambda>args. run_vga (raise_panic E) (write_fmt (args @ [[newline]])))
                     address error_code words)))
         halt_loop))))"

section \<open>The handlers\<close>

definition breakpoint_handler :: "('pt, 'h) env \<Rightarrow> u64 \<Rightarrow> (unit, ('pt, 'h, 'g) kernel) prog" where
  "breakpoint_handler E instruction_pointer =
     kthen (serial_println [str ''[EXCEPTION] breakpoint (int3)''])
     (println E [str ''[EXCEPTION] breakpoint (#BP) em '', fmt_hex instruction_pointer])"

definition invalid_opcode_handler :: "('pt, 'h) env \<Rightarrow> u64 \<Rightarrow> (unit, ('pt, 'h, 'g) kernel) prog" where
  "invalid_opcode_handler E instruction_pointer =
     fatal_exception E (str ''Invalid Opcode'') (str ''#UD'') instruction_pointer None None"

definition general_protection_fault_handler ::
  "('pt, 'h) env \<Rightarrow> u64 \<Rightarrow> u64 \<Rightarrow> (unit, ('pt, 'h, 'g) kernel) prog" where
  "general_protection_fault_handler E instruction_pointer error_code =
     fatal_exception E (str ''General Protection Fault'') (str ''#GP'') instruction_pointer (Some error_code) None"

definition page_fault_handler ::
  "('pt, 'h) env \<Rightarrow> u64 \<Rightarrow> u64 \<Rightarrow> (unit, ('pt, 'h, 'g) kernel) prog" where
  "page_fault_handler E instruction_pointer error_code =
     kbind (kget cpu_cr2) (\<lambda>fault_address.
     fatal_exception E (str ''Page Fault'') (str ''#PF'') instruction_pointer (Some error_code)
       (Some (fault_address, error_code)))"

definition double_fault_handler ::
  "('pt, 'h) env \<Rightarrow> u64 \<Rightarrow> u64 \<Rightarrow> (unit, ('pt, 'h, 'g) kernel) prog" where
  "double_fault_handler E instruction_pointer error_code =
     fatal_exception E (str ''Double Fault'') (str ''#DF'') instruction_pointer None None"

definition keyboard_interrupt_handler :: "('pt, 'h) env \<Rightarrow> (unit, ('pt, 'h, 'g) kernel) prog" where
  "keyboard_interrupt_handler E =
     kbind (kget keyboard_data) (\<lambda>scancode.
     kthen (with_lock SCANCODE_QUEUE_lock
       (kbind (kget SCANCODE_QUEUE) (\<lambda>q.
        kbind (kres E (ScancodeQueue_push scancode q)) (\<lambda>q'.
        kupd (\<lambda>s. s\<lparr>SCANCODE_QUEUE := q'\<rparr>)))))
     (with_lock PICS_lock
       (kupd (\<lambda>s. s\<lparr>pic_log := pic_log s @ [Pics_notify_end_of_interrupt KEYBOARD_INTERRUPT_VECTOR]\<rparr>))))"

definition next_scancode :: "('pt, 'h) env \<Rightarrow> (u8 option, ('pt, 'h, 'g) kernel) prog" where
  "next_scancode E =
     with_lock SCANCODE_QUEUE_lock
       (kbind (kget SCANCODE_QUEUE) (\<lambda>q.
        kbind (kres E (ScancodeQueue_pop q)) (\<lambda>(r, q').
        kthen (kupd (\<lambda>s. s\<lparr>SCANCODE_QUEUE := q'\<rparr>)) (kret r))))"

definition interrupts_init :: "(unit, ('pt, 'h, 'g) kernel) prog" where
  "interrupts_init =
     kthen (kupd (\<lambda>s. s\<lparr>cpu_idt := Some IDT\<rparr>))
     (kthen (with_lock PICS_lock
        (kupd (\<lambda>s. s\<lparr>pic_log := pic_log s @ [Pics_initialize PIC_1_OFFSET PIC_2_OFFSET]\<rparr>)))
     (with_lock PICS_lock
        (kupd (\<lambda>s. s\<lparr>pic_log := pic_log s @ [Pics_write_masks MASTER_PIC_MASK SLAVE_PIC_MASK]\<rparr>))))"

section \<open>The processor\<close>

fun vector_of :: "cpu_exception \<Rightarrow> u8" where
  "vector_of Breakpoint = 3"
| "vector_of Invalid_opcode = 6"
| "vector_of (General_protection_fault _) = 13"
| "vector_of (Page_fault _ _) = 14"
| "vector_of Double_fault = 8"

fun error_code_of :: "cpu_exception \<Rightarrow> u64" where
  "error_code_of (General_protection_fault code) = code"
| "error_code_of (Page_fault _ code) = code"
| "error_code_of _ = 0"

fun run_handler :: "('pt, 'h) env \<Rightarrow> handler_fn \<Rightarrow> u64 \<Rightarrow> u64 \<Rightarrow> (unit, ('pt, 'h, 'g) kernel) prog" where
  "run_handler E breakpoint_handler_fn ip code = breakpoint_handler E ip"
| "run_handler E invalid_opcode_handler_fn ip code = invalid_opcode_handler E ip"
| "run_handler E general_protection_fault_handler_fn ip code = general_protection_fault_handler E ip code"
| "run_handler E page_fault_handler_fn ip code = page_fault_handler E ip code"
| "run_handler E double_fault_handler_fn ip code = double_fault_handler E ip code"
| "run_handler E keyboard_interrupt_handler_fn ip code = keyboard_interrupt_handler E"
| "run_handler E test_page_fault_handler_fn ip code = test_page_fault_handler E"
| "run_handler E test_double_fault_handler_fn ip code = test_double_fault_handler"

text \<open>
  A handler whose entry has a stack index runs on the stack that the loaded task state
  segment has in this slot, and returning from it goes back to the old stack.
  Every handler runs with interrupts disabled; returning from it restores the flag.
\<close>

definition on_stack :: "u16 option \<Rightarrow> (unit, ('pt, 'h, 'g) kernel) prog \<Rightarrow> (unit, ('pt, 'h, 'g) kernel) prog" where
  "on_stack index handler =
     (case index of
        None \<Rightarrow> handler
      | Some i \<Rightarrow>
          kbind (kget cpu_stack) (\<lambda>old.
          kthen (kupd (\<lambda>s. s\<lparr>cpu_stack := ist_pointer i (cpu_tss s)\<rparr>))
          (kthen handler
          (kupd (\<lambda>s. s\<lparr>cpu_stack := old\<rparr>)))))"

definition call_handler ::
  "('pt, 'h) env \<Rightarrow> idt_entry \<Rightarrow> u64 \<Rightarrow> u64 \<Rightarrow> (unit, ('pt, 'h, 'g) kernel) prog" where
  "call_handler E entry ip code =
     kbind (kget interrupts_enabled) (\<lambda>was.
     kthen (kupd (\<lambda>s. s\<lparr>interrupts_enabled := False\<rparr>))
     (kthen (on_stack (entry_stack_index entry) (run_handler E (entry_handler entry) ip code))
     (kupd (\<lambda>s. s\<lparr>interrupts_enabled := was\<rparr>))))"

text \<open>
  An entry can be entered on the interrupted stack, if that is usable, or on the stack of
  its index, if the loaded task state segment has a stack in that slot.
\<close>

definition entry_usable :: "bool \<Rightarrow> ('pt, 'h, 'g) kernel \<Rightarrow> idt_entry \<Rightarrow> bool" where
  "entry_usable stack_ok s entry =
     (case entry_stack_index entry of None \<Rightarrow> stack_ok | Some i \<Rightarrow> ist_pointer i (cpu_tss s) \<noteq> None)"

definition deliver_vector ::
  "('pt, 'h) env \<Rightarrow> bool \<Rightarrow> u8 \<Rightarrow> u64 \<Rightarrow> u64 \<Rightarrow> (unit, ('pt, 'h, 'g) kernel) prog \<Rightarrow>
     (unit, ('pt, 'h, 'g) kernel) prog" where
  "deliver_vector E stack_ok v ip code otherwise s =
     (case cpu_idt s of
        None \<Rightarrow> Stop Triple_fault s
      | Some idt \<Rightarrow>
          (case idt v of
             None \<Rightarrow> otherwise s
           | Some entry \<Rightarrow>
               if entry_usable stack_ok s entry then call_handler E entry ip code s else otherwise s))"

definition deliver ::
  "('pt, 'h) env \<Rightarrow> bool \<Rightarrow> u64 \<Rightarrow> cpu_exception \<Rightarrow> (unit, ('pt, 'h, 'g) kernel) prog" where
  "deliver E stack_ok ip ex =
     kthen (case ex of Page_fault a _ \<Rightarrow> kupd (\<lambda>s. s\<lparr>cpu_cr2 := a\<rparr>) | _ \<Rightarrow> kret ())
     (deliver_vector E stack_ok (vector_of ex) ip (error_code_of ex)
       (deliver_vector E stack_ok (vector_of Double_fault) ip 0 (\<lambda>s. Stop Triple_fault s)))"

text \<open>The keyboard raises IRQ1 with a scancode; the processor takes it when interrupts are enabled.\<close>

definition keyboard_irq :: "('pt, 'h) env \<Rightarrow> u8 \<Rightarrow> (unit, ('pt, 'h, 'g) kernel) prog" where
  "keyboard_irq E scancode =
     kthen (kupd (\<lambda>s. s\<lparr>keyboard_data := scancode\<rparr>))
     (deliver_vector E True KEYBOARD_INTERRUPT_VECTOR 0 0 (\<lambda>s. Stop Triple_fault s))"

section \<open>The text of a report\<close>

definition details_lines :: "u64 \<Rightarrow> u64 option \<Rightarrow> (u64 \<times> bytes \<times> bytes) option \<Rightarrow> bytes list list" where
  "details_lines address error_code words =
     [str ''endereco da instrucao: '', fmt_hex address] #
     (case error_code of None \<Rightarrow> [] | Some code \<Rightarrow> [[str ''codigo de erro: '', fmt_hex code]]) @
     (case words of
        None \<Rightarrow> []
      | Some (fault_address, acesso, causa) \<Rightarrow>
          [[str ''endereco de falha: '', fmt_hex fault_address], [str ''acesso: '', acesso], [str ''causa: '', causa]])"

definition details_text :: "u64 \<Rightarrow> u64 option \<Rightarrow> (u64 \<times> bytes \<times> bytes) option \<Rightarrow> bytes" where
  "details_text address error_code words =
     concat (map (\<lambda>l. concat l @ [newline]) (details_lines address error_code words))"

lemma kthen_assoc: "kthen (kthen m n) p = kthen m (kthen n p)"
  by (simp add: fun_eq_iff kthen_def kbind_def split: outcome.splits)

lemma kthen_kret [simp]: "kthen m (kret ()) = m" "kthen (kret ()) m = m"
  by (simp_all add: fun_eq_iff kthen_def kbind_def kret_def split: outcome.splits)

lemma exception_details_kfor:
  "exception_details writeln address error_code words =
     kfor (details_lines address error_code words) writeln"
  by (simp add: exception_details_def details_lines_def kthen_assoc split: option.splits prod.splits)

lemma sent_sent: "sent b (sent a s) = sent (a @ b) s"
  by (simp add: sent_def)

lemma sent_Nil: "SERIAL1_initialized s \<Longrightarrow> sent [] s = s"
  by (simp add: sent_def)

lemma wp_kfor_serial:
  "SERIAL1_lock \<notin> held s \<Longrightarrow> lines \<noteq> [] \<Longrightarrow>
     wp (kfor lines serial_println) Q S s = Q () (sent (concat (map (\<lambda>l. l @ [[newline]]) lines)) s)"
proof (induction lines arbitrary: s)
  case Nil
  then show ?case by simp
next
  case (Cons l lines)
  then show ?case by (cases "lines = []") (simp_all add: wp_simps sent_sent)
qed

lemma wp_kfor_screen:
  "writer_wf (WRITER s) \<Longrightarrow> lines \<noteq> [] \<Longrightarrow>
     wp (kfor lines (\<lambda>args. run_vga on_err (write_fmt (args @ [[newline]])))) Q S s =
       Q () (printed (concat (map (\<lambda>l. concat l @ [newline]) lines)) s)"
proof (induction lines arbitrary: s)
  case Nil
  then show ?case by simp
next
  case (Cons l lines)
  then show ?case by (cases "lines = []") (simp_all add: wp_simps printed_wf printed_twice)
qed

lemma details_lines_nonempty: "details_lines a c w \<noteq> []"
  by (simp add: details_lines_def)

lemma concat_pieces: "concat (concat (map (\<lambda>l. l @ [[b]]) lines)) = concat (map (\<lambda>l. concat l @ [b]) lines)"
  by (induction lines) simp_all

text \<open>
  The words of an optional page fault: a write is called \<open>escrita\<close>, any other access
  \<open>leitura\<close>; an access that the protection forbids is \<open>violacao de protecao\<close>, and one to a
  page that is not present \<open>pagina ausente\<close>.
\<close>

definition fault_words :: "('pt, 'h) env \<Rightarrow> (u64 \<times> u64) option \<Rightarrow> (u64 \<times> bytes \<times> bytes) option" where
  "fault_words E = map_option (\<lambda>(a, code).
     let is_write = contains code (CAUSED_BY_WRITE E); forbidden = contains code (PROTECTION_VIOLATION E) in
     (a, str (if is_write then ''escrita'' else ''leitura''),
      str (if forbidden then ''violacao de protecao'' else ''pagina ausente'')))"

lemma page_fault_words_meaning:
  "map_option (\<lambda>(a, code). (a, page_fault_words E code)) pf = fault_words E pf"
  by (cases pf) (simp_all add: fault_words_def page_fault_words_def Let_def del: str_simps split: prod.splits)

text \<open>
  In the error code of the processor bit 0 is set for a violation of the protection and bit
  1 for a write; the flags of the crate are these two bits. \<open>decoded\<close> says what a code means.
\<close>

definition page_fault_bits :: "('pt, 'h) env \<Rightarrow> bool" where
  "page_fault_bits E \<longleftrightarrow> PROTECTION_VIOLATION E = 2 ^ 0 \<and> CAUSED_BY_WRITE E = 2 ^ 1"

definition decoded :: "u64 \<times> u64 \<Rightarrow> u64 \<times> bytes \<times> bytes" where
  "decoded = (\<lambda>(a, code).
     (a, if bit code 1 then str ''escrita'' else str ''leitura'',
      if bit code 0 then str ''violacao de protecao'' else str ''pagina ausente''))"

lemma contains_bit: "contains code (2 ^ n) = bit code n"
proof
  assume "contains code (2 ^ n)"
  then have "bit (code AND 2 ^ n) n" unfolding contains_def by (simp add: bit_exp_iff)
  then show "bit code n" by (simp add: bit_and_iff)
next
  assume "bit code n"
  then show "contains code (2 ^ n)"
    unfolding contains_def by (auto intro!: bit_eqI simp: bit_and_iff bit_exp_iff)
qed

lemma fault_words_decoded: "page_fault_bits E \<Longrightarrow> fault_words E pf = map_option decoded pf"
  unfolding fault_words_def decoded_def page_fault_bits_def
  by (cases pf) (simp_all only: contains_bit Let_def option.map, auto simp del: str_simps)

text \<open>The heading line of a report, and the whole report on the serial port and on the screen.\<close>

definition heading :: "bytes \<Rightarrow> bytes \<Rightarrow> bytes" where
  "heading name mnemonic = str ''[EXCEPTION] '' @ name @ str '' ('' @ mnemonic @ str '')''"

definition exception_on_serial :: "bytes \<Rightarrow> bytes \<Rightarrow> u64 \<Rightarrow> u64 option \<Rightarrow> (u64 \<times> bytes \<times> bytes) option \<Rightarrow> bytes" where
  "exception_on_serial name mnemonic ip ec words =
     heading name mnemonic @ [newline] @ details_text ip ec words @ VERSION @ [newline]"

definition exception_on_screen :: "bytes \<Rightarrow> bytes \<Rightarrow> u64 \<Rightarrow> u64 option \<Rightarrow> (u64 \<times> bytes \<times> bytes) option \<Rightarrow> bytes" where
  "exception_on_screen name mnemonic ip ec words =
     newline # heading name mnemonic @ str '' - '' @ VERSION @ str '' parou'' @ [newline] @ details_text ip ec words"

definition reported :: "bytes \<Rightarrow> bytes \<Rightarrow> ('pt, 'h, 'g) kernel \<Rightarrow> ('pt, 'h, 'g) kernel \<Rightarrow> bool" where
  "reported on_serial on_tty s s' \<longleftrightarrow>
     PANICKING s' \<and> serial_text s' = serial_text s @ on_serial \<and>
     (\<forall>t. shows_tty (WRITER s) t \<longrightarrow> shows_tty (WRITER s') (tty_write on_tty t))"

lemma wp_fatal_exception:
  assumes "\<not> PANICKING s" and "WRITER_lock \<notin> held s" and "SERIAL1_lock \<notin> held s" and "writer_wf (WRITER s)"
    and "\<And>s'. reported
      (exception_on_serial name mnemonic ip ec (fault_words E pf))
      (exception_on_screen name mnemonic ip ec (fault_words E pf)) s s' \<Longrightarrow> cpu_stack s' = cpu_stack s \<Longrightarrow> S Halted s'"
  shows "wp (fatal_exception E name mnemonic ip ec pf) Q S s"
  using assms(1-4)
  by (simp add: fatal_exception_def Let_def page_fault_words_meaning wp_simps exception_details_kfor
      wp_kfor_serial details_lines_nonempty wp_kfor_screen printed_lock printed_wf printed_twice held_same)
    (rule assms(5), simp_all add: reported_def shows_printed details_text_def heading_def concat_pieces
      exception_on_serial_def exception_on_screen_def)

section \<open>Delivery\<close>

lemma printed_flag:
  "printed t (s\<lparr>interrupts_enabled := b\<rparr>) = (printed t s)\<lparr>interrupts_enabled := b\<rparr>"
  by (simp add: printed_def on_screen_def split: sum.splits)

lemma sent_flag: "sent a (s\<lparr>interrupts_enabled := b\<rparr>) = (sent a s)\<lparr>interrupts_enabled := b\<rparr>"
  by (simp add: sent_def)

lemma flag_same: "interrupts_enabled s = b \<Longrightarrow> s\<lparr>interrupts_enabled := b\<rparr> = s"
  by auto

text \<open>What each fatal exception is called, its error code, and its page fault information.\<close>

fun fatal_report :: "cpu_exception \<Rightarrow> (bytes \<times> bytes \<times> u64 option \<times> (u64 \<times> u64) option) option" where
  "fatal_report Breakpoint = None"
| "fatal_report Invalid_opcode = Some (str ''Invalid Opcode'', str ''#UD'', None, None)"
| "fatal_report (General_protection_fault c) =
     Some (str ''General Protection Fault'', str ''#GP'', Some c, None)"
| "fatal_report (Page_fault a c) = Some (str ''Page Fault'', str ''#PF'', Some c, Some (a, c))"
| "fatal_report Double_fault = Some (str ''Double Fault'', str ''#DF'', None, None)"

definition serial_report :: "('pt, 'h) env \<Rightarrow> u64 \<Rightarrow> bytes \<times> bytes \<times> u64 option \<times> (u64 \<times> u64) option \<Rightarrow> bytes" where
  "serial_report E ip = (\<lambda>(name, mnemonic, ec, pf). exception_on_serial name mnemonic ip ec (fault_words E pf))"

definition screen_report :: "('pt, 'h) env \<Rightarrow> u64 \<Rightarrow> bytes \<times> bytes \<times> u64 option \<times> (u64 \<times> u64) option \<Rightarrow> bytes" where
  "screen_report E ip = (\<lambda>(name, mnemonic, ec, pf). exception_on_screen name mnemonic ip ec (fault_words E pf))"

lemma IDT_entries [simp]:
  "IDT 3 = Some \<lparr>entry_handler = breakpoint_handler_fn, entry_stack_index = None\<rparr>"
  "IDT 6 = Some \<lparr>entry_handler = invalid_opcode_handler_fn, entry_stack_index = None\<rparr>"
  "IDT 13 = Some \<lparr>entry_handler = general_protection_fault_handler_fn, entry_stack_index = None\<rparr>"
  "IDT 14 = Some \<lparr>entry_handler = page_fault_handler_fn, entry_stack_index = None\<rparr>"
  "IDT 8 = Some \<lparr>entry_handler = double_fault_handler_fn, entry_stack_index = Some DOUBLE_FAULT_IST_INDEX\<rparr>"
  "IDT KEYBOARD_INTERRUPT_VECTOR = Some \<lparr>entry_handler = keyboard_interrupt_handler_fn, entry_stack_index = None\<rparr>"
  by (simp_all add: IDT_def set_handler_fn_def KEYBOARD_INTERRUPT_VECTOR_def PIC_1_OFFSET_def)

lemma wp_deliver_vector [wp_simps]:
  assumes "cpu_idt s = Some idt" and "idt v = Some entry" and "entry_usable stack_ok s entry"
  shows "wp (deliver_vector E stack_ok v ip code other) Q S s =
    wp (on_stack (entry_stack_index entry) (run_handler E (entry_handler entry) ip code))
      (\<lambda>_ s'. Q () (s'\<lparr>interrupts_enabled := interrupts_enabled s\<rparr>)) S (s\<lparr>interrupts_enabled := False\<rparr>)"
proof -
  have "wp (deliver_vector E stack_ok v ip code other) Q S s = wp (call_handler E entry ip code) Q S s"
    using assms by (simp add: wp_def deliver_vector_def)
  then show ?thesis by (simp add: call_handler_def wp_simps)
qed

lemma wp_on_stack [wp_simps]:
  "wp (on_stack None m) Q S s = wp m Q S s"
  "wp (on_stack (Some i) m) Q S s =
     wp m (\<lambda>_ s'. Q () (s'\<lparr>cpu_stack := cpu_stack s\<rparr>)) S (s\<lparr>cpu_stack := ist_pointer i (cpu_tss s)\<rparr>)"
  by (simp_all add: on_stack_def wp_simps)

lemma wp_deliver_vector_other:
  assumes "cpu_idt s = Some idt" and "idt v = Some entry" and "\<not> entry_usable stack_ok s entry"
  shows "wp (deliver_vector E stack_ok v ip code other) Q S s = wp other Q S s"
  using assms by (simp add: wp_def deliver_vector_def)

lemma reported_start:
  "reported a b (s\<lparr>interrupts_enabled := i\<rparr>) s' = reported a b s s'"
  "reported a b (s\<lparr>cpu_cr2 := c\<rparr>) s' = reported a b s s'"
  "reported a b (s\<lparr>cpu_stack := p\<rparr>) s' = reported a b s s'"
  by (simp_all add: reported_def serial_text_def)

lemmas fatal_handlers =
  invalid_opcode_handler_def general_protection_fault_handler_def page_fault_handler_def
  double_fault_handler_def

lemma wp_deliver_fatal:
  assumes "fatal_report ex = Some r" and "cpu_idt s = Some IDT" and "ist_pointer DOUBLE_FAULT_IST_INDEX (cpu_tss s) \<noteq> None"
    and "\<not> PANICKING s" and "WRITER_lock \<notin> held s" and "SERIAL1_lock \<notin> held s" and "writer_wf (WRITER s)"
    and "\<And>s'. reported (serial_report E ip r) (screen_report E ip r) s s' \<Longrightarrow> S Halted s'"
  shows "wp (deliver E True ip ex) Q S s"
  using assms
  by (cases ex)
    (auto simp: deliver_def wp_simps entry_usable_def fatal_handlers reported_start
      serial_report_def screen_report_def intro!: wp_fatal_exception)

text \<open>A double fault has been reported from the stack that is reserved for it.\<close>

definition double_fault_reported :: "('pt, 'h) env \<Rightarrow> u64 \<Rightarrow> ('pt, 'h, 'g) kernel \<Rightarrow> ('pt, 'h, 'g) kernel \<Rightarrow> bool" where
  "double_fault_reported E ip s s' \<longleftrightarrow>
     reported (serial_report E ip (str ''Double Fault'', str ''#DF'', None, None))
       (screen_report E ip (str ''Double Fault'', str ''#DF'', None, None)) s s' \<and>
     cpu_stack s' = ist_pointer DOUBLE_FAULT_IST_INDEX (cpu_tss s)"

lemma wp_deliver_bad_stack:
  assumes "cpu_idt s = Some IDT" and "ist_pointer DOUBLE_FAULT_IST_INDEX (cpu_tss s) \<noteq> None"
    and "\<not> PANICKING s" and "WRITER_lock \<notin> held s" and "SERIAL1_lock \<notin> held s" and "writer_wf (WRITER s)"
    and "\<And>s'. double_fault_reported E ip s s' \<Longrightarrow> S Halted s'"
  shows "wp (deliver E False ip ex) Q S s"
  using assms
  by (cases ex)
    (auto simp: deliver_def wp_simps wp_deliver_vector_other entry_usable_def fatal_handlers reported_start
      double_fault_reported_def serial_report_def screen_report_def intro!: wp_fatal_exception assms(7))

lemma wp_deliver_breakpoint:
  assumes "cpu_idt s = Some IDT" and "WRITER_lock \<notin> held s" and "SERIAL1_lock \<notin> held s" and "writer_wf (WRITER s)"
  shows "wp (deliver E True ip Breakpoint) Q S s =
    Q () (printed (str ''[EXCEPTION] breakpoint (#BP) em '' @ fmt_hex ip @ [newline])
      (sent [str ''[EXCEPTION] breakpoint (int3)'', [newline]] s))"
  using assms
  by (simp add: deliver_def wp_simps entry_usable_def breakpoint_handler_def printed_flag sent_flag flag_same)

lemma wp_RetD: "wp m (\<lambda>x s'. x = y \<and> P s') (\<lambda>_ _. False) s \<Longrightarrow> \<exists>s'. m s = Ret y s' \<and> P s'"
  by (auto simp: wp_def split: outcome.splits)

lemma printed_sent_frame:
  "printed t (sent a s) = s\<lparr>WRITER := WRITER (printed t (sent a s)), ports := ports (printed t (sent a s)),
     SERIAL1_initialized := True, serial_log := serial_log (printed t (sent a s))\<rparr>"
  by (simp add: printed_def on_screen_def sent_def split: sum.splits)

section \<open>The keyboard interrupt and its consumer\<close>

lemma push_keep_last:
  assumes "queue_inv q"
  shows "\<exists>q'. ScancodeQueue_push x q = Inr q' \<and> queue_inv q' \<and>
    queue_contents q' = keep_last SCANCODE_QUEUE_CAPACITY (queue_contents q @ [x])"
  using scancode_fifo.push_all_keeps_last [OF assms, of "[x]"] by (auto simp: rbind_Inr_iff)

text \<open>The queue is the only static the interrupt changes.\<close>

definition scancode_taken :: "u8 \<Rightarrow> ('pt, 'h, 'g) kernel \<Rightarrow> ('pt, 'h, 'g) kernel \<Rightarrow> bool" where
  "scancode_taken scancode s s' \<longleftrightarrow>
     queue_inv (SCANCODE_QUEUE s') \<and>
     queue_contents (SCANCODE_QUEUE s') =
       keep_last SCANCODE_QUEUE_CAPACITY (queue_contents (SCANCODE_QUEUE s) @ [scancode]) \<and>
     s' = s\<lparr>SCANCODE_QUEUE := SCANCODE_QUEUE s', keyboard_data := scancode,
             pic_log := pic_log s @ [Pics_notify_end_of_interrupt KEYBOARD_INTERRUPT_VECTOR]\<rparr>"

lemma keyboard_irq_taken:
  assumes "cpu_idt s = Some IDT" and "SCANCODE_QUEUE_lock \<notin> held s" and "PICS_lock \<notin> held s"
    and "queue_inv (SCANCODE_QUEUE s)"
  shows "\<exists>s'. keyboard_irq E scancode s = Ret () s' \<and> scancode_taken scancode s s'"
proof -
  obtain q' where q': "ScancodeQueue_push scancode (SCANCODE_QUEUE s) = Inr q'" "queue_inv q'"
    "queue_contents q' = keep_last SCANCODE_QUEUE_CAPACITY (queue_contents (SCANCODE_QUEUE s) @ [scancode])"
    using push_keep_last [OF assms(4)] by blast
  define s' where "s' = s\<lparr>SCANCODE_QUEUE := q', keyboard_data := scancode,
    pic_log := pic_log s @ [Pics_notify_end_of_interrupt KEYBOARD_INTERRUPT_VECTOR]\<rparr>"
  have "wp (keyboard_irq E scancode) (\<lambda>x t. x = () \<and> t = s') (\<lambda>_ _. False) s"
    using assms q'(1)
    by (simp add: keyboard_irq_def wp_simps entry_usable_def keyboard_interrupt_handler_def kres_def s'_def)
  then have "keyboard_irq E scancode s = Ret () s'" by (simp only: wp_Ret_iff)
  then show ?thesis using q'(2,3) by (auto simp: scancode_taken_def s'_def)
qed

lemma next_scancode_eq:
  assumes "SCANCODE_QUEUE_lock \<notin> held s" and "queue_inv (SCANCODE_QUEUE s)"
  shows "\<exists>q'. next_scancode E s =
      Ret (case queue_contents (SCANCODE_QUEUE s) of [] \<Rightarrow> None | c # _ \<Rightarrow> Some c) (s\<lparr>SCANCODE_QUEUE := q'\<rparr>) \<and>
    queue_inv q' \<and> queue_contents q' = tl (queue_contents (SCANCODE_QUEUE s))"
proof -
  let ?r = "case queue_contents (SCANCODE_QUEUE s) of [] \<Rightarrow> None | c # _ \<Rightarrow> Some c"
  obtain q' where q': "ScancodeQueue_pop (SCANCODE_QUEUE s) = Inr (?r, q')" "queue_inv q'"
    "queue_contents q' = tl (queue_contents (SCANCODE_QUEUE s))"
    using pop_refines [OF assms(2)] by blast
  have "wp (next_scancode E) (\<lambda>x t. x = ?r \<and> t = s\<lparr>SCANCODE_QUEUE := q'\<rparr>) (\<lambda>_ _. False) s"
    using assms(1) q'(1) by (simp add: next_scancode_def wp_simps kres_def)
  then show ?thesis using q'(2,3) by (auto simp: wp_Ret_iff)
qed

section \<open>Properties\<close>

text \<open>
  C16. Each of the four fatal exceptions, delivered through the kernel's table while no
  other fatal event is being handled, the display and the serial port are free and the
  double fault handler has its stack, is reported and parks the processor: name and
  mnemonic, the address of the instruction, the error code where there is one, and for a
  page fault the address and, in words, what the bits of the error code mean: \<open>escrita\<close>
  exactly when bit 1 is set and \<open>leitura\<close> otherwise, \<open>violacao de protecao\<close> exactly when
  bit 0 is set and \<open>pagina ausente\<close> otherwise, provided that the flags of the crate are
  these bits. The lines after the heading are the same on the serial port and on the screen.
\<close>

theorem fatal_exceptions_reported:
  assumes "fatal_report ex = Some (name, mnemonic, ec, pf)" and "page_fault_bits E"
    and "cpu_idt s = Some IDT" and "ist_pointer DOUBLE_FAULT_IST_INDEX (cpu_tss s) \<noteq> None"
    and "\<not> PANICKING s" and "WRITER_lock \<notin> held s" and "SERIAL1_lock \<notin> held s" and "writer_wf (WRITER s)"
  shows "\<exists>s'. deliver E True ip ex s = Stop Halted s' \<and>
    reported (exception_on_serial name mnemonic ip ec (map_option decoded pf))
      (exception_on_screen name mnemonic ip ec (map_option decoded pf)) s s'"
  by (intro wp_StopD wp_deliver_fatal [OF assms(1,3-8)])
    (simp add: serial_report_def screen_report_def fault_words_decoded [OF assms(2)])

text \<open>A task state segment with the top of a stack in its first slot, for the witnesses.\<close>

definition example_tss :: TaskStateSegment where
  "example_tss = \<lparr>interrupt_stack_table = 0x15000 # replicate 6 0\<rparr>"

definition ready_kernel :: "(example_tables, example_heap, example_gdt) kernel" where
  "ready_kernel = example_kernel\<lparr>cpu_idt := Some IDT, cpu_tss := Some example_tss\<rparr>"

lemma ready_kernel_ok [simp]:
  "cpu_idt ready_kernel = Some IDT" "ist_pointer DOUBLE_FAULT_IST_INDEX (cpu_tss ready_kernel) = Some 0x15000" "\<not> PANICKING ready_kernel"
  "held ready_kernel = {}" "WRITER ready_kernel = blank_writer" "writer_wf blank_writer"
  "SCANCODE_QUEUE ready_kernel = ScancodeQueue_new"
  by (simp_all add: ready_kernel_def blank_writer_wf)
    (simp_all add: example_kernel_def kernel_start_def ist_pointer_def ist_slot_def example_tss_def DOUBLE_FAULT_IST_INDEX_def)

lemma example_fault_bits: "page_fault_bits example_env"
  by (simp add: page_fault_bits_def example_env_def)

theorem fatal_exceptions_reported_witness:
  "\<exists>s'. deliver example_env True 0x200000 (Page_fault 0x444444459000 2) ready_kernel = Stop Halted s' \<and>
     serial_text s' = serial_text ready_kernel @
       exception_on_serial (str ''Page Fault'') (str ''#PF'') 0x200000 (Some 2)
         (Some (0x444444459000, str ''escrita'', str ''pagina ausente''))"
proof -
  have "decoded (0x444444459000, 2) = (0x444444459000, str ''escrita'', str ''pagina ausente'')"
    by (simp add: decoded_def bit_iff_odd del: str_simps)
  then show ?thesis
    using fatal_exceptions_reported [OF fatal_report.simps(4) example_fault_bits, of ready_kernel "0x200000" "0x444444459000" 2]
    by (simp add: reported_def del: str_simps) blast
qed

text \<open>Sending waits for ever while the serial port is held, interrupts masked.\<close>

lemma wp_serial_println_held:
  assumes "SERIAL1_lock \<in> held s"
  shows "wp (serial_println args) Q S s = S (Spin SERIAL1_lock) ((sent [] s)\<lparr>interrupts_enabled := False\<rparr>)"
  using assms
  by (cases s; cases "SERIAL1_initialized s"; cases "interrupts_enabled s")
    (simp_all add: serial_println_def serial_print_def SERIAL1_force_def wp_simps wp_with_lock_held sent_def flag_same)

lemma serial_text_flag [simp]: "serial_text (s\<lparr>interrupts_enabled := b\<rparr>) = serial_text s"
  by (simp add: serial_text_def)

text \<open>
  C27. A fatal exception while a panic or another fatal exception is being handled never
  touches the display, whoever holds it. If the serial port is free, it says so there and
  parks. If the serial port is held, which is when the first event was interrupted while
  sending its report, it waits for the lock for ever, without having sent anything.
\<close>

theorem fatal_exception_reentrant:
  assumes "PANICKING s"
  shows "if SERIAL1_lock \<in> held s
    then \<exists>s'. fatal_exception E name mnemonic ip ec pf s = Stop (Spin SERIAL1_lock) s' \<and>
      WRITER s' = WRITER s \<and> ports s' = ports s \<and> serial_text s' = serial_text s
    else \<exists>s'. fatal_exception E name mnemonic ip ec pf s = Stop Halted s' \<and>
      WRITER s' = WRITER s \<and> ports s' = ports s \<and>
      serial_text s' = serial_text s @ heading name mnemonic @ str '' reentrante '' @ em_dash @ str '' '' @
        VERSION @ str '' parou'' @ [newline]"
proof (cases "SERIAL1_lock \<in> held s")
  case True
  then show ?thesis
    using assms by (simp, intro wp_StopD) (simp add: fatal_exception_def wp_simps wp_serial_println_held panicking_same)
next
  case False
  then show ?thesis
    using assms by (simp, intro wp_StopD) (simp add: fatal_exception_def wp_simps panicking_same heading_def)
qed

theorem fatal_exception_reentrant_witness:
  "(\<exists>s'. fatal_exception example_env (str ''Page Fault'') (str ''#PF'') 0 None None
      (ready_kernel\<lparr>PANICKING := True, held := {WRITER_lock}\<rparr>) = Stop Halted s' \<and> WRITER s' = blank_writer) \<and>
   (\<exists>s'. fatal_exception example_env (str ''Page Fault'') (str ''#PF'') 0 None None
      (ready_kernel\<lparr>PANICKING := True, held := {SERIAL1_lock}\<rparr>) = Stop (Spin SERIAL1_lock) s')"
  using fatal_exception_reentrant [of "ready_kernel\<lparr>PANICKING := True, held := {WRITER_lock}\<rparr>" example_env
      "str ''Page Fault''" "str ''#PF''" 0 None None]
    fatal_exception_reentrant [of "ready_kernel\<lparr>PANICKING := True, held := {SERIAL1_lock}\<rparr>" example_env
      "str ''Page Fault''" "str ''#PF''" 0 None None]
  by fastforce

text \<open>
  A breakpoint is not fatal: the handler writes one line on the serial port and one
  on the screen, with the address of the instruction, and returns; no other part of the
  state changes.
\<close>

lemma breakpoint_returns:
  assumes "cpu_idt s = Some IDT" and "WRITER_lock \<notin> held s" and "SERIAL1_lock \<notin> held s"
    and "shows_tty (WRITER s) t"
  shows "\<exists>s'. deliver E True ip Breakpoint s = Ret () s' \<and>
    shows_tty (WRITER s') (tty_write (str ''[EXCEPTION] breakpoint (#BP) em '' @ fmt_hex ip @ [newline]) t) \<and>
    serial_text s' = serial_text s @ str ''[EXCEPTION] breakpoint (int3)'' @ [newline] \<and>
    s' = s\<lparr>WRITER := WRITER s', ports := ports s', SERIAL1_initialized := True, serial_log := serial_log s'\<rparr>"
proof -
  let ?s = "printed (str ''[EXCEPTION] breakpoint (#BP) em '' @ fmt_hex ip @ [newline])
      (sent [str ''[EXCEPTION] breakpoint (int3)'', [newline]] s)"
  have "wp (deliver E True ip Breakpoint) (\<lambda>x s'. x = () \<and> s' = ?s) (\<lambda>_ _. False) s"
    using assms shows_tty_wf [OF assms(4)] by (simp add: wp_deliver_breakpoint)
  then have "deliver E True ip Breakpoint s = Ret () ?s" by (simp only: wp_Ret_iff)
  moreover have "shows_tty (WRITER ?s) (tty_write (str ''[EXCEPTION] breakpoint (#BP) em '' @ fmt_hex ip @ [newline]) t)"
    using assms(4) by (intro shows_printed) simp
  moreover have "serial_text ?s = serial_text s @ str ''[EXCEPTION] breakpoint (int3)'' @ [newline]" by simp
  moreover have "?s = s\<lparr>WRITER := WRITER ?s, ports := ports ?s, SERIAL1_initialized := True,
      serial_log := serial_log ?s\<rparr>" by (rule printed_sent_frame)
  ultimately show ?thesis by blast
qed

text \<open>
  C17. The keyboard interrupt never panics and never waits, as long as the code it
  interrupts holds neither the queue nor the interrupt controllers: the scancode joins the
  queue, which keeps the newest 16, one end of interrupt is sent for the keyboard vector,
  and nothing else changes; in particular the display is not touched, even when the
  interrupted code holds it.
\<close>

theorem keyboard_interrupt_effect:
  assumes "cpu_idt s = Some IDT" and "SCANCODE_QUEUE_lock \<notin> held s" and "PICS_lock \<notin> held s"
    and "queue_inv (SCANCODE_QUEUE s)"
  shows "\<exists>s'. keyboard_irq E scancode s = Ret () s' \<and> scancode_taken scancode s s'"
  using assms by (rule keyboard_irq_taken)

theorem keyboard_interrupt_effect_witness:
  "\<exists>s'. keyboard_irq example_env 0x1E (ready_kernel\<lparr>held := {WRITER_lock}\<rparr>) = Ret () s' \<and>
     queue_contents (SCANCODE_QUEUE s') = [0x1E]"
  using keyboard_interrupt_effect [of "ready_kernel\<lparr>held := {WRITER_lock}\<rparr>" example_env "0x1E"]
  by (auto simp: queue_inv_new scancode_taken_def queue_contents_new keep_last_def SCANCODE_QUEUE_CAPACITY_def)

end
