(* ===== verification/Shell.thy ===== *)
theory Shell
  imports Interrupts
begin

text \<open>
  The command prompt of \<^verbatim>\<open>src/shell.rs\<close>, with \<open>memory::info\<close>, the handler of failed
  allocations of \<^verbatim>\<open>src/allocator.rs\<close> and the locked form of \<open>keyboard::translate\<close>,
  which it needs. A command that provokes an exception goes through the processor's
  \<open>deliver\<close>.
\<close>

section \<open>Keyboard and memory services\<close>

definition keyboard_translate :: "u8 \<Rightarrow> (u8 option, ('pt, 'h, 'g) kernel) prog" where
  "keyboard_translate scancode =
     (if scancode AND 0x80 \<noteq> 0 \<and> scancode \<noteq> LEFT_SHIFT_BREAK \<and> scancode \<noteq> RIGHT_SHIFT_BREAK then kret None
      else
        with_lock SHIFT_lock
          (kbind (kget SHIFT) (\<lambda>shift.
             let (byte, shift') = translate scancode shift
             in kthen (kupd (\<lambda>s. s\<lparr>SHIFT := shift'\<rparr>)) (kret byte))))"

text \<open>\<open>memory::info\<close>; the lock is released at the end of the statement, after \<^verbatim>\<open>expect\<close>.\<close>

definition memory_info :: "('pt, 'h) env \<Rightarrow> (MemoryInfo, ('pt, 'h, 'g) kernel) prog" where
  "memory_info E =
     with_lock MEMORY_INFO_lock
       (kbind (kget MEMORY_INFO) (\<lambda>info.
          case info of
            None \<Rightarrow> raise_panic E (Expect (str ''memoria nao inicializada''))
          | Some i \<Rightarrow> kret i))"

definition alloc_error_handler :: "('pt, 'h) env \<Rightarrow> usize \<Rightarrow> usize \<Rightarrow> ('a, ('pt, 'h, 'g) kernel) prog" where
  "alloc_error_handler E layout_size layout_align =
     call_panic_handler E
       \<lparr>panic_location = str ''src/allocator.rs:77:5'',
        panic_message = str ''heap esgotado: pedido de '' @ fmt_dec layout_size @
          str '' bytes (alinhamento '' @ fmt_dec layout_align @ str '')''\<rparr>"

section \<open>Box and Vec over the global allocator\<close>

text \<open>
  A vector over the global allocator. \<open>sz\<close> is the size of an element, which is also its
  alignment: 4 bytes for an \<^verbatim>\<open>i32\<close>. A full vector grows to twice its capacity, and at
  least to the smallest capacity that the library gives to elements of this size.
\<close>

record 'a rust_vec =
  vec_ptr :: usize
  vec_cap :: usize
  vec_items :: "'a list"

definition i32_add :: "int \<Rightarrow> int \<Rightarrow> int res" where
  "i32_add a b = (if - (2 ^ 31) \<le> a + b \<and> a + b < 2 ^ 31 then Inr (a + b) else Inl ArithmeticOverflow)"

definition alloc :: "('pt, 'h) env \<Rightarrow> usize \<Rightarrow> usize \<Rightarrow> (usize, ('pt, 'h, 'g) kernel) prog" where
  "alloc E sz align =
     kbind (kget heap) (\<lambda>h.
       let (r, h') = heap_alloc E sz align h
       in kthen (kupd (\<lambda>s. s\<lparr>heap := h'\<rparr>))
          (case r of None \<Rightarrow> alloc_error_handler E sz align | Some p \<Rightarrow> kret p))"

definition realloc ::
  "('pt, 'h) env \<Rightarrow> usize \<Rightarrow> usize \<Rightarrow> usize \<Rightarrow> usize \<Rightarrow> (usize, ('pt, 'h, 'g) kernel) prog" where
  "realloc E ptr old align new =
     kbind (kget heap) (\<lambda>h.
       let (r, h') = heap_realloc E ptr old align new h
       in kthen (kupd (\<lambda>s. s\<lparr>heap := h'\<rparr>))
          (case r of None \<Rightarrow> alloc_error_handler E new align | Some p \<Rightarrow> kret p))"

definition dealloc :: "('pt, 'h) env \<Rightarrow> usize \<Rightarrow> usize \<Rightarrow> usize \<Rightarrow> (unit, ('pt, 'h, 'g) kernel) prog" where
  "dealloc E ptr sz align = kupd (\<lambda>s. s\<lparr>heap := heap_dealloc E ptr sz align (heap s)\<rparr>)"

definition min_non_zero_cap :: "usize \<Rightarrow> usize" where
  "min_non_zero_cap sz = (if sz = 1 then 8 else if sz \<le> 1024 then 4 else 1)"

definition grow_amortized :: "usize \<Rightarrow> usize \<Rightarrow> usize \<Rightarrow> usize" where
  "grow_amortized sz cap required = max (min_non_zero_cap sz) (max (2 * cap) required)"

definition vec_new :: "usize \<Rightarrow> 'a rust_vec" where
  "vec_new sz = \<lparr>vec_ptr = sz, vec_cap = 0, vec_items = []\<rparr>"

definition vec_push ::
  "('pt, 'h) env \<Rightarrow> usize \<Rightarrow> 'a \<Rightarrow> 'a rust_vec \<Rightarrow> ('a rust_vec, ('pt, 'h, 'g) kernel) prog" where
  "vec_push E sz x v =
     kbind
       (if length (vec_items v) < vec_cap v then kret v
        else
          let cap = grow_amortized sz (vec_cap v) (length (vec_items v) + 1)
          in kbind (if vec_cap v = 0 then alloc E (sz * cap) sz
                    else realloc E (vec_ptr v) (sz * vec_cap v) sz (sz * cap))
               (\<lambda>p. kret (v\<lparr>vec_ptr := p, vec_cap := cap\<rparr>)))
       (\<lambda>v. kret (v\<lparr>vec_items := vec_items v @ [x]\<rparr>))"

fun vec_push_all ::
  "('pt, 'h) env \<Rightarrow> usize \<Rightarrow> 'a list \<Rightarrow> 'a rust_vec \<Rightarrow> ('a rust_vec, ('pt, 'h, 'g) kernel) prog" where
  "vec_push_all E sz [] v = kret v"
| "vec_push_all E sz (x # xs) v = kbind (vec_push E sz x v) (vec_push_all E sz xs)"

definition vec_drop :: "('pt, 'h) env \<Rightarrow> usize \<Rightarrow> 'a rust_vec \<Rightarrow> (unit, ('pt, 'h, 'g) kernel) prog" where
  "vec_drop E sz v = (if vec_cap v = 0 then kret () else dealloc E (vec_ptr v) (sz * vec_cap v) sz)"

definition vec_sum :: "int rust_vec \<Rightarrow> int res" where
  "vec_sum v = for_each (vec_items v) (\<lambda>x acc. i32_add acc x) 0"

section \<open>Commands\<close>

definition PROMPT :: bytes where
  "PROMPT = str ''proto-os> ''"

definition COMMANDS :: "(bytes \<times> bytes) list" where
  "COMMANDS =
     [(str ''help'', str ''lista os comandos disponiveis''),
      (str ''clear'', str ''limpa a tela''),
      (str ''echo'', str ''repete o texto digitado''),
      (str ''sobre'', str ''descreve o proto-os''),
      (str ''panic'', str ''dispara um panic proposital''),
      (str ''mem'', str ''mostra memoria fisica, heap, Box e Vec''),
      (str ''falha'',
       str ''provoca uma excecao de CPU para demonstracao (pagina, pilha, opcode, protecao, breakpoint)'')]"

definition print_prompt :: "('pt, 'h) env \<Rightarrow> (unit, ('pt, 'h, 'g) kernel) prog" where
  "print_prompt E = print E [PROMPT]"

definition cmd_help :: "('pt, 'h) env \<Rightarrow> (unit, ('pt, 'h, 'g) kernel) prog" where
  "cmd_help E = kfor COMMANDS (\<lambda>(name, description). println E [name, str '' - '', description])"

definition cmd_echo :: "('pt, 'h) env \<Rightarrow> bytes \<Rightarrow> (unit, ('pt, 'h, 'g) kernel) prog" where
  "cmd_echo E rest = println E [rest]"

definition cmd_sobre :: "('pt, 'h) env \<Rightarrow> (unit, ('pt, 'h, 'g) kernel) prog" where
  "cmd_sobre E =
     kthen (println E [VERSION])
     (kthen (println E [str ''proto-os: demonstracao de boot bare metal em Rust, sem SO por baixo.''])
     (println E [str ''Boot via BIOS, saida VGA e teclado via IRQ1, tudo no mesmo binario.'']))"

definition cmd_panic :: "('pt, 'h) env \<Rightarrow> (unit, ('pt, 'h, 'g) kernel) prog" where
  "cmd_panic E =
     call_panic_handler E \<lparr>panic_location = str ''src/shell.rs:157:5'',
               panic_message = str ''comando panic executado no prompt''\<rparr>"

definition cmd_mem :: "('pt, 'h) env \<Rightarrow> (unit, ('pt, 'h, 'g) kernel) prog" where
  "cmd_mem E =
     kbind (memory_info E) (\<lambda>info.
     kthen (println E [str ''memoria fisica utilizavel: '', fmt_dec (usable_bytes info div 1024), str '' KiB''])
     (kthen (println E [str ''heap: '', fmt_hex (heap_start info), str '', '',
               fmt_dec (heap_size info div 1024), str '' KiB''])
     (kbind (alloc E 4 4) (\<lambda>valor.
     kthen (println E [str ''Box: valor='', fmt_int 42, str '', endereco='', fmt_hex valor])
     (kbind (vec_push_all E 4 [1..10] (vec_new 4)) (\<lambda>lista.
     kbind (kres E (vec_sum lista)) (\<lambda>soma.
     kthen (println E [str ''Vec: tamanho='', fmt_dec (length (vec_items lista)), str '', capacidade='',
               fmt_dec (vec_cap lista), str '', soma='', fmt_int soma])
     (kthen (vec_drop E 4 lista)
     (dealloc E valor 4 4)))))))))"

text \<open>A volatile access to memory: the processor may answer with an exception.\<close>

definition access_memory ::
  "('pt, 'h) env \<Rightarrow> fault_site \<Rightarrow> bool \<Rightarrow> u64 \<Rightarrow> (unit, ('pt, 'h, 'g) kernel) prog" where
  "access_memory E site is_write a =
     kbind (kget page_tables) (\<lambda>pt.
       case memory_access E pt is_write a of
         None \<Rightarrow> kret ()
       | Some ex \<Rightarrow> deliver E True (instruction_address E site) ex)"

definition cmd_falha_pagina :: "('pt, 'h) env \<Rightarrow> (unit, ('pt, 'h, 'g) kernel) prog" where
  "cmd_falha_pagina E =
     kbind (kres E (usize_add HEAP_START HEAP_SIZE)) (\<lambda>endereco.
     access_memory E read_site False endereco)"

text \<open>
  The recursion ends when the stack has no room for another frame: the processor then
  faults on the page below the stack, and has no stack to enter the handler on.
\<close>

fun stack_overflow :: "('pt, 'h) env \<Rightarrow> nat \<Rightarrow> (unit, ('pt, 'h, 'g) kernel) prog" where
  "stack_overflow E 0 = deliver E False (instruction_address E call_site) (Page_fault (stack_guard E) 2)"
| "stack_overflow E (Suc room) = kthen (stack_overflow E room) (kret ())"

definition cmd_falha_pilha :: "('pt, 'h) env \<Rightarrow> (unit, ('pt, 'h, 'g) kernel) prog" where
  "cmd_falha_pilha E = stack_overflow E (stack_room E)"

definition cmd_falha_opcode :: "('pt, 'h) env \<Rightarrow> (unit, ('pt, 'h, 'g) kernel) prog" where
  "cmd_falha_opcode E = deliver E True (instruction_address E ud2_site) Invalid_opcode"

definition cmd_falha_protecao :: "('pt, 'h) env \<Rightarrow> (unit, ('pt, 'h, 'g) kernel) prog" where
  "cmd_falha_protecao E = access_memory E write_site True 0x8000000000000000"

definition cmd_falha_breakpoint :: "('pt, 'h) env \<Rightarrow> (unit, ('pt, 'h, 'g) kernel) prog" where
  "cmd_falha_breakpoint E = deliver E True (instruction_address E int3_site) Breakpoint"

definition cmd_falha :: "('pt, 'h) env \<Rightarrow> bytes \<Rightarrow> (unit, ('pt, 'h, 'g) kernel) prog" where
  "cmd_falha E tipo =
     (let tipo = trim tipo in
      if tipo = str ''pagina'' then cmd_falha_pagina E
      else if tipo = str ''pilha'' then cmd_falha_pilha E
      else if tipo = str ''opcode'' then cmd_falha_opcode E
      else if tipo = str ''protecao'' then cmd_falha_protecao E
      else if tipo = str ''breakpoint'' then cmd_falha_breakpoint E
      else println E [str ''tipos disponiveis: pagina, pilha, opcode, protecao, breakpoint''])"

definition split_command :: "bytes \<Rightarrow> bytes \<times> bytes" where
  "split_command line =
     (case split_once_space line of Some (name, rest) \<Rightarrow> (name, rest) | None \<Rightarrow> (line, []))"

definition execute :: "('pt, 'h) env \<Rightarrow> bytes \<Rightarrow> (unit, ('pt, 'h, 'g) kernel) prog" where
  "execute E line =
     (let line = trim line in
      if line = [] then kret ()
      else
        let (name, rest) = split_command line in
        if name = str ''help'' then cmd_help E
        else if name = str ''clear'' then vga_clear_screen E
        else if name = str ''echo'' then cmd_echo E rest
        else if name = str ''sobre'' then cmd_sobre E
        else if name = str ''panic'' then cmd_panic E
        else if name = str ''mem'' then cmd_mem E
        else if name = str ''falha'' then cmd_falha E rest
        else println E [str ''comando desconhecido: '', name, str '' (digite help)''])"

section \<open>The line editor\<close>

definition line_pop :: "('pt, 'h) env \<Rightarrow> (bool, ('pt, 'h, 'g) kernel) prog" where
  "line_pop E =
     with_lock LINE_lock
       (kbind (kget LINE) (\<lambda>line.
        kbind (kres E (LineBuffer_pop line)) (\<lambda>(r, line').
        kthen (kupd (\<lambda>s. s\<lparr>LINE := line'\<rparr>)) (kret r))))"

definition line_push :: "('pt, 'h) env \<Rightarrow> u8 \<Rightarrow> (bool, ('pt, 'h, 'g) kernel) prog" where
  "line_push E b =
     with_lock LINE_lock
       (kbind (kget LINE) (\<lambda>line.
        kbind (kres E (LineBuffer_push b line)) (\<lambda>(r, line').
        kthen (kupd (\<lambda>s. s\<lparr>LINE := line'\<rparr>)) (kret r))))"

definition feed :: "('pt, 'h) env \<Rightarrow> u8 \<Rightarrow> (unit, ('pt, 'h, 'g) kernel) prog" where
  "feed E b =
     (if b = newline then
        kthen (println E [])
        (kthen (with_lock LINE_lock
          (kbind (kget LINE) (\<lambda>line.
           kbind (kres E (LineBuffer_as_str line)) (\<lambda>text.
           kthen (execute E text)
           (kupd (\<lambda>s. s\<lparr>LINE := LineBuffer_clear (LINE s)\<rparr>))))))
        (print_prompt E))
      else if b = 0x08 then
        kbind (line_pop E) (\<lambda>popped. if popped then vga_backspace E else kret ())
      else if 0x20 \<le> b \<and> b \<le> 0x7e then
        kbind (line_push E b) (\<lambda>pushed. if pushed then print E [[b]] else kret ())
      else kret ())"

end
