(* ===== verification/Shell_Safety.thy ===== *)
theory Shell_Safety
  imports Shell
begin

text \<open>
  The prompt never gets stuck. A piece of code is \<open>safe\<close> when, from a running kernel
  whose display, serial port and memory summary are not locked, it either returns to a
  running kernel with the same locks, line, queue and Shift state, or parks the processor
  after reporting; it never waits for a lock and never resets the machine. Safety is
  closed under composition, so every command is safe, and \<open>feed\<close> keeps the invariant of
  the kernel whatever byte it is given.
\<close>

section \<open>Running kernels\<close>

definition running :: "('pt, 'h, 'g) kernel \<Rightarrow> bool" where
  "running s \<longleftrightarrow>
     writer_wf (WRITER s) \<and> \<not> PANICKING s \<and> MEMORY_INFO s \<noteq> None \<and>
     cpu_idt s = Some IDT \<and> ist_pointer DOUBLE_FAULT_IST_INDEX (cpu_tss s) \<noteq> None \<and>
     WRITER_lock \<notin> held s \<and> SERIAL1_lock \<notin> held s \<and> MEMORY_INFO_lock \<notin> held s"

definition keeps :: "('pt, 'h, 'g) kernel \<Rightarrow> ('pt, 'h, 'g) kernel \<Rightarrow> bool" where
  "keeps s s' \<longleftrightarrow>
     running s' \<and> MEMORY_INFO s' = MEMORY_INFO s \<and> page_tables s' = page_tables s \<and> LINE s' = LINE s \<and> SCANCODE_QUEUE s' = SCANCODE_QUEUE s \<and> SHIFT s' = SHIFT s \<and>
     held s' = held s \<and> interrupts_enabled s' = interrupts_enabled s \<and> cpu_tss s' = cpu_tss s"

definition parked :: "('pt, 'h) env \<Rightarrow> stop \<Rightarrow> ('pt, 'h, 'g) kernel \<Rightarrow> bool" where
  "parked E e s' \<longleftrightarrow> e = Halted \<and> (PANICKING s' \<or> panic_over E s')"

text \<open>
  Beside the safety of the kernel a piece of code can keep a property \<open>H\<close> of the heap.
\<close>

definition safe :: "('pt, 'h) env \<Rightarrow> ('h \<Rightarrow> bool) \<Rightarrow> ('a, ('pt, 'h, 'g) kernel) prog \<Rightarrow> bool" where
  "safe E H m \<longleftrightarrow> (\<forall>s. running s \<longrightarrow> H (heap s) \<longrightarrow> wp m (\<lambda>_ s'. keeps s s' \<and> H (heap s')) (parked E) s)"

named_theorems safe_intros \<open>introduction rules for the safety of a piece of code\<close>

lemma safeD: "safe E H m \<Longrightarrow> running s \<Longrightarrow> H (heap s) \<Longrightarrow> wp m (\<lambda>_ s'. keeps s s' \<and> H (heap s')) (parked E) s"
  by (simp add: safe_def)

lemma keeps_trans: "keeps s t \<Longrightarrow> keeps t u \<Longrightarrow> keeps s u"
  by (simp add: keeps_def)

lemma safe_kbind [safe_intros]:
  assumes "safe E H m" and "\<And>x. safe E H (f x)"
  shows "safe E H (kbind m f)"
  unfolding safe_def
proof (intro allI impI)
  fix s :: "('a, 'b, 'c) kernel"
  assume "running s" "H (heap s)"
  then have "wp m (\<lambda>_ s'. keeps s s' \<and> H (heap s')) (parked E) s" by (rule safeD [OF assms(1)])
  then show "wp (kbind m f) (\<lambda>_ s'. keeps s s' \<and> H (heap s')) (parked E) s"
    unfolding wp_seq
  proof (rule wp_mono)
    fix x s' assume k: "keeps s s' \<and> H (heap s')"
    then have "wp (f x) (\<lambda>_ u. keeps s' u \<and> H (heap u)) (parked E) s'" by (intro safeD [OF assms(2)]) (simp_all add: keeps_def)
    then show "wp (f x) (\<lambda>_ u. keeps s u \<and> H (heap u)) (parked E) s'" by (rule wp_mono) (use k keeps_trans in blast)
  qed
qed

lemma safe_kthen [safe_intros]: "safe E H m \<Longrightarrow> safe E H n \<Longrightarrow> safe E H (kthen m n)"
  unfolding kthen_def by (rule safe_kbind)

lemma safe_kret [safe_intros]: "safe E H (kret x)"
  by (simp add: safe_def wp_simps keeps_def)

lemma safe_kget [safe_intros]: "safe E H (kget f)"
  by (simp add: safe_def wp_simps keeps_def)

lemma safe_if [safe_intros]: "safe E H m \<Longrightarrow> safe E H n \<Longrightarrow> safe E H (if b then m else n)"
  by simp

lemma safe_kfor [safe_intros]: "(\<And>i. safe E H (body i)) \<Longrightarrow> safe E H (kfor is body)"
  by (induction "is") (auto intro: safe_intros)

lemma safe_print [safe_intros]: "safe E H (print E args)"
  by (simp add: safe_def wp_simps running_def keeps_def printed_wf)

lemma safe_println [safe_intros]: "safe E H (println E args)"
  unfolding println_def by (rule safe_print)

lemma safe_clear_screen [safe_intros]: "safe E H (vga_clear_screen E)"
  by (auto simp: safe_def wp_simps running_def keeps_def screen_cleared_def on_screen_def clear_screen_total
      cleared_wf)

lemma safe_call_panic [safe_intros]: "safe E H (call_panic_handler E info)"
  by (auto simp: safe_def running_def parked_def panicked_def intro!: wp_call_panic)

lemma safe_raise_panic [safe_intros]: "safe E H (raise_panic E p)"
  unfolding raise_panic_def by (rule safe_call_panic)

lemma safe_kres [safe_intros]: "safe E H (kres E r)"
  by (cases r) (simp_all add: kres_def safe_intros)

lemma safe_deliver [safe_intros]: "safe E H (deliver E True ip ex)"
  unfolding safe_def
proof (intro allI impI)
  fix s :: "('a, 'b, 'c) kernel"
  assume s: "running s" "H (heap s)"
  show "wp (deliver E True ip ex) (\<lambda>_ s'. keeps s s' \<and> H (heap s')) (parked E) s"
  proof (cases "fatal_report ex")
    case None
    then have "ex = Breakpoint" by (cases ex) simp_all
    then show ?thesis using s by (simp add: wp_deliver_breakpoint running_def keeps_def printed_wf)
  next
    case (Some r)
    then show ?thesis
      using s by (intro wp_deliver_fatal [OF Some]) (auto simp: running_def parked_def reported_def)
  qed
qed

lemma safe_deliver_bad_stack [safe_intros]: "safe E H (deliver E False ip ex)"
  by (auto simp: safe_def running_def parked_def double_fault_reported_def reported_def intro!: wp_deliver_bad_stack)

section \<open>Services and commands\<close>

lemma safe_memory_info [safe_intros]: "safe E H (memory_info E)"
  by (auto simp: safe_def memory_info_def wp_simps running_def keeps_def)

text \<open>Only \<open>mem\<close> touches the heap; without a property of the heap to keep it is safe.\<close>

lemma safe_set_heap [safe_intros]: "safe E (\<lambda>_. True) (kupd (\<lambda>s. s\<lparr>heap := f s\<rparr>))"
  by (simp add: safe_def wp_simps keeps_def running_def)

lemma safe_alloc [safe_intros]: "safe E (\<lambda>_. True) (alloc E sz align)"
  by (auto simp: alloc_def alloc_error_handler_def Let_def intro!: safe_intros split: prod.splits option.splits)

lemma safe_realloc [safe_intros]: "safe E (\<lambda>_. True) (realloc E ptr old align new)"
  by (auto simp: realloc_def alloc_error_handler_def Let_def intro!: safe_intros split: prod.splits option.splits)

lemma safe_dealloc [safe_intros]: "safe E (\<lambda>_. True) (dealloc E ptr sz align)"
  unfolding dealloc_def by (rule safe_intros)

lemma safe_vec_push [safe_intros]: "safe E (\<lambda>_. True) (vec_push E sz x v)"
  by (simp add: vec_push_def Let_def safe_intros)

lemma safe_vec_push_all [safe_intros]: "safe E (\<lambda>_. True) (vec_push_all E sz xs v)"
  by (induction xs arbitrary: v) (auto intro!: safe_intros)

lemma safe_access_memory [safe_intros]: "safe E H (access_memory E site is_write a)"
  by (auto simp: access_memory_def intro!: safe_intros split: option.splits)

lemma safe_stack_overflow [safe_intros]: "safe E H (stack_overflow E room)"
  by (induction room) (auto intro!: safe_intros)

lemmas falha_defs =
  cmd_falha_def cmd_falha_pagina_def cmd_falha_pilha_def cmd_falha_opcode_def cmd_falha_protecao_def
  cmd_falha_breakpoint_def

lemma safe_cmd_falha [safe_intros]: "safe E H (cmd_falha E tipo)"
  by (simp add: falha_defs Let_def safe_intros)

lemma safe_vec_drop [safe_intros]: "safe E (\<lambda>_. True) (vec_drop E sz v)"
  by (simp add: vec_drop_def safe_intros)

lemma safe_cmd_mem [safe_intros]: "safe E (\<lambda>_. True) (cmd_mem E)"
  unfolding cmd_mem_def by (intro safe_intros)

lemma safe_cmd_help [safe_intros]: "safe E H (cmd_help E)"
  by (auto simp: cmd_help_def intro!: safe_intros)

text \<open>Every command is safe where \<open>mem\<close> is.\<close>

abbreviation (input) mem_safe :: "'g itself \<Rightarrow> ('h \<Rightarrow> bool) \<Rightarrow> ('pt, 'h) env \<Rightarrow> bool" where
  "mem_safe _ H E \<equiv> safe E H (cmd_mem E :: (unit, ('pt, 'h, 'g) kernel) prog)"

lemma safe_execute: "mem_safe TYPE('g) H E \<Longrightarrow> safe E H (execute E line :: (unit, ('pt, 'h, 'g) kernel) prog)"
  by (simp add: execute_def cmd_echo_def cmd_sobre_def cmd_panic_def Let_def safe_intros split: prod.splits)

section \<open>The invariant of the kernel\<close>

definition kernel_inv :: "('pt, 'h, 'g) kernel \<Rightarrow> bool" where
  "kernel_inv s \<longleftrightarrow>
     running s \<and> held s = {} \<and> line_inv (LINE s) \<and> queue_inv (SCANCODE_QUEUE s)"

text \<open>What the shell leaves to the rest of the kernel.\<close>

definition input_frame :: "('pt, 'h, 'g) kernel \<Rightarrow> ('pt, 'h, 'g) kernel \<Rightarrow> bool" where
  "input_frame s s' \<longleftrightarrow> SHIFT s' = SHIFT s \<and> SCANCODE_QUEUE s' = SCANCODE_QUEUE s \<and>
     interrupts_enabled s' = interrupts_enabled s \<and> MEMORY_INFO s' = MEMORY_INFO s \<and> page_tables s' = page_tables s \<and>
     cpu_tss s' = cpu_tss s"

lemma wp_line_pop:
  assumes "LINE_lock \<notin> held s" and "line_inv (LINE s)"
    and "\<And>l'. line_inv l' \<Longrightarrow> line_contents l' = butlast (line_contents (LINE s)) \<Longrightarrow>
      Q (line_contents (LINE s) \<noteq> []) (s\<lparr>LINE := l'\<rparr>)"
  shows "wp (line_pop E) Q S s"
  using assms line_pop_refines [OF assms(2)] by (auto simp: line_pop_def wp_simps kres_def held_same)

lemma wp_line_push:
  assumes "LINE_lock \<notin> held s" and "line_inv (LINE s)" and "printable b"
    and "\<And>l'. line_inv l' \<Longrightarrow> line_contents l' =
        (if length (line_contents (LINE s)) < LINE_CAPACITY then line_contents (LINE s) @ [b]
         else line_contents (LINE s)) \<Longrightarrow>
      Q (length (line_contents (LINE s)) < LINE_CAPACITY) (s\<lparr>LINE := l'\<rparr>)"
  shows "wp (line_push E b) Q S s"
  using assms line_push_refines [OF assms(2,3)] by (auto simp: line_push_def wp_simps kres_def held_same)

lemma wp_execute_locked:
  fixes s :: "('pt, 'h, 'g) kernel"
  assumes "kernel_inv s" and "mem_safe TYPE('g) H E" and "H (heap s)"
    and "\<And>s'. kernel_inv s' \<Longrightarrow> line_contents (LINE s') = [] \<Longrightarrow> input_frame s s' \<Longrightarrow> H (heap s') \<Longrightarrow> Q () s'"
    and "\<And>e s'. parked E e s' \<Longrightarrow> S e s'"
  shows "wp (with_lock LINE_lock
          (kbind (kget LINE) (\<lambda>line.
           kbind (kres E (LineBuffer_as_str line)) (\<lambda>text.
           kthen (execute E text)
           (kupd (\<lambda>s. s\<lparr>LINE := LineBuffer_clear (LINE s)\<rparr>)))))) Q S s"
proof -
  let ?s = "s\<lparr>held := {LINE_lock}\<rparr>"
  have "running ?s" "H (heap ?s)" using assms(1,3) by (simp_all add: kernel_inv_def running_def)
  then have "wp (execute E (line_contents (LINE s))) (\<lambda>_ s'. keeps ?s s' \<and> H (heap s')) (parked E) ?s"
    by (rule safeD [OF safe_execute [OF assms(2)]])
  then have "wp (execute E (line_contents (LINE s)))
      (\<lambda>_ s'. Q () (s'\<lparr>LINE := LineBuffer_clear (LINE s'), held := held s' - {LINE_lock}\<rparr>)) S ?s"
  proof (rule wp_mono)
    fix x s' assume "keeps ?s s' \<and> H (heap s')"
    then show "Q () (s'\<lparr>LINE := LineBuffer_clear (LINE s'), held := held s' - {LINE_lock}\<rparr>)"
      using assms(1) line_clear_refines [of "LINE s"]
      by (intro assms(4)) (simp_all add: keeps_def kernel_inv_def running_def input_frame_def)
  qed (rule assms(5))
  then show ?thesis
    using assms(1) by (simp add: wp_simps kres_def kernel_inv_def line_as_str)
qed

lemma kernel_inv_printed: "kernel_inv s \<Longrightarrow> kernel_inv (printed t s)"
  by (simp add: kernel_inv_def running_def printed_wf)

lemma input_frame_printed:
  "input_frame s (printed t s)" "input_frame (printed t s) s' = input_frame s s'"
  by (simp_all add: input_frame_def)

lemma wp_feed_keeps:
  fixes s :: "('pt, 'h, 'g) kernel"
  assumes "kernel_inv s" and "mem_safe TYPE('g) H E" and "H (heap s)"
  shows "wp (feed E b) (\<lambda>_ s'. kernel_inv s' \<and> input_frame s s' \<and> H (heap s')) (parked E) s"
proof -
  have s: "WRITER_lock \<notin> held s" "writer_wf (WRITER s)" "LINE_lock \<notin> held s" "line_inv (LINE s)" "running s"
    using assms(1) by (simp_all add: kernel_inv_def running_def)
  consider "b = newline" | "b = 0x08" | "b \<noteq> newline" "b \<noteq> 0x08" "printable b"
    | "b \<noteq> newline" "b \<noteq> 0x08" "\<not> printable b" by blast
  then show ?thesis
  proof cases
    case 1
    have "wp (print_prompt E) (\<lambda>_ s'. kernel_inv s' \<and> input_frame s s' \<and> H (heap s')) (parked E) s'"
      if "kernel_inv s'" "input_frame s s'" "H (heap s')" for s'
    proof -
      have "WRITER_lock \<notin> held s'" "writer_wf (WRITER s')"
        using that by (simp_all add: kernel_inv_def running_def)
      then show ?thesis using that by (simp add: print_prompt_def wp_simps kernel_inv_printed) (simp add: input_frame_def)
    qed
    then show ?thesis
      using s assms 1
      by (simp add: feed_def wp_seq wp_println)
        (rule wp_execute_locked [OF kernel_inv_printed, where H = H], simp_all add: input_frame_printed)
  next
    case 2
    then show ?thesis
      using s assms(1,3)
      by (auto simp: feed_def wp_seq wp_simps kernel_inv_def running_def screen_erased_def on_screen_def
          backspace_eq erased_wf input_frame_def intro!: wp_line_pop)
  next
    case 3
    then show ?thesis
      using s assms(1,3)
      by (auto simp: feed_def wp_seq wp_simps kernel_inv_def running_def printed_wf printable_def input_frame_def
          intro!: wp_line_push)
  next
    case 4
    then show ?thesis using assms(1,3) by (auto simp: feed_def wp_simps printable_def input_frame_def)
  qed
qed

lemma wp_feed_inv:
  assumes "kernel_inv s"
  shows "wp (feed E b) (\<lambda>_ s'. kernel_inv s' \<and> input_frame s s') (parked E) s"
  using wp_feed_keeps [OF assms safe_cmd_mem, of E b] by simp

section \<open>Properties\<close>

text \<open>
  C6. The prompt never hangs and never resets the machine: from a kernel that satisfies
  the invariant, with no lock held, a byte of input leaves a kernel that satisfies the
  invariant again, with every lock released, or else the processor is parked after a panic
  or a fatal exception has been registered (in a test binary, whose panics do not register
  themselves, after the host has been told how the test ended). No lock is ever waited for, although a command
  runs with the line buffer locked and may be interrupted by an exception whose handler
  prints.
\<close>

theorem feed_never_stuck:
  assumes "kernel_inv s"
  shows "(\<exists>s'. feed E b s = Ret () s' \<and> kernel_inv s') \<or>
    (\<exists>s'. feed E b s = Stop Halted s' \<and> (PANICKING s' \<or> panic_over E s'))"
  using wp_feed_inv [OF assms, of E b] by (auto simp: wp_def parked_def split: outcome.splits)

definition prompt_kernel :: "(example_tables, example_heap, example_gdt) kernel" where
  "prompt_kernel = ready_kernel\<lparr>MEMORY_INFO :=
     Some \<lparr>usable_bytes = 131072, heap_start = HEAP_START, heap_size = HEAP_SIZE\<rparr>\<rparr>"

lemma prompt_kernel_inv: "kernel_inv prompt_kernel"
  by (simp add: prompt_kernel_def kernel_inv_def running_def queue_inv_new)
    (simp add: ready_kernel_def example_kernel_def kernel_start_def line_new)

theorem feed_never_stuck_witness:
  "(\<exists>s'. feed example_env newline prompt_kernel = Ret () s' \<and> kernel_inv s') \<or>
   (\<exists>s'. feed example_env newline prompt_kernel = Stop Halted s' \<and> (PANICKING s' \<or> panic_over example_env s'))"
  by (rule feed_never_stuck [OF prompt_kernel_inv])

end
