(* ===== verification/Shell_Spec.thy ===== *)
theory Shell_Spec
  imports Shell_Safety
begin

text \<open>
  What the prompt does, as the user sees it: the line that is edited and the terminal
  that shows it. \<open>line_spec\<close> and \<open>tty_edit\<close> are the effect of one byte on the line and
  on the terminal, \<open>command_reply\<close> is the text that a command prints, for the commands
  that only print.
\<close>

section \<open>Editing\<close>

definition editing :: "('pt, 'h, 'g) kernel \<Rightarrow> tty \<Rightarrow> bytes \<Rightarrow> bool" where
  "editing s t l \<longleftrightarrow> kernel_inv s \<and> shows_tty (WRITER s) t \<and> line_contents (LINE s) = l"

definition line_spec :: "u8 \<Rightarrow> bytes \<Rightarrow> bytes" where
  "line_spec b l =
     (if b = 0x08 then butlast l
      else if printable b \<and> length l < LINE_CAPACITY then l @ [b] else l)"

definition tty_edit :: "u8 \<Rightarrow> bytes \<Rightarrow> tty \<Rightarrow> tty" where
  "tty_edit b l t =
     (if b = 0x08 then if l = [] then t else tty_erase t
      else if printable b \<and> length l < LINE_CAPACITY then tty_put b t else t)"

definition feed_all :: "('pt, 'h) env \<Rightarrow> bytes \<Rightarrow> (unit, ('pt, 'h, 'g) kernel) prog" where
  "feed_all E bs = kfor bs (feed E)"

lemma editing_start:
  assumes "editing s t l"
  shows "WRITER_lock \<notin> held s" "writer_wf (WRITER s)" "LINE_lock \<notin> held s" "line_inv (LINE s)" "running s"
    "held s = {}" "shows_tty (WRITER s) t" "line_contents (LINE s) = l" "kernel_inv s"
  using assms by (simp_all add: editing_def kernel_inv_def running_def)

lemma editing_printed: "editing s t l \<Longrightarrow> editing (printed u s) (tty_write u t) l"
  by (simp add: editing_def kernel_inv_printed shows_printed)

lemma editing_line:
  "editing s t l \<Longrightarrow> line_inv l' \<Longrightarrow> line_contents l' = m \<Longrightarrow> editing (s\<lparr>LINE := l'\<rparr>) t m"
  by (simp add: editing_def kernel_inv_def running_def)

lemma editing_erased:
  assumes "editing s t l"
  shows "editing (screen_erased s) (tty_erase t) l"
proof -
  have "writer_wf (WRITER (screen_erased s))"
    using assms shows_tty_wf [OF shows_screen_erased] by (auto simp: editing_def)
  then show ?thesis
    using assms shows_screen_erased [of s t]
    by (simp add: editing_def kernel_inv_def running_def screen_erased_def)
qed

lemma tty_write_single: "printable b \<Longrightarrow> tty_write [b] t = tty_put b t"
  by (simp add: tty_write_def)

lemma wp_feed_edit:
  assumes "editing s t l" and "b \<noteq> newline"
    and "\<And>s'. editing s' (tty_edit b l t) (line_spec b l) \<Longrightarrow> serial_text s' = serial_text s \<Longrightarrow> Q () s'"
  shows "wp (feed E b) Q S s"
proof -
  note s = editing_start [OF assms(1)]
  have serial: "serial_text (s\<lparr>LINE := l'\<rparr>) = serial_text s" for l' by (simp add: serial_text_def)
  have erased: "wp (vga_backspace E) Q S s'"
    if "editing s' t (butlast l)" "b = 0x08" "l \<noteq> []" "serial_text s' = serial_text s" for s'
  proof -
    have "WRITER_lock \<notin> held s'" "writer_wf (WRITER s')" using editing_start [OF that(1)] by simp_all
    moreover have "editing (screen_erased s') (tty_edit b l t) (line_spec b l)"
      using editing_erased [OF that(1)] that(2,3) by (simp add: tty_edit_def line_spec_def)
    ultimately show ?thesis using that(4) by (simp add: wp_vga_backspace assms(3))
  qed
  have echoed: "wp (print E [[b]]) Q S s'"
    if "editing s' t (l @ [b])" "b \<noteq> 0x08" "printable b" "length l < LINE_CAPACITY" "serial_text s' = serial_text s" for s'
  proof -
    have "WRITER_lock \<notin> held s'" "writer_wf (WRITER s')" using editing_start [OF that(1)] by simp_all
    moreover have "editing (printed [b] s') (tty_edit b l t) (line_spec b l)"
      using editing_printed [OF that(1), of "[b]"] that(2-4)
      by (simp add: tty_edit_def line_spec_def tty_write_single)
    ultimately show ?thesis using that(5) by (simp add: wp_print assms(3))
  qed
  consider "b = 0x08" | "b \<noteq> 0x08" "printable b" | "b \<noteq> 0x08" "\<not> printable b" by blast
  then show ?thesis
  proof cases
    case 1
    show ?thesis
      using s 1 by (auto simp: feed_def wp_seq wp_if wp_value tty_edit_def line_spec_def
          intro!: wp_line_pop erased assms(3) serial editing_line [OF assms(1)])
  next
    case 2
    have "0x20 \<le> b \<and> b \<le> 0x7e" using 2(2) by (simp add: printable_def)
    then show ?thesis
      using s 2 assms(2) by (auto simp: feed_def wp_seq wp_if wp_value tty_edit_def line_spec_def
          intro!: wp_line_push echoed assms(3) serial editing_line [OF assms(1)])
  next
    case 3
    then show ?thesis
      using assms by (auto simp: feed_def wp_simps printable_def tty_edit_def line_spec_def)
  qed
qed

text \<open>A sequence of bytes without Enter.\<close>

fun tty_edits :: "bytes \<Rightarrow> bytes \<Rightarrow> tty \<Rightarrow> tty" where
  "tty_edits [] l t = t"
| "tty_edits (b # bs) l t = tty_edits bs (line_spec b l) (tty_edit b l t)"

lemma wp_feed_edits:
  "editing s t l \<Longrightarrow> newline \<notin> set bs \<Longrightarrow>
     (\<And>s'. editing s' (tty_edits bs l t) (fold line_spec bs l) \<Longrightarrow> Q () s') \<Longrightarrow> wp (feed_all E bs) Q S s"
proof (induction bs arbitrary: s t l)
  case Nil
  then show ?case by (simp add: feed_all_def wp_simps)
next
  case (Cons b bs)
  have "wp (feed E b) (\<lambda>_. wp (feed_all E bs) Q S) S s"
  proof (rule wp_feed_edit [OF Cons.prems(1)])
    fix s' :: "('a, 'b, 'c) kernel"
    assume "editing s' (tty_edit b l t) (line_spec b l)"
    then show "wp (feed_all E bs) Q S s'" by (rule Cons.IH) (use Cons.prems in auto)
  qed (use Cons.prems in auto)
  then show ?case by (simp add: feed_all_def wp_seq)
qed

lemma feed_edits:
  assumes "editing s t l" and "newline \<notin> set bs"
  shows "\<exists>s'. feed_all E bs s = Ret () s' \<and> editing s' (tty_edits bs l t) (fold line_spec bs l)"
  by (intro wp_RetD wp_feed_edits [OF assms]) simp

section \<open>The row of the prompt\<close>

lemma PROMPT_length: "length PROMPT = 10"
  by (simp add: PROMPT_def)

lemma tty_edits_append: "tty_edits (as @ bs) l t = tty_edits bs (fold line_spec as l) (tty_edits as l t)"
  by (induction "as" arbitrary: l t) simp_all

lemma tty_edit_row:
  assumes "current t = PROMPT @ l" and "length (line_spec b l) \<le> 70" and "length l \<le> 70" and "b \<noteq> newline"
  shows "tty_edit b l t = t\<lparr>current := PROMPT @ line_spec b l\<rparr>"
proof (cases "b = 0x08 \<or> \<not> printable b")
  case True
  then show ?thesis
    using assms by (cases t; cases "l = []") (auto simp: tty_edit_def tty_erase_def line_spec_def butlast_append)
next
  case False
  then have "length l < 70" using assms(2,3) by (simp add: line_spec_def LINE_CAPACITY_def)
  then show ?thesis
    using False assms(1,4) by (simp add: tty_edit_def line_spec_def LINE_CAPACITY_def tty_put_def BUFFER_WIDTH_def
        PROMPT_length)
qed

lemma tty_edits_row:
  "current t = PROMPT @ l \<Longrightarrow> newline \<notin> set bs \<Longrightarrow>
     \<forall>n \<le> length bs. length (fold line_spec (take n bs) l) \<le> 70 \<Longrightarrow>
     tty_edits bs l t = t\<lparr>current := PROMPT @ fold line_spec bs l\<rparr>"
proof (induction bs arbitrary: l t)
  case Nil
  then show ?case by simp
next
  case (Cons b bs)
  have bound: "length (fold line_spec (take n bs) (line_spec b l)) \<le> 70" if "n \<le> length bs" for n
    using Cons.prems(3) that by (auto dest!: spec [of _ "Suc n"])
  have "length l \<le> 70" using Cons.prems(3) by (auto dest!: spec [of _ 0])
  moreover have "length (line_spec b l) \<le> 70" using bound [of 0] by simp
  ultimately have "tty_edit b l t = t\<lparr>current := PROMPT @ line_spec b l\<rparr>"
    using Cons.prems(1,2) by (intro tty_edit_row) auto
  then show ?case using Cons.IH [of "t\<lparr>current := PROMPT @ line_spec b l\<rparr>" "line_spec b l"] Cons.prems(2) bound
    by simp
qed

lemma fold_line_spec_typed:
  "\<forall>b \<in> set bs. printable b \<Longrightarrow> length l + length bs \<le> LINE_CAPACITY \<Longrightarrow> fold line_spec bs l = l @ bs"
proof (induction bs arbitrary: l)
  case Nil
  then show ?case by simp
next
  case (Cons b bs)
  then have "b \<noteq> 0x08" by (auto simp: printable_def)
  then show ?case using Cons by (simp add: line_spec_def)
qed

lemma typed_row:
  assumes "current t = PROMPT" and "\<forall>b \<in> set bs. printable b" and "length bs \<le> 70"
  shows "tty_edits bs [] t = t\<lparr>current := PROMPT @ bs\<rparr>"
proof -
  have "fold line_spec (take n bs) [] = take n bs" for n
    using assms(2,3) by (subst fold_line_spec_typed) (auto simp: LINE_CAPACITY_def dest: in_set_takeD)
  moreover have "newline \<notin> set bs" using assms(2) by (auto simp: printable_def)
  ultimately show ?thesis
    using assms tty_edits_row [of t "[]" bs] fold_line_spec_typed [of bs "[]"] by (simp add: LINE_CAPACITY_def)
qed

section \<open>Properties of the editor\<close>

text \<open>
  C21. Every byte other than Enter has exactly its effect on the line and on the terminal
  and returns: Backspace removes the last byte of the line and erases it on the screen, and
  does nothing on an empty line; a printable byte is appended and echoed while the line has
  fewer than 128, and is ignored after that; every other byte is ignored. Nothing goes to
  the serial port.
\<close>

theorem feed_edits_line:
  assumes "editing s t l" and "b \<noteq> newline"
  shows "\<exists>s'. feed E b s = Ret () s' \<and> editing s' (tty_edit b l t) (line_spec b l) \<and> serial_text s' = serial_text s"
  by (intro wp_RetD wp_feed_edit [OF assms]) simp

lemma prompt_kernel_editing: "editing prompt_kernel tty_empty []"
  by (simp add: editing_def prompt_kernel_inv)
    (simp add: prompt_kernel_def ready_kernel_def blank_writer_shows, simp add: example_kernel_def kernel_start_def line_new)

theorem feed_edits_line_witness:
  "\<exists>s'. feed example_env 0x41 prompt_kernel = Ret () s' \<and> editing s' \<lparr>past = [], current = [0x41]\<rparr> [0x41] \<and>
     serial_text s' = serial_text prompt_kernel"
  using feed_edits_line [OF prompt_kernel_editing, of "0x41" example_env]
  by (simp add: tty_edit_def line_spec_def printable_def LINE_CAPACITY_def tty_put_def tty_empty_def BUFFER_WIDTH_def)

text \<open>
  C22. The bottom row is the prompt followed by the line: starting from a row that shows
  the prompt and the line, any sequence of typed bytes and Backspaces leaves it so, as long
  as the line never gets longer than the 70 columns that the prompt leaves.
\<close>

theorem prompt_row_shows_line:
  assumes "editing s t l" and "current t = PROMPT @ l" and "newline \<notin> set bs"
    and "\<forall>n \<le> length bs. length (fold line_spec (take n bs) l) \<le> 70"
  shows "\<exists>s'. feed_all E bs s = Ret () s' \<and>
    editing s' (t\<lparr>current := PROMPT @ fold line_spec bs l\<rparr>) (fold line_spec bs l)"
  using feed_edits [OF assms(1,3)] tty_edits_row [OF assms(2-4)] by metis

lemma prompted: "\<exists>s. editing (s :: (example_tables, example_heap, example_gdt) kernel) \<lparr>past = [], current = PROMPT\<rparr> []"
  using editing_printed [OF prompt_kernel_editing, of PROMPT]
  by (auto simp: tty_write_fits tty_empty_def PROMPT_def byte_def printable_def BUFFER_WIDTH_def)

theorem prompt_row_shows_line_witness:
  "\<exists>s s'. feed_all example_env [0x41, 0x42, 0x08] s = Ret () s' \<and>
     editing (s' :: (example_tables, example_heap, example_gdt) kernel) \<lparr>past = [], current = PROMPT @ [0x41]\<rparr> [0x41]"
proof -
  obtain s :: "(example_tables, example_heap, example_gdt) kernel" where s: "editing s \<lparr>past = [], current = PROMPT\<rparr> []"
    using prompted by blast
  have "length (fold line_spec (take n [0x41, 0x42, 0x08]) []) \<le> 70" for n
    by (auto simp: line_spec_def take_Cons' LINE_CAPACITY_def)
  with prompt_row_shows_line [OF s, of "[0x41, 0x42, 0x08]" example_env] show ?thesis
    by (auto simp: line_spec_def printable_def LINE_CAPACITY_def)
qed

text \<open>
  C40. Beyond the 70 columns the row and the line part: after 71 typed characters the row
  has wrapped, and of two Backspaces the second removes a byte of the line but nothing on
  the screen, because the writer does not go back over the start of a row. The line then
  has 69 characters and the screen still shows 70.
\<close>

theorem wrapped_backspace_diverges:
  assumes "editing s t []" and "current t = PROMPT" and "printable x"
  shows "\<exists>s'. feed_all E (replicate 71 x @ [0x08, 0x08]) s = Ret () s' \<and>
    editing s' \<lparr>past = past t @ [PROMPT @ replicate 70 x], current = []\<rparr> (replicate 69 x)"
proof -
  let ?bs = "replicate 70 x @ [x, 0x08, 0x08]"
  have x: "x \<noteq> newline" "x \<noteq> 0x08" using assms(3) by (auto simp: printable_def)
  have bs: "replicate 71 x @ [0x08, 0x08] = ?bs" by (simp add: numeral_eq_Suc replicate_append_same)
  have row: "tty_edits (replicate 70 x) [] t = t\<lparr>current := PROMPT @ replicate 70 x\<rparr>"
    using assms by (intro typed_row) auto
  have typed: "fold line_spec (replicate 70 x) [] = replicate 70 x"
    using assms(3) by (subst fold_line_spec_typed) (simp_all add: LINE_CAPACITY_def)
  have snoc: "butlast (replicate 70 x) = replicate 69 x"
    by (simp add: butlast_conv_take)
  have "tty_edits ?bs [] t = \<lparr>past = past t @ [PROMPT @ replicate 70 x], current = []\<rparr>"
    using x assms(3) by (simp add: tty_edits_append row typed tty_edit_def line_spec_def tty_put_def tty_erase_def
        LINE_CAPACITY_def BUFFER_WIDTH_def PROMPT_length del: fold_replicate)
  moreover have "fold line_spec ?bs [] = replicate 69 x"
    using x assms(3) by (simp add: typed line_spec_def LINE_CAPACITY_def snoc del: fold_replicate)
  ultimately show ?thesis
    using feed_edits [OF assms(1), of ?bs E] x unfolding bs by simp
qed

theorem wrapped_backspace_diverges_witness:
  "\<exists>s s'. feed_all example_env (replicate 71 0x78 @ [0x08, 0x08]) s = Ret () s' \<and>
     editing (s' :: (example_tables, example_heap, example_gdt) kernel)
       \<lparr>past = [PROMPT @ replicate 70 0x78], current = []\<rparr> (replicate 69 0x78)"
proof -
  obtain s :: "(example_tables, example_heap, example_gdt) kernel" where s: "editing s \<lparr>past = [], current = PROMPT\<rparr> []"
    using prompted by blast
  from wrapped_backspace_diverges [OF s, of "0x78" example_env] show ?thesis
    by (auto simp: printable_def)
qed

end
