(* ===== verification/Shell_Commands.thy ===== *)
theory Shell_Commands
  imports Shell_Spec
begin

text \<open>
  What Enter does with a complete line: the commands that print and return to the prompt,
  \<open>clear\<close>, the commands that stop the kernel through a panic or an exception, and
  \<open>mem\<close> with its use of the heap.
\<close>

section \<open>Commands that only print\<close>

definition help_text :: bytes where
  "help_text = concat (map (\<lambda>(name, description). name @ str '' - '' @ description @ [newline]) COMMANDS)"

definition sobre_text :: bytes where
  "sobre_text = VERSION @ [newline] @
     str ''proto-os: demonstracao de boot bare metal em Rust, sem SO por baixo.'' @ [newline] @
     str ''Boot via BIOS, saida VGA e teclado via IRQ1, tudo no mesmo binario.'' @ [newline]"

definition falha_types :: "bytes list" where
  "falha_types = [str ''pagina'', str ''pilha'', str ''opcode'', str ''protecao'', str ''breakpoint'']"

definition command_reply :: "bytes \<Rightarrow> bytes option" where
  "command_reply line =
     (if trim line = [] then Some []
      else let (name, rest) = split_command (trim line) in
        if name = str ''help'' then Some help_text
        else if name = str ''echo'' then Some (rest @ [newline])
        else if name = str ''sobre'' then Some sobre_text
        else if name = str ''falha'' then
          if trim rest \<in> set falha_types then None
          else Some (str ''tipos disponiveis: pagina, pilha, opcode, protecao, breakpoint'' @ [newline])
        else if name \<in> set (map fst COMMANDS) then None
        else Some (str ''comando desconhecido: '' @ name @ str '' (digite help)'' @ [newline]))"

lemma printed_Nil: "printed [] s = s"
  by (simp add: printed_def on_screen_def write_fmt_pieces)

lemma wp_kfor_println:
  assumes "WRITER_lock \<notin> held s" and "writer_wf (WRITER s)"
  shows "wp (kfor xs (\<lambda>x. println E (f x))) Q S s = Q () (printed (concat (map (\<lambda>x. concat (f x) @ [newline]) xs)) s)"
  using assms
proof (induction xs arbitrary: s)
  case Nil
  then show ?case by (simp add: wp_simps printed_Nil)
next
  case (Cons x xs)
  then show ?case by (simp add: wp_simps printed_wf printed_twice)
qed

lemma cmd_help_lines: "cmd_help E = kfor COMMANDS (\<lambda>x. println E [fst x, str '' - '', snd x])"
  by (simp add: cmd_help_def case_prod_unfold)

lemma wp_cmd_help:
  assumes "WRITER_lock \<notin> held s" and "writer_wf (WRITER s)"
  shows "wp (cmd_help E) Q S s = Q () (printed help_text s)"
  using assms by (simp add: cmd_help_lines wp_kfor_println help_text_def case_prod_unfold)

lemma wp_cmd_sobre:
  assumes "WRITER_lock \<notin> held s" and "writer_wf (WRITER s)"
  shows "wp (cmd_sobre E) Q S s = Q () (printed sobre_text s)"
  using assms by (simp add: cmd_sobre_def sobre_text_def wp_simps printed_wf printed_twice)

lemma wp_execute_reply:
  assumes "WRITER_lock \<notin> held s" and "writer_wf (WRITER s)" and "command_reply line = Some text"
  shows "wp (execute E line) Q S s = Q () (printed text s)"
proof (cases "trim line = []")
  case True
  then show ?thesis using assms(3) by (simp add: execute_def command_reply_def wp_simps printed_Nil)
next
  case False
  obtain name rest where split: "split_command (trim line) = (name, rest)" by (cases "split_command (trim line)")
  show ?thesis
  proof (cases "name = str ''falha''")
    case True
    then have "trim rest \<notin> set falha_types"
      "text = str ''tipos disponiveis: pagina, pilha, opcode, protecao, breakpoint'' @ [newline]"
      using assms(3) False split
      by (auto simp: command_reply_def str_inj simp del: str_simps split: if_splits)
    then show ?thesis
      using assms(1,2) False split True
      by (simp add: execute_def cmd_falha_def falha_types_def wp_println str_inj del: str_simps)
  next
    case False': False
    then show ?thesis
      using assms False split
      by (auto simp: execute_def command_reply_def cmd_echo_def wp_println wp_cmd_help wp_cmd_sobre COMMANDS_def
          str_inj simp del: str_simps split: if_splits)
  qed
qed

lemma editing_locked:
  assumes "editing s t l"
  shows "WRITER_lock \<notin> held ((printed [newline] s)\<lparr>held := {LINE_lock}\<rparr>)"
    "writer_wf (WRITER ((printed [newline] s)\<lparr>held := {LINE_lock}\<rparr>))"
    "running ((printed [newline] s)\<lparr>held := {LINE_lock}\<rparr>)"
    "shows_tty (WRITER ((printed [newline] s)\<lparr>held := {LINE_lock}\<rparr>)) (tty_write [newline] t)"
  using assms by (simp_all add: editing_def kernel_inv_def running_def printed_wf shows_printed)

text \<open>Enter, in terms of the command that runs with the line locked.\<close>

lemma wp_feed_enter:
  assumes "editing s t l"
  shows "wp (feed E newline) Q S s =
    wp (execute E l)
      (\<lambda>_ s'. wp (print_prompt E) Q S (s'\<lparr>LINE := LineBuffer_clear (LINE s'), held := held s' - {LINE_lock}\<rparr>)) S
      ((printed [newline] s)\<lparr>held := {LINE_lock}\<rparr>)"
  using editing_start [OF assms]
  by (simp add: feed_def wp_seq wp_println wp_with_lock wp_value wp_kupd kres_def line_as_str)

lemma editing_after_command:
  assumes "editing s t l" and "shows_tty (WRITER s') u" and "keeps ((printed [newline] s)\<lparr>held := {LINE_lock}\<rparr>) s'"
  shows "editing (s'\<lparr>LINE := LineBuffer_clear (LINE s'), held := held s' - {LINE_lock}\<rparr>) u []"
  using assms line_clear_refines [of "LINE s"] by (simp add: editing_def kernel_inv_def keeps_def running_def)

lemma wp_print_prompt:
  "editing s t l \<Longrightarrow> (\<And>s'. s' = printed PROMPT s \<Longrightarrow> editing s' (tty_write PROMPT t) l \<Longrightarrow> Q () s') \<Longrightarrow>
     wp (print_prompt E) Q S s"
  using editing_start [of s t l] editing_printed [of s t l PROMPT]
  by (simp add: print_prompt_def wp_print)

lemma prompt_alone: "tty_write PROMPT tty_empty = \<lparr>past = [], current = PROMPT\<rparr>"
  by (simp add: tty_write_fits tty_empty_def PROMPT_def byte_def printable_def BUFFER_WIDTH_def)

lemma keeps_printed:
  "running s \<Longrightarrow> keeps s (printed u s)"
  by (simp add: running_def keeps_def printed_wf)

section \<open>Commands that stop the kernel\<close>

text \<open>The exception that a line provokes, and where, for the fatal variants of \<open>falha\<close>.\<close>

definition falha_exception :: "('pt, 'h) env \<Rightarrow> 'pt \<Rightarrow> bytes \<Rightarrow> (u64 \<times> cpu_exception) option" where
  "falha_exception E pt line =
     (if line = str ''falha pagina''
      then map_option (Pair (instruction_address E read_site)) (memory_access E pt False (HEAP_START + HEAP_SIZE))
      else if line = str ''falha pilha'' then Some (instruction_address E call_site, Double_fault)
      else if line = str ''falha opcode'' then Some (instruction_address E ud2_site, Invalid_opcode)
      else if line = str ''falha protecao''
      then map_option (Pair (instruction_address E write_site)) (memory_access E pt True 0x8000000000000000)
      else None)"

lemma execute_falha:
  assumes "trim line = str (''falha '' @ tipo)" and "CHR '' '' \<notin> set tipo" and "tipo \<noteq> []"
  shows "execute E line = cmd_falha E (str tipo)"
proof -
  have "byte CHR '' '' = 0x20" by (simp add: byte_def)
  then have "split_once_space (trim line) = Some (str ''falha'', str tipo)"
    unfolding split_once_space_Some using assms(1) by (simp add: byte_def)
  then have "split_command (trim line) = (str ''falha'', str tipo)" by (simp add: split_command_def)
  moreover have "trim line \<noteq> []" using assms(1) by simp
  ultimately show ?thesis by (simp add: execute_def str_inj del: str_simps)
qed

lemma trim_word: "s \<noteq> [] \<Longrightarrow> \<forall>c \<in> set s. \<not> is_ascii_space (byte c) \<Longrightarrow> trim (str s) = str s"
  by (intro trim_id) (auto simp: str_def hd_map last_map)

lemma heap_end_ok: "usize_add HEAP_START HEAP_SIZE = Inr (HEAP_START + HEAP_SIZE)"
  by (simp add: usize_add_def HEAP_START_def HEAP_SIZE_def)

lemma falha_trims [simp]:
  "trim (str ''pagina'') = str ''pagina''" "trim (str ''pilha'') = str ''pilha''"
  "trim (str ''opcode'') = str ''opcode''" "trim (str ''protecao'') = str ''protecao''"
  "trim (str ''breakpoint'') = str ''breakpoint''"
  by (intro trim_word; simp add: is_ascii_space_def in_range_def byte_def)+

lemma falha_commands:
  "trim l = str ''falha pagina'' \<Longrightarrow> execute E l = access_memory E read_site False (HEAP_START + HEAP_SIZE)"
  "trim l = str ''falha pilha'' \<Longrightarrow> execute E l = stack_overflow E (stack_room E)"
  "trim l = str ''falha opcode'' \<Longrightarrow> execute E l = deliver E True (instruction_address E ud2_site) Invalid_opcode"
  "trim l = str ''falha protecao'' \<Longrightarrow> execute E l = access_memory E write_site True 0x8000000000000000"
  "trim l = str ''falha breakpoint'' \<Longrightarrow> execute E l = deliver E True (instruction_address E int3_site) Breakpoint"
  using execute_falha [of l "''pagina''" E] execute_falha [of l "''pilha''" E]
    execute_falha [of l "''opcode''" E] execute_falha [of l "''protecao''" E]
    execute_falha [of l "''breakpoint''" E]
  by (simp_all add: falha_defs str_inj heap_end_ok kres_def kbind_def kret_def fun_eq_iff del: str_simps)

lemma wp_stack_overflow: "wp (stack_overflow E room) Q S s = wp (stack_overflow E 0) Q S s"
  by (induction room) (simp_all add: wp_seq wp_value)

lemma wp_falha:
  assumes "running s" and "falha_exception E (page_tables s) (trim l) = Some (ip, ex)" and "fatal_report ex = Some r"
    and "\<And>s'. reported (serial_report E ip r) (screen_report E ip r) s s' \<Longrightarrow> S Halted s'"
  shows "wp (execute E l) Q S s"
proof -
  note run = assms(1) [unfolded running_def]
  have fatal: "wp (deliver E True ip ex) Q S s"
    using run by (intro wp_deliver_fatal [OF assms(3)] assms(4)) auto
  have stack: "wp (stack_overflow E 0) Q S s" if "ip = instruction_address E call_site" "ex = Double_fault"
  proof -
    have "r = (str ''Double Fault'', str ''#DF'', None, None)" using assms(3) that(2) by simp
    then show ?thesis
      using run that(1) assms(4)
      by (simp only: stack_overflow.simps) (intro wp_deliver_bad_stack; simp add: double_fault_reported_def)
  qed
  consider "trim l = str ''falha pagina''" | "trim l = str ''falha pilha''" | "trim l = str ''falha opcode''"
    | "trim l = str ''falha protecao''"
    using assms(2) by (auto simp: falha_exception_def simp del: str_simps split: if_splits)
  then show ?thesis
  proof cases
    case 1
    then show ?thesis using assms(2) fatal
      by (auto simp: falha_exception_def falha_commands access_memory_def wp_seq wp_value str_inj simp del: str_simps)
  next
    case 2
    then show ?thesis using assms(2) stack
      by (simp add: falha_exception_def falha_commands wp_stack_overflow [of E "stack_room E"] str_inj
          del: str_simps stack_overflow.simps)
  next
    case 3
    then show ?thesis using assms(2) fatal
      by (simp add: falha_exception_def falha_commands str_inj del: str_simps)
  next
    case 4
    then show ?thesis using assms(2) fatal
      by (auto simp: falha_exception_def falha_commands access_memory_def wp_seq wp_value str_inj simp del: str_simps)
  qed
qed

text \<open>What \<open>cmd_panic\<close> reports.\<close>

definition panic_command_text :: bytes where
  "panic_command_text = str ''panicked at src/shell.rs:157:5:'' @ [newline] @ str ''comando panic executado no prompt''"

lemma wp_cmd_panic:
  assumes "running s" and "kernel_binary E"
    and "\<And>s'. reported (str ''[PANIC] '' @ panic_command_text @ [newline])
      (newline # str ''[PANIC] '' @ VERSION @ str '' parou: '' @ panic_command_text) s s' \<Longrightarrow> S Halted s'"
  shows "wp (cmd_panic E) Q S s"
proof -
  have "concat (panic_display \<lparr>panic_location = str ''src/shell.rs:157:5'',
      panic_message = str ''comando panic executado no prompt''\<rparr>) = panic_command_text"
    by (simp add: panic_display_def panic_command_text_def)
  then show ?thesis
    using assms(1) unfolding running_def
    by (simp add: cmd_panic_def call_panic_kernel [OF assms(2)] wp_handle_first del: str_simps)
      (rule assms(3), simp add: reported_def shows_printed del: str_simps)
qed

section \<open>Properties\<close>

lemma enter_reply:
  assumes "editing s t l" and "command_reply l = Some text"
  shows "\<exists>s'. feed E newline s = Ret () s' \<and>
    editing s' (tty_write (newline # text @ PROMPT) t) [] \<and> serial_text s' = serial_text s"
proof (rule wp_RetD)
  let ?s = "(printed [newline] s)\<lparr>held := {LINE_lock}\<rparr>"
  let ?u = "(printed text ?s)\<lparr>LINE := LineBuffer_clear (LINE (printed text ?s)), held := held (printed text ?s) - {LINE_lock}\<rparr>"
  note locked = editing_locked [OF assms(1)]
  have "editing ?u (tty_write text (tty_write [newline] t)) []"
    by (rule editing_after_command [OF assms(1) shows_printed [OF locked(4)] keeps_printed [OF locked(3)]])
  moreover have "tty_write PROMPT (tty_write text (tty_write [newline] t)) = tty_write (newline # text @ PROMPT) t"
    by (simp add: tty_write_def)
  moreover have "serial_text (printed PROMPT ?u) = serial_text s" by (simp add: serial_text_def)
  ultimately have "wp (print_prompt E) (\<lambda>x s'. x = () \<and> editing s' (tty_write (newline # text @ PROMPT) t) [] \<and>
      serial_text s' = serial_text s) (\<lambda>_ _. False) ?u"
    by (auto intro!: wp_print_prompt)
  then show "wp (feed E newline) (\<lambda>x s'. x = () \<and> editing s' (tty_write (newline # text @ PROMPT) t) [] \<and>
      serial_text s' = serial_text s) (\<lambda>_ _. False) s"
    by (simp only: wp_feed_enter [OF assms(1)] wp_execute_reply [OF locked(1,2) assms(2)])
qed

text \<open>
  C20. Enter on a command that only prints (\<open>help\<close>, \<open>echo\<close>, \<open>sobre\<close>, \<open>falha\<close>
  without a known type, an empty line, or an unknown command) ends the row, prints the
  reply and a new prompt, empties the line, and sends nothing to the serial port.
\<close>

theorem enter_prints_reply:
  assumes "editing s t l" and "command_reply l = Some text"
  shows "\<exists>s'. feed E newline s = Ret () s' \<and>
    editing s' (tty_write (newline # text @ PROMPT) t) [] \<and> serial_text s' = serial_text s"
  using assms by (rule enter_reply)

theorem enter_prints_reply_witness:
  "\<exists>s'. feed example_env newline prompt_kernel = Ret () s' \<and>
     editing s' (tty_write (newline # [] @ PROMPT) tty_empty) [] \<and> serial_text s' = serial_text prompt_kernel"
  by (rule enter_prints_reply [OF prompt_kernel_editing]) (simp add: command_reply_def trim_def)

text \<open>
  \<open>clear\<close> leaves an empty screen with the prompt on it and an empty line: all earlier
  lines are gone and the prompt stands in the bottom row, where the writer always writes.
\<close>

lemma enter_clears:
  assumes "editing s t l" and "fst (split_command (trim l)) = str ''clear''"
  shows "\<exists>s'. feed E newline s = Ret () s' \<and> editing s' \<lparr>past = [], current = PROMPT\<rparr> []"
proof (rule wp_RetD)
  let ?s = "(printed [newline] s)\<lparr>held := {LINE_lock}\<rparr>"
  let ?u = "(screen_cleared ?s)\<lparr>LINE := LineBuffer_clear (LINE (screen_cleared ?s)),
    held := held (screen_cleared ?s) - {LINE_lock}\<rparr>"
  note locked = editing_locked [OF assms(1)]
  have "trim l \<noteq> []" using assms(2) by (auto simp: split_command_def)
  then have exec: "execute E l = vga_clear_screen E"
    using assms(2) by (simp add: execute_def case_prod_unfold str_inj del: str_simps)
  have "wp (vga_clear_screen E) (\<lambda>_ s'. keeps ?s s' \<and> True) (parked E) ?s"
    by (rule safeD [OF safe_clear_screen locked(3)]) (rule TrueI)
  then have "keeps ?s (screen_cleared ?s)" by (simp only: wp_vga_clear_screen [OF locked(1,2)] simp_thms)
  then have u: "editing ?u tty_empty []"
    by (rule editing_after_command [OF assms(1) shows_screen_cleared [OF locked(2)]])
  have "wp (print_prompt E) (\<lambda>x s'. x = () \<and> editing s' \<lparr>past = [], current = PROMPT\<rparr> []) (\<lambda>_ _. False) ?u"
    by (auto simp: prompt_alone intro!: wp_print_prompt [OF u])
  then show "wp (feed E newline) (\<lambda>x s'. x = () \<and> editing s' \<lparr>past = [], current = PROMPT\<rparr> []) (\<lambda>_ _. False) s"
    by (simp only: wp_feed_enter [OF assms(1)] exec wp_vga_clear_screen [OF locked(1,2)])
qed

lemma typed_line: "\<exists>s. editing (s :: (example_tables, example_heap, example_gdt) kernel)
    \<lparr>past = [], current = PROMPT @ bs\<rparr> bs" if "\<forall>b \<in> set bs. printable b" "length bs \<le> 70" for bs
proof -
  obtain s :: "(example_tables, example_heap, example_gdt) kernel" where s: "editing s \<lparr>past = [], current = PROMPT\<rparr> []"
    using prompted by blast
  have "newline \<notin> set bs" using that(1) by (auto simp: printable_def)
  from feed_edits [OF s this, of example_env] show ?thesis
    using typed_row [of "\<lparr>past = [], current = PROMPT\<rparr>" bs] fold_line_spec_typed [of bs "[]"] that
    by (auto simp: LINE_CAPACITY_def)
qed

lemma enter_falha:
  assumes "editing s t l" and "falha_exception E (page_tables s) (trim l) = Some (ip, ex)"
    and "fatal_report ex = Some r"
  shows "\<exists>s'. feed E newline s = Stop Halted s' \<and>
    serial_text s' = serial_text s @ serial_report E ip r \<and>
    shows_tty (WRITER s') (tty_write (newline # screen_report E ip r) t)"
proof -
  let ?s = "(printed [newline] s)\<lparr>held := {LINE_lock}\<rparr>"
  note locked = editing_locked [OF assms(1)]
  have "falha_exception E (page_tables ?s) (trim l) = Some (ip, ex)" using assms(2) by simp
  from wp_falha [OF locked(3) this assms(3)]
  have "wp (feed E newline) (\<lambda>_ _. False)
      (\<lambda>e s'. e = Halted \<and> reported (serial_report E ip r) (screen_report E ip r) ?s s') s"
    by (simp add: wp_feed_enter [OF assms(1)])
  from wp_StopD [OF this] obtain s' where s': "feed E newline s = Stop Halted s'"
    "reported (serial_report E ip r) (screen_report E ip r) ?s s'" by blast
  have "tty_write (screen_report E ip r) (tty_write [newline] t) = tty_write (newline # screen_report E ip r) t"
    by (simp add: tty_write_def)
  then show ?thesis using s' locked(4) by (auto simp: reported_def serial_text_def)
qed

text \<open>The report of \<open>falha pilha\<close> is made on the stack that is reserved for double faults.\<close>

lemma enter_falha_pilha:
  assumes "editing s t l" and "trim l = str ''falha pilha''"
  shows "\<exists>s'. feed E newline s = Stop Halted s' \<and>
    serial_text s' = serial_text s @
      serial_report E (instruction_address E call_site) (str ''Double Fault'', str ''#DF'', None, None) \<and>
    shows_tty (WRITER s') (tty_write (newline #
      screen_report E (instruction_address E call_site) (str ''Double Fault'', str ''#DF'', None, None)) t) \<and>
    cpu_stack s' = ist_pointer DOUBLE_FAULT_IST_INDEX (cpu_tss s)"
proof -
  let ?s = "(printed [newline] s)\<lparr>held := {LINE_lock}\<rparr>" and ?ip = "instruction_address E call_site"
  note locked = editing_locked [OF assms(1)]
  have "wp (execute E l) Q (\<lambda>e s'. e = Halted \<and> double_fault_reported E ?ip ?s s') ?s" for Q
    using locked(3) unfolding running_def falha_commands(2) [OF assms(2)] wp_stack_overflow [of E "stack_room E"] stack_overflow.simps
    by (intro wp_deliver_bad_stack) auto
  then have "wp (feed E newline) (\<lambda>_ _. False) (\<lambda>e s'. e = Halted \<and> double_fault_reported E ?ip ?s s') s"
    by (simp add: wp_feed_enter [OF assms(1)])
  from wp_StopD [OF this] obtain s' where s': "feed E newline s = Stop Halted s'" "double_fault_reported E ?ip ?s s'" by blast
  have "tty_write b (tty_write [newline] t) = tty_write (newline # b) t" for b by (simp add: tty_write_def)
  then show ?thesis using s' locked(4) by (auto simp: double_fault_reported_def reported_def serial_text_def simp del: str_simps)
qed

text \<open>
  C24. The fatal variants of \<open>falha\<close> show the exception they are meant to show: whatever
  the processor answers to the access past the heap, to the non-canonical access, to
  \<^verbatim>\<open>ud2\<close> and to the exhausted stack, the kernel reports exactly that exception (a
  double fault for the stack) on the serial port and on the screen, below the line typed,
  and parks.
\<close>

theorem falha_shows_exception:
  assumes "editing s t l" and "falha_exception E (page_tables s) (trim l) = Some (ip, ex)"
    and "fatal_report ex = Some r"
  shows "\<exists>s'. feed E newline s = Stop Halted s' \<and>
    serial_text s' = serial_text s @ serial_report E ip r \<and>
    shows_tty (WRITER s') (tty_write (newline # screen_report E ip r) t)"
  using assms by (rule enter_falha)

theorem falha_shows_exception_witness:
  "\<exists>s s'. feed example_env newline s = Stop Halted s' \<and>
     serial_text (s' :: (example_tables, example_heap, example_gdt) kernel) = serial_text s @
       serial_report example_env 0x200000 (str ''Double Fault'', str ''#DF'', None, None)"
proof -
  obtain s :: "(example_tables, example_heap, example_gdt) kernel"
    where s: "editing s \<lparr>past = [], current = PROMPT @ str ''falha pilha''\<rparr> (str ''falha pilha'')"
    using typed_line [of "str ''falha pilha''"] by (auto simp: byte_def printable_def)
  have "trim (str ''falha pilha'') = str ''falha pilha''"
    by (intro trim_id) (simp add: is_ascii_space_def in_range_def byte_def)
  then have "falha_exception example_env (page_tables s) (trim (str ''falha pilha'')) = Some (0x200000, Double_fault)"
    by (simp add: falha_exception_def example_env_def str_inj del: str_simps)
  from falha_shows_exception [OF s this] show ?thesis by fastforce
qed

end
