(* ===== verification/Shell_Mem.thy ===== *)
theory Shell_Mem
  imports Shell_Commands
begin

text \<open>
  The \<open>mem\<close> command and the heap. \<open>heap_contract\<close> states what the global allocator
  documents, over the set of live blocks; a vector under construction owns one block, and
  when the command returns every block it took has been given back.
\<close>

section \<open>The contract of the allocator\<close>

definition heap_contract :: "('pt, 'h) env \<Rightarrow> ('h \<Rightarrow> (usize \<times> usize) set) \<Rightarrow> bool" where
  "heap_contract E live \<longleftrightarrow>
     (\<forall>sz align h p h'. heap_alloc E sz align h = (Some p, h') \<longrightarrow>
        (p, sz) \<notin> live h \<and> live h' = insert (p, sz) (live h)) \<and>
     (\<forall>ptr old align new h p h'. heap_realloc E ptr old align new h = (Some p, h') \<longrightarrow> (ptr, old) \<in> live h \<longrightarrow>
        (p, new) \<notin> live h - {(ptr, old)} \<and> live h' = insert (p, new) (live h - {(ptr, old)})) \<and>
     (\<forall>ptr sz align h. (ptr, sz) \<in> live h \<longrightarrow> live (heap_dealloc E ptr sz align h) = live h - {(ptr, sz)})"

lemma serial_text_frame [simp]:
  "serial_text (s\<lparr>cpu_gdt := a\<rparr>) = serial_text s"
  "serial_text (s\<lparr>cpu_cs := b\<rparr>) = serial_text s"
  "serial_text (s\<lparr>cpu_tss := tss\<rparr>) = serial_text s"
  "serial_text (s\<lparr>cpu_idt := c\<rparr>) = serial_text s"
  "serial_text (s\<lparr>pic_log := d\<rparr>) = serial_text s"
  "serial_text (s\<lparr>MEMORY_INFO := i\<rparr>) = serial_text s"
  "serial_text (s\<lparr>page_tables := pt\<rparr>) = serial_text s"
  "serial_text (s\<lparr>heap := h\<rparr>) = serial_text s"
  "serial_text (s\<lparr>held := L\<rparr>) = serial_text s"
  by (simp_all add: serial_text_def)

text \<open>Only the heap differs.\<close>

definition heap_only :: "('pt, 'h, 'g) kernel \<Rightarrow> ('pt, 'h, 'g) kernel \<Rightarrow> bool" where
  "heap_only s s' \<longleftrightarrow> s' = s\<lparr>heap := heap s'\<rparr>"

lemma heap_only_trans: "heap_only s t \<Longrightarrow> heap_only t u \<Longrightarrow> heap_only s u"
proof -
  assume "heap_only s t" "heap_only t u"
  then have "t = s\<lparr>heap := heap t\<rparr>" "u = t\<lparr>heap := heap u\<rparr>" by (simp_all only: heap_only_def)
  then have "u = s\<lparr>heap := heap t\<rparr>\<lparr>heap := heap u\<rparr>" by metis
  then show "heap_only s u" by (simp add: heap_only_def)
qed

lemma heap_only_set: "heap_only s (s\<lparr>heap := h\<rparr>)"
  by (simp add: heap_only_def)

lemma heap_only_running: "heap_only s s' \<Longrightarrow> running s \<Longrightarrow> running s'"
  unfolding heap_only_def by (erule ssubst) (simp add: running_def)

text \<open>
  \<open>ready T\<close> is a running kernel that has sent \<open>T\<close> on the serial port so far. A failed
  allocation parks the processor with a panic that names the request.
\<close>

definition ready :: "bytes \<Rightarrow> ('pt, 'h, 'g) kernel \<Rightarrow> bool" where
  "ready T s \<longleftrightarrow> running s \<and> serial_text s = T"

definition heap_refuses :: "('pt, 'h) env \<Rightarrow> usize \<Rightarrow> usize \<Rightarrow> bool" where
  "heap_refuses E sz align \<longleftrightarrow>
     (\<exists>h. fst (heap_alloc E sz align h) = None \<or> (\<exists>ptr old. fst (heap_realloc E ptr old align sz h) = None))"

definition exhausted_info :: "usize \<Rightarrow> usize \<Rightarrow> PanicInfo" where
  "exhausted_info sz align =
     \<lparr>panic_location = str ''src/allocator.rs:77:5'',
      panic_message = str ''heap esgotado: pedido de '' @ fmt_dec sz @ str '' bytes (alinhamento '' @ fmt_dec align @ str '')''\<rparr>"

definition exhausted :: "('pt, 'h) env \<Rightarrow> bytes \<Rightarrow> stop \<Rightarrow> ('pt, 'h, 'g) kernel \<Rightarrow> bool" where
  "exhausted E T e s' \<longleftrightarrow> e = Halted \<and> panic_over E s' \<and>
     (\<exists>sz align. heap_refuses E sz align \<and> serial_text s' = T @ panic_report E (exhausted_info sz align))"

lemma heap_only_ready: "heap_only s s' \<Longrightarrow> ready T s \<Longrightarrow> ready T s'"
  using heap_only_running [of s s'] unfolding heap_only_def ready_def by (metis serial_text_frame(8))

lemma wp_alloc_error:
  assumes "ready T s" and "heap_refuses E sz align"
  shows "wp (alloc_error_handler E sz align) Q (exhausted E T) s"
proof -
  have "wp (call_panic_handler E (exhausted_info sz align)) Q (exhausted E T) s"
    using assms by (intro wp_call_panic) (auto simp: ready_def running_def exhausted_def panicked_def)
  then show ?thesis by (simp add: alloc_error_handler_def exhausted_info_def)
qed

lemma running_heap: "running (s\<lparr>heap := h\<rparr>) = running s"
  by (simp add: running_def)

lemma ready_heap: "ready T (s\<lparr>heap := h\<rparr>) = ready T s"
  by (simp add: ready_def running_heap)

lemma wp_alloc:
  assumes "heap_contract E live" and "ready T s"
    and "\<And>p s'. heap_only s s' \<Longrightarrow> (p, sz) \<notin> live (heap s) \<Longrightarrow> live (heap s') = insert (p, sz) (live (heap s)) \<Longrightarrow>
      Q p s'"
  shows "wp (alloc E sz align) Q (exhausted E T) s"
proof -
  obtain r h' where h': "heap_alloc E sz align (heap s) = (r, h')" by (cases "heap_alloc E sz align (heap s)")
  show ?thesis
  proof (cases r)
    case None
    then have "heap_refuses E sz align" using h' unfolding heap_refuses_def by (metis fst_conv)
    then show ?thesis using None h' assms(2) by (simp add: alloc_def wp_seq wp_value wp_kupd wp_alloc_error ready_heap)
  next
    case (Some p)
    then have "(p, sz) \<notin> live (heap s) \<and> live h' = insert (p, sz) (live (heap s))"
      using h' assms(1) by (simp add: heap_contract_def)
    then show ?thesis
      using h' Some assms(3) [of "s\<lparr>heap := h'\<rparr>" p] heap_only_set [of s h']
      by (simp add: alloc_def wp_seq wp_value wp_kupd)
  qed
qed

lemma wp_realloc:
  assumes "heap_contract E live" and "ready T s" and "(ptr, old) \<in> live (heap s)"
    and "\<And>p s'. heap_only s s' \<Longrightarrow> (p, new) \<notin> live (heap s) - {(ptr, old)} \<Longrightarrow>
      live (heap s') = insert (p, new) (live (heap s) - {(ptr, old)}) \<Longrightarrow> Q p s'"
  shows "wp (realloc E ptr old align new) Q (exhausted E T) s"
proof -
  obtain r h' where h': "heap_realloc E ptr old align new (heap s) = (r, h')"
    by (cases "heap_realloc E ptr old align new (heap s)")
  show ?thesis
  proof (cases r)
    case None
    then have "heap_refuses E new align" using h' unfolding heap_refuses_def by (metis fst_conv)
    then show ?thesis using None h' assms(2) by (simp add: realloc_def wp_seq wp_value wp_kupd wp_alloc_error ready_heap)
  next
    case (Some p)
    then have "(p, new) \<notin> live (heap s) - {(ptr, old)} \<and> live h' = insert (p, new) (live (heap s) - {(ptr, old)})"
      using h' assms(1,3) by (simp add: heap_contract_def)
    then show ?thesis
      using h' Some assms(4) [of "s\<lparr>heap := h'\<rparr>" p] heap_only_set [of s h']
      by (simp add: realloc_def wp_seq wp_value wp_kupd)
  qed
qed

section \<open>Growing a vector\<close>

text \<open>The block of a vector, beside the blocks \<open>B\<close> that were live before.\<close>

definition vec_owns :: "usize \<Rightarrow> (usize \<times> usize) set \<Rightarrow> 'a rust_vec \<Rightarrow> (usize \<times> usize) set \<Rightarrow> bool" where
  "vec_owns sz B v blocks \<longleftrightarrow>
     (if vec_cap v = 0 then blocks = B
      else (vec_ptr v, sz * vec_cap v) \<notin> B \<and> blocks = insert (vec_ptr v, sz * vec_cap v) B)"

definition grown :: "usize \<Rightarrow> usize \<Rightarrow> usize \<Rightarrow> usize" where
  "grown sz cap len = (if len < cap then cap else grow_amortized sz cap (len + 1))"

lemma vec_update:
  "v\<lparr>vec_ptr := p, vec_cap := c, vec_items := xs\<rparr> = \<lparr>vec_ptr = p, vec_cap = c, vec_items = xs\<rparr>"
  by (cases v) simp

lemma wp_vec_push:
  assumes "heap_contract E live" and "ready T s" and "vec_owns sz B v (live (heap s))"
    and "\<And>p s'. heap_only s s' \<Longrightarrow>
      vec_owns sz B \<lparr>vec_ptr = p, vec_cap = grown sz (vec_cap v) (length (vec_items v)), vec_items = vec_items v @ [x]\<rparr>
        (live (heap s')) \<Longrightarrow>
      Q \<lparr>vec_ptr = p, vec_cap = grown sz (vec_cap v) (length (vec_items v)), vec_items = vec_items v @ [x]\<rparr> s'"
  shows "wp (vec_push E sz x v) Q (exhausted E T) s"
proof (cases "length (vec_items v) < vec_cap v")
  case True
  have "heap_only s s" by (simp add: heap_only_def)
  then show ?thesis
    using True assms(3) assms(4) [of s "vec_ptr v"]
    by (cases v) (simp add: vec_push_def wp_seq wp_value grown_def vec_owns_def)
next
  case False
  let ?cap = "grow_amortized sz (vec_cap v) (length (vec_items v) + 1)"
  have cap: "grown sz (vec_cap v) (length (vec_items v)) = ?cap" "?cap \<noteq> 0"
    using False by (simp_all add: grown_def grow_amortized_def min_non_zero_cap_def)
  let ?v = "\<lambda>p. \<lparr>vec_ptr = p, vec_cap = ?cap, vec_items = vec_items v @ [x]\<rparr>"
  have grow: "wp (if vec_cap v = 0 then alloc E (sz * ?cap) sz
      else realloc E (vec_ptr v) (sz * vec_cap v) sz (sz * ?cap)) (\<lambda>p. Q (?v p)) (exhausted E T) s"
  proof (cases "vec_cap v = 0")
    case True
    then show ?thesis
      using assms(1-3) assms(4) [unfolded cap(1)] cap(2)
      by (auto simp: vec_owns_def intro!: wp_alloc [of E live])
  next
    case False: False
    then have "(vec_ptr v, sz * vec_cap v) \<in> live (heap s)" "live (heap s) - {(vec_ptr v, sz * vec_cap v)} = B"
      using assms(3) by (auto simp: vec_owns_def)
    then show ?thesis
      using False assms(1,2) assms(4) [unfolded cap(1)] cap(2)
      by (auto simp: vec_owns_def intro!: wp_realloc [of E live])
  qed
  then show ?thesis
    using False by (cases "vec_cap v = 0") (simp_all add: vec_push_def wp_seq wp_value Let_def vec_update)
qed

fun grown_all :: "usize \<Rightarrow> nat \<Rightarrow> usize \<Rightarrow> usize \<Rightarrow> usize" where
  "grown_all sz 0 cap len = cap"
| "grown_all sz (Suc n) cap len = grown_all sz n (grown sz cap len) (Suc len)"

lemma wp_vec_push_all:
  assumes "heap_contract E live"
  shows "ready T s \<Longrightarrow> vec_owns sz B v (live (heap s)) \<Longrightarrow>
    (\<And>p s'. heap_only s s' \<Longrightarrow>
      vec_owns sz B \<lparr>vec_ptr = p, vec_cap = grown_all sz (length xs) (vec_cap v) (length (vec_items v)),
        vec_items = vec_items v @ xs\<rparr> (live (heap s')) \<Longrightarrow>
      Q \<lparr>vec_ptr = p, vec_cap = grown_all sz (length xs) (vec_cap v) (length (vec_items v)),
        vec_items = vec_items v @ xs\<rparr> s') \<Longrightarrow>
    wp (vec_push_all E sz xs v) Q (exhausted E T) s"
proof (induction xs arbitrary: v s)
  case Nil
  have "heap_only s s" by (simp add: heap_only_def)
  then show ?case using Nil(2) Nil(3) [of s "vec_ptr v"] by (cases v) (simp add: wp_value)
next
  case (Cons x xs)
  have "wp (vec_push E sz x v) (\<lambda>v. wp (vec_push_all E sz xs v) Q (exhausted E T)) (exhausted E T) s"
    using assms Cons.prems(1,2)
  proof (rule wp_vec_push)
    fix p and s' :: "('a, 'b, 'c) kernel"
    let ?v = "\<lparr>vec_ptr = p, vec_cap = grown sz (vec_cap v) (length (vec_items v)), vec_items = vec_items v @ [x]\<rparr>"
    assume s': "heap_only s s'" "vec_owns sz B ?v (live (heap s'))"
    show "wp (vec_push_all E sz xs ?v) Q (exhausted E T) s'"
      using heap_only_ready [OF s'(1) Cons.prems(1)] s'(2)
    proof (rule Cons.IH)
      fix q s''
      assume "heap_only s' s''"
      then have "heap_only s s''" by (rule heap_only_trans [OF s'(1)])
      then show "vec_owns sz B \<lparr>vec_ptr = q, vec_cap = grown_all sz (length xs) (vec_cap ?v) (length (vec_items ?v)),
            vec_items = vec_items ?v @ xs\<rparr> (live (heap s'')) \<Longrightarrow>
          Q \<lparr>vec_ptr = q, vec_cap = grown_all sz (length xs) (vec_cap ?v) (length (vec_items ?v)),
            vec_items = vec_items ?v @ xs\<rparr> s''"
        using Cons.prems(3) [of s'' q] by simp
    qed
  qed
  then show ?case by (simp add: wp_seq)
qed

lemma vec_ten:
  "length [1..10] = 10" "grown_all 4 10 0 0 = 16"
  "vec_sum \<lparr>vec_ptr = p, vec_cap = 16, vec_items = [1..10]\<rparr> = Inr 55"
proof -
  have ten: "[1..10] = [1, 2, 3, 4, 5, 6, 7, 8, 9, 10 :: int]" by (simp add: upto_rec1)
  show "length [1..10] = 10" by simp
  show "grown_all 4 10 0 0 = 16" by code_simp
  show "vec_sum \<lparr>vec_ptr = p, vec_cap = 16, vec_items = [1..10]\<rparr> = Inr 55"
    by (simp add: ten vec_sum_def i32_add_def)
qed

section \<open>The command\<close>

definition mem_text :: "MemoryInfo \<Rightarrow> usize \<Rightarrow> bytes" where
  "mem_text info p =
     str ''memoria fisica utilizavel: '' @ fmt_dec (usable_bytes info div 1024) @ str '' KiB'' @ [newline] @
     str ''heap: '' @ fmt_hex (heap_start info) @ str '', '' @ fmt_dec (heap_size info div 1024) @ str '' KiB'' @ [newline] @
     str ''Box: valor='' @ fmt_int 42 @ str '', endereco='' @ fmt_hex p @ [newline] @
     str ''Vec: tamanho='' @ fmt_dec 10 @ str '', capacidade='' @ fmt_dec 16 @ str '', soma='' @ fmt_int 55 @ [newline]"

lemma printed_heap: "printed t (s\<lparr>heap := h\<rparr>) = (printed t s)\<lparr>heap := h\<rparr>"
  by (simp add: printed_def on_screen_def split: sum.splits)

lemma running_printed: "running s \<Longrightarrow> running (printed t s)"
  using keeps_printed [of s t] by (simp add: keeps_def)

lemma ready_printed: "ready T s \<Longrightarrow> ready T (printed t s)"
  by (simp add: ready_def running_printed)

lemma ready_running: "ready T s \<Longrightarrow> running s"
  by (simp add: ready_def)

lemma running_writer: "running s \<Longrightarrow> WRITER_lock \<notin> held s" "running s \<Longrightarrow> writer_wf (WRITER s)"
  by (simp_all add: running_def)

lemmas mem_steps = wp_seq wp_value wp_kupd wp_println running_printed running_heap running_writer printed_heap

lemma wp_memory_info:
  "running s \<Longrightarrow> MEMORY_INFO s = Some info \<Longrightarrow> wp (memory_info E) Q S s = Q info s"
  by (simp add: memory_info_def wp_simps running_def held_same)

text \<open>The three parts of the text, and the end of the command once the vector is built.\<close>

definition mem_head :: "MemoryInfo \<Rightarrow> bytes" where
  "mem_head info =
     str ''memoria fisica utilizavel: '' @ fmt_dec (usable_bytes info div 1024) @ str '' KiB'' @ [newline] @
     str ''heap: '' @ fmt_hex (heap_start info) @ str '', '' @ fmt_dec (heap_size info div 1024) @ str '' KiB'' @ [newline]"

definition mem_box :: "usize \<Rightarrow> bytes" where
  "mem_box p = str ''Box: valor='' @ fmt_int 42 @ str '', endereco='' @ fmt_hex p @ [newline]"

definition mem_vec :: bytes where
  "mem_vec = str ''Vec: tamanho='' @ fmt_dec 10 @ str '', capacidade='' @ fmt_dec 16 @
     str '', soma='' @ fmt_int 55 @ [newline]"

lemma mem_text_parts: "mem_text info p = mem_head info @ mem_box p @ mem_vec"
  by (simp add: mem_text_def mem_head_def mem_box_def mem_vec_def)

definition mem_tail :: "('pt, 'h) env \<Rightarrow> usize \<Rightarrow> int rust_vec \<Rightarrow> (unit, ('pt, 'h, 'g) kernel) prog" where
  "mem_tail E valor lista =
     kbind (kres E (vec_sum lista)) (\<lambda>soma.
     kthen (println E [str ''Vec: tamanho='', fmt_dec (length (vec_items lista)), str '', capacidade='',
               fmt_dec (vec_cap lista), str '', soma='', fmt_int soma])
     (kthen (vec_drop E 4 lista)
     (dealloc E valor 4 4)))"

lemma wp_mem_tail:
  assumes C: "heap_contract E live" and s: "ready T s"
    and own: "(valor, 4) \<notin> B" "vec_owns 4 (insert (valor, 4) B) \<lparr>vec_ptr = q, vec_cap = 16, vec_items = [1..10]\<rparr> (live (heap s))"
    and Q: "\<And>h. live h = B \<Longrightarrow> Q () ((printed mem_vec s)\<lparr>heap := h\<rparr>)"
  shows "wp (mem_tail E valor \<lparr>vec_ptr = q, vec_cap = 16, vec_items = [1..10]\<rparr>) Q (exhausted E T) s"
proof -
  let ?h = "heap_dealloc E valor 4 4 (heap_dealloc E q 64 4 (heap s))"
  have "live ?h = B" using C own unfolding heap_contract_def by (auto simp: vec_owns_def)
  then have "Q () ((printed mem_vec s)\<lparr>heap := ?h\<rparr>)" by (rule Q)
  then show ?thesis
    using ready_running [OF s] by (simp add: mem_tail_def kres_def vec_ten vec_drop_def dealloc_def mem_steps mem_vec_def)
qed

lemma heap_only_printed:
  "heap_only s s' \<Longrightarrow> (printed t s')\<lparr>heap := h\<rparr> = (printed t s)\<lparr>heap := h\<rparr>"
  unfolding heap_only_def by (erule ssubst) (simp add: printed_heap)

lemma wp_mem_vec:
  assumes C: "heap_contract E live" and s: "ready T s"
    and own: "(valor, 4) \<notin> B" "live (heap s) = insert (valor, 4) B"
    and Q: "\<And>h. live h = B \<Longrightarrow> Q () ((printed mem_vec s)\<lparr>heap := h\<rparr>)"
  shows "wp (vec_push_all E 4 [1..10] (vec_new 4))
    (\<lambda>lista. wp (mem_tail E valor lista) Q (exhausted E T)) (exhausted E T) s"
proof (rule wp_vec_push_all [OF C s, where B = "live (heap s)"], goal_cases)
  case 1
  show ?case by (simp add: vec_owns_def vec_new_def)
next
  case (2 q s')
  then have "wp (mem_tail E valor \<lparr>vec_ptr = q, vec_cap = 16, vec_items = [1..10]\<rparr>) Q (exhausted E T) s'"
    by (intro wp_mem_tail [OF C heap_only_ready [OF 2(1) s] own(1)])
      (simp_all add: vec_ten vec_new_def own(2) heap_only_printed [OF 2(1)] Q)
  then show ?case by (simp add: vec_ten vec_new_def)
qed

lemma wp_cmd_mem:
  assumes C: "heap_contract E live" and s: "ready T s" and info: "MEMORY_INFO s = Some info"
    and Q: "\<And>p h. live h = live (heap s) \<Longrightarrow> Q () ((printed (mem_text info p) s)\<lparr>heap := h\<rparr>)"
  shows "wp (cmd_mem E) Q (exhausted E T) s"
proof -
  let ?u = "printed (mem_head info) s"
  let ?vec = "vec_push_all E 4 [1..10] (vec_new 4)"
  have "wp (alloc E 4 4) (\<lambda>valor. wp (kthen (println E [str ''Box: valor='', fmt_int 42, str '', endereco='', fmt_hex valor])
      (kbind ?vec (mem_tail E valor))) Q (exhausted E T)) (exhausted E T) ?u"
  proof (rule wp_alloc [OF C ready_printed [OF s]], goal_cases)
    case (1 valor s1)
    have run: "ready T s1" using heap_only_ready [OF 1(1) ready_printed [OF s]] .
    have "wp ?vec (\<lambda>lista. wp (mem_tail E valor lista) Q (exhausted E T)) (exhausted E T) (printed (mem_box valor) s1)"
    proof (rule wp_mem_vec [OF C ready_printed [OF run], of valor "live (heap s)"], goal_cases)
      case (3 h)
      have "(printed mem_vec (printed (mem_box valor) s1))\<lparr>heap := h\<rparr> = (printed (mem_text info valor) s)\<lparr>heap := h\<rparr>"
        using ready_running [OF s] ready_running [OF run] by (simp add: printed_twice running_def heap_only_printed [OF 1(1)] mem_text_parts)
      then show ?case using Q [OF 3] by simp
    qed (use 1(2,3) in simp_all)
    then show ?case using ready_running [OF run] by (simp add: mem_steps mem_box_def del: str_simps)
  qed
  then show ?thesis
    using ready_running [OF s] info
    by (simp add: cmd_mem_def mem_tail_def [symmetric] wp_memory_info mem_steps printed_twice mem_head_def
        del: str_simps)
qed

lemma execute_mem_line:
  assumes "trim l = str ''mem''"
  shows "execute E l = cmd_mem E"
proof -
  have "split_command (str ''mem'') = (str ''mem'', [])" "str ''mem'' \<noteq> []"
    by (simp_all add: split_command_def byte_def)
  then show ?thesis using assms by (simp add: execute_def str_inj del: str_simps)
qed

section \<open>Properties\<close>

text \<open>
  C23. \<open>mem\<close> gives back everything it takes: with an allocator that keeps its contract it
  either prints the summary, the box and the vector (10 elements, capacity 16, sum 55),
  returns to a new prompt and leaves exactly the live blocks of before, so that it can be
  repeated without end; or the allocator has refused a request, and the kernel parks after
  the panic that names its size and alignment.
\<close>

theorem mem_returns_heap:
  assumes "heap_contract E live" and "editing s t l" and "trim l = str ''mem''" and "MEMORY_INFO s = Some info"
  shows "(\<exists>s' p. feed E newline s = Ret () s' \<and> live (heap s') = live (heap s) \<and>
      editing s' (tty_write (newline # mem_text info p @ PROMPT) t) []) \<or>
    (\<exists>s' sz align. feed E newline s = Stop Halted s' \<and> panic_over E s' \<and> heap_refuses E sz align \<and>
      serial_text s' = serial_text s @ panic_report E (exhausted_info sz align))"
proof -
  let ?s = "(printed [newline] s)\<lparr>held := {LINE_lock}\<rparr>"
  let ?Q = "\<lambda>_ s'. \<exists>p. live (heap s') = live (heap s) \<and> editing s' (tty_write (newline # mem_text info p @ PROMPT) t) []"
  let ?S = "exhausted E (serial_text s)"
  note locked = editing_locked [OF assms(2)]
  have ready: "ready (serial_text s) ?s" using locked(3) by (simp add: ready_def)
  note exec = execute_mem_line [OF assms(3)]
  have "wp (cmd_mem E)
      (\<lambda>_ s'. wp (print_prompt E) ?Q ?S (s'\<lparr>LINE := LineBuffer_clear (LINE s'), held := held s' - {LINE_lock}\<rparr>))
      ?S ?s"
  proof (rule wp_cmd_mem [OF assms(1) ready, where info = info], goal_cases)
    case 1
    show ?case using assms(4) by simp
  next
    case (2 p h)
    let ?t = "tty_write (mem_text info p) (tty_write [newline] t)"
    let ?u = "(printed (mem_text info p) ?s)\<lparr>heap := h\<rparr>"
    have "keeps ?s ?u" using keeps_printed [OF locked(3)] by (simp add: keeps_def running_def)
    moreover have "shows_tty (WRITER ?u) ?t" using shows_printed [OF locked(4)] by simp
    ultimately have "editing (?u\<lparr>LINE := LineBuffer_clear (LINE ?u), held := held ?u - {LINE_lock}\<rparr>) ?t []"
      by (intro editing_after_command [OF assms(2)])
    then show ?case
      by (rule wp_print_prompt) (use 2 in \<open>auto simp: tty_write_def intro!: exI [of _ p]\<close>)
  qed
  then have "wp (feed E newline) ?Q ?S s" by (simp only: wp_feed_enter [OF assms(2)] exec)
  then show ?thesis by (auto simp: wp_def exhausted_def split: outcome.splits)
qed

lemma example_alloc_fits:
  assumes "example_alloc sz align h = (Some p, h')"
  shows "example_fits sz align h p" "HEAP_START \<le> p" "h' = (p, sz) # h"
  using assms by (auto simp: example_alloc_def find_Some_iff simp flip: atLeastLessThan_upt
      split: option.splits dest!: nth_mem)

lemma example_fits_fresh: "example_fits sz align h p \<Longrightarrow> (q, n) \<in> set h \<Longrightarrow> q \<noteq> p"
  by (auto simp: example_fits_def list_all_iff)

lemma example_heap_contract: "heap_contract example_env set"
proof -
  have fresh: "(\<forall>(q, n) \<in> set h. q \<noteq> p) \<and> h' = (p, sz) # h"
    if "example_alloc sz align h = (Some p, h')" for sz align h p h'
    using example_alloc_fits [OF that] example_fits_fresh by blast
  show ?thesis
    unfolding heap_contract_def by (auto simp: example_env_def split: prod.splits option.splits dest!: fresh)
qed

theorem mem_returns_heap_witness:
  "\<exists>s. editing s \<lparr>past = [], current = PROMPT @ str ''mem''\<rparr> (str ''mem'') \<and>
    ((\<exists>s'. feed example_env newline s = Ret () s' \<and> set (heap s') = set (heap s)) \<or>
     (\<exists>s'. feed example_env newline s = Stop Halted s' \<and> panic_over example_env (s' :: (example_tables, example_heap, example_gdt) kernel)))"
proof -
  obtain s :: "(example_tables, example_heap, example_gdt) kernel"
    where s: "editing s \<lparr>past = [], current = PROMPT @ str ''mem''\<rparr> (str ''mem'')"
    using typed_line [of "str ''mem''"] by (auto simp: byte_def printable_def)
  have m: "trim (str ''mem'') = str ''mem''"
    by (intro trim_word) (simp_all add: is_ascii_space_def in_range_def byte_def)
  obtain info where "MEMORY_INFO s = Some info" using s by (auto simp: editing_def kernel_inv_def running_def)
  from mem_returns_heap [OF example_heap_contract s m this] s show ?thesis by blast
qed

end
