(* ===== verification/Boot.thy ===== *)
theory Boot
  imports Shell_Mem
begin

text \<open>
  The start of the kernel: \<open>init\<close> and \<open>print_welcome\<close> of \<^verbatim>\<open>src/lib.rs\<close>, \<open>gdt::init\<close>, the locked part of \<open>memory::init\<close>, and
  \<open>kernel_main\<close> of \<^verbatim>\<open>src/main.rs\<close> up to its loop. What the crates provide at boot
  is the record \<open>machine\<close>.
\<close>

section \<open>Initialisation\<close>

record ('pt, 'h, 'g, 'd, 'page, 'frame) machine =
  phys :: "'frame phys_api"
  virt :: "'page virt_api"
  paging :: "('pt, 'page, 'frame, 'frame boot_frames) paging_api"
  descriptors :: "('g, 'd) gdt_api"
  double_fault_stack :: u64
  heap_init :: "usize \<Rightarrow> usize \<Rightarrow> 'h \<Rightarrow> 'h"

text \<open>
  \<^verbatim>\<open>ltr\<close> looks the selector up in the loaded descriptor table; from then on the processor
  uses the task state segment that it finds there.
\<close>

definition load_tss :: "('g, 'd) gdt_api \<Rightarrow> u16 \<Rightarrow> (unit, ('pt, 'h, 'g) kernel) prog" where
  "load_tss D selector = kupd (\<lambda>s. s\<lparr>cpu_tss := Option.bind (cpu_gdt s) (\<lambda>gdt. tss_at D gdt selector)\<rparr>)"

definition gdt_init ::
  "('pt, 'h) env \<Rightarrow> ('pt, 'h, 'g, 'd, 'page, 'frame) machine \<Rightarrow> (unit, ('pt, 'h, 'g) kernel) prog" where
  "gdt_init E B =
     kbind (kres E (GDT (descriptors B) (double_fault_stack B))) (\<lambda>(gdt, selectors).
     kthen (kupd (\<lambda>s. s\<lparr>cpu_gdt := Some gdt\<rparr>))
     (kthen (kupd (\<lambda>s. s\<lparr>cpu_cs := Some (code_selector selectors)\<rparr>))
     (load_tss (descriptors B) (tss_selector selectors))))"

definition memory_init ::
  "('pt, 'h) env \<Rightarrow> ('pt, 'h, 'g, 'd, 'page, 'frame) machine \<Rightarrow> BootInfo \<Rightarrow> (unit, ('pt, 'h, 'g) kernel) prog" where
  "memory_init E B boot_info =
     kbind (kget (\<lambda>s. (page_tables s, heap s))) (\<lambda>(pt, h).
     kbind (kres E (memory_setup (phys B) (virt B) (paging B) (heap_init B) boot_info pt h)) (\<lambda>(pt, h, r).
     kthen (kupd (\<lambda>s. s\<lparr>page_tables := pt, heap := h\<rparr>))
     (kbind (kres E r) (\<lambda>info.
     with_lock MEMORY_INFO_lock (kupd (\<lambda>s. s\<lparr>MEMORY_INFO := Some info\<rparr>))))))"

definition proto_os_init ::
  "('pt, 'h) env \<Rightarrow> ('pt, 'h, 'g, 'd, 'page, 'frame) machine \<Rightarrow> BootInfo \<Rightarrow> (unit, ('pt, 'h, 'g) kernel) prog" where
  "proto_os_init E B boot_info =
     kthen serial_init
     (kthen (serial_println [str ''[boot] '', VERSION, str '' iniciado''])
     (kthen (gdt_init E B)
     (kthen (serial_println [str ''[boot] gdt/tss ativos''])
     (kthen interrupts_init
     (kthen (serial_println [str ''[boot] interrupcoes ativas''])
     (kthen (memory_init E B boot_info)
     (kbind (memory_info E) (\<lambda>info.
     serial_println [str ''[boot] memoria inicializada: '', fmt_dec (usable_bytes info div 1024),
       str '' KiB utilizaveis, heap em '', fmt_hex (heap_start info), str '' ('',
       fmt_dec (heap_size info div 1024), str '' KiB)''])))))))) "

definition print_welcome :: "('pt, 'h) env \<Rightarrow> (unit, ('pt, 'h, 'g) kernel) prog" where
  "print_welcome E =
     kthen (println E [VERSION])
     (kthen (println E [str ''proto-os - sem sistema operacional embaixo''])
     (kthen (println E [str ''Este texto foi escrito direto no buffer de video VGA,''])
     (println E [str ''por este mesmo binario Rust, sem nenhum SO por baixo.''])))"

definition kernel_main_prologue ::
  "('pt, 'h) env \<Rightarrow> ('pt, 'h, 'g, 'd, 'page, 'frame) machine \<Rightarrow> BootInfo \<Rightarrow> (unit, ('pt, 'h, 'g) kernel) prog" where
  "kernel_main_prologue E B boot_info =
     kthen (proto_os_init E B boot_info)
     (kthen (vga_clear_screen E)
     (kthen (print_welcome E)
     (kthen (print_prompt E)
     (serial_println [str ''[boot] prompt pronto'']))))"

section \<open>Lemmas\<close>

definition machine_ok :: "('pt, 'h, 'g, 'd, 'page, 'frame) machine \<Rightarrow> BootInfo \<Rightarrow> bool" where
  "machine_ok B bi \<longleftrightarrow>
     phys_api_ok (phys B) \<and> virt_api_ok (virt B) \<and>
     paging_ok (phys B) (virt B) boot_inv frames_left boot_calls_left (paging B) (physical_memory_offset bi) \<and>
     gdt_api_ok (descriptors B) \<and> double_fault_stack B + DOUBLE_FAULT_STACK_SIZE < 2 ^ 47 \<and>
     map_wf (boot_memory_map bi) \<and> map_ordered (boot_memory_map bi) \<and>
     physical_memory_offset bi + frame_start (phys B) (Cr3_read (paging B)) < 2 ^ 47"

definition boot_summary :: "BootInfo \<Rightarrow> MemoryInfo" where
  "boot_summary bi =
     \<lparr>usable_bytes = 4096 * length (usable_frame_numbers (boot_memory_map bi)),
      heap_start = HEAP_START, heap_size = HEAP_SIZE\<rparr>"

definition boot_stages :: bytes where
  "boot_stages =
     str ''[boot] '' @ VERSION @ str '' iniciado'' @ [newline] @
     str ''[boot] gdt/tss ativos'' @ [newline] @
     str ''[boot] interrupcoes ativas'' @ [newline]"

definition boot_memory_line :: "MemoryInfo \<Rightarrow> bytes" where
  "boot_memory_line info =
     str ''[boot] memoria inicializada: '' @ fmt_dec (usable_bytes info div 1024) @
     str '' KiB utilizaveis, heap em '' @ fmt_hex (heap_start info) @ str '' ('' @
     fmt_dec (heap_size info div 1024) @ str '' KiB)'' @ [newline]"

definition welcome_lines :: "bytes list" where
  "welcome_lines =
     [VERSION, str ''proto-os - sem sistema operacional embaixo'',
      str ''Este texto foi escrito direto no buffer de video VGA,'',
      str ''por este mesmo binario Rust, sem nenhum SO por baixo.'']"

definition memory_panic :: rust_panic where
  "memory_panic = Expect (str ''falha ao mapear o heap: memoria fisica insuficiente'')"

text \<open>The heap range can be mapped on this machine.\<close>

abbreviation (input) reserved :: "('pt, 'h, 'g, 'd, 'page, 'frame) machine \<Rightarrow> BootInfo \<Rightarrow> 'pt \<Rightarrow> bool" where
  "reserved B bi pt \<equiv> tables_reserved (phys B) (paging B) bi pt"

abbreviation (input) heap_fits :: "('pt, 'h, 'g, 'd, 'page, 'frame) machine \<Rightarrow> BootInfo \<Rightarrow> 'pt \<Rightarrow> bool" where
  "heap_fits B bi pt \<equiv> heap_mappable (phys B) (virt B) (paging B) bi pt"

lemma heap_fits_reserved: "heap_fits B bi pt \<Longrightarrow> reserved B bi pt"
  by (simp add: heap_mappable_def)

lemma memory_setup_cases:
  assumes "machine_ok B bi" and "reserved B bi pt"
  shows "(\<exists>pt'. memory_setup (phys B) (virt B) (paging B) (heap_init B) bi pt h = Inr (pt', h, Inl memory_panic) \<and>
      \<not> heap_fits B bi pt) \<or>
    (\<exists>pt'. memory_setup (phys B) (virt B) (paging B) (heap_init B) bi pt h =
      Inr (pt', heap_init B HEAP_START HEAP_SIZE h, Inr (boot_summary bi)) \<and>
      heap_translated (phys B) (virt B) (paging B) bi pt pt' \<and> heap_tables (phys B) (virt B) (paging B) bi pt pt')"
proof -
  obtain pt' h' r where *: "memory_setup (phys B) (virt B) (paging B) (heap_init B) bi pt h = Inr (pt', h', r)"
    "case r of
       Inl p \<Rightarrow> p = memory_panic \<and> h' = h \<and> \<not> heap_fits B bi pt
     | Inr info \<Rightarrow> h' = heap_init B HEAP_START HEAP_SIZE h \<and> info = boot_summary bi \<and>
         heap_translated (phys B) (virt B) (paging B) bi pt pt' \<and> heap_tables (phys B) (virt B) (paging B) bi pt pt'"
    using memory_setup_result [of "phys B" "virt B" "paging B" bi pt "heap_init B" h] assms
    unfolding machine_ok_def boot_summary_def [symmetric] memory_panic_def [symmetric] by blast
  then show ?thesis by (cases r) auto
qed

lemma wp_serial_init [wp_simps]: "wp serial_init Q S s = Q () (sent [] s)"
  by (cases "SERIAL1_initialized s")
    (simp_all add: serial_init_def SERIAL1_force_def wp_simps sent_Nil, simp add: sent_def)

lemma wp_interrupts_init [wp_simps]:
  "PICS_lock \<notin> held s \<Longrightarrow>
     wp interrupts_init Q S s = Q () (s\<lparr>cpu_idt := Some IDT, pic_log := pic_log s @
       [Pics_initialize PIC_1_OFFSET PIC_2_OFFSET, Pics_write_masks MASTER_PIC_MASK SLAVE_PIC_MASK]\<rparr>)"
  by (simp add: interrupts_init_def wp_simps held_same)

lemma wp_gdt_init:
  assumes "GDT (descriptors B) (double_fault_stack B) = Inr (gdt, sel)"
  shows "wp (gdt_init E B) Q S s =
    Q () (s\<lparr>cpu_gdt := Some gdt, cpu_cs := Some (code_selector sel), cpu_tss := tss_at (descriptors B) gdt (tss_selector sel)\<rparr>)"
  using assms by (simp add: gdt_init_def load_tss_def kres_def wp_simps)

lemma wp_memory_init:
  assumes "MEMORY_INFO_lock \<notin> held s"
    and "memory_setup (phys B) (virt B) (paging B) (heap_init B) bi (page_tables s) (heap s) = Inr (pt, h, Inr info)"
  shows "wp (memory_init E B bi) Q S s = Q () (s\<lparr>page_tables := pt, heap := h, MEMORY_INFO := Some info\<rparr>)"
  using assms by (simp add: memory_init_def kres_def wp_simps held_same)

lemma wp_memory_init_panic:
  assumes "memory_setup (phys B) (virt B) (paging B) (heap_init B) bi (page_tables s) (heap s) = Inr (pt, h, Inl p)"
    and "\<not> PANICKING s" and "WRITER_lock \<notin> held s" and "SERIAL1_lock \<notin> held s" and "writer_wf (WRITER s)"
    and "\<And>s'. panicked E (panic_info_of E p) (s\<lparr>page_tables := pt, heap := h\<rparr>) s' \<Longrightarrow> S Halted s'"
  shows "wp (memory_init E B bi) Q S s"
  using assms(1-5)
  by (simp add: memory_init_def kres_def wp_simps raise_panic_def) (rule wp_call_panic, simp_all add: assms(4-6))

text \<open>The state that initialisation leaves, and what a failure leaves on the serial port.\<close>

definition initialized :: "('pt, 'h, 'g, 'd, 'page, 'frame) machine \<Rightarrow> BootInfo \<Rightarrow> ('pt, 'h, 'g) kernel \<Rightarrow> ('pt, 'h, 'g) kernel \<Rightarrow> bool" where
  "initialized B bi s s' \<longleftrightarrow>
     heap s' = heap_init B HEAP_START HEAP_SIZE (heap s) \<and>
     heap_translated (phys B) (virt B) (paging B) bi (page_tables s) (page_tables s') \<and>
     heap_tables (phys B) (virt B) (paging B) bi (page_tables s) (page_tables s') \<and>
     (\<exists>info. memory_setup (phys B) (virt B) (paging B) (heap_init B) bi (page_tables s) (heap s) =
        Inr (page_tables s', heap s', Inr info)) \<and>
     keeps (s\<lparr>cpu_idt := Some IDT, cpu_tss := cpu_tss s', page_tables := page_tables s', MEMORY_INFO := Some (boot_summary bi)\<rparr>) s' \<and>
     MEMORY_INFO s' = Some (boot_summary bi) \<and>
     ist_pointer DOUBLE_FAULT_IST_INDEX (cpu_tss s') = Some (double_fault_stack B + DOUBLE_FAULT_STACK_SIZE) \<and>
     pic_log s' = pic_log s @
       [Pics_initialize PIC_1_OFFSET PIC_2_OFFSET, Pics_write_masks MASTER_PIC_MASK SLAVE_PIC_MASK] \<and>
     serial_text s' = serial_text s @ boot_stages @ boot_memory_line (boot_summary bi)"

definition boot_failed :: "('pt, 'h) env \<Rightarrow> ('pt, 'h, 'g) kernel \<Rightarrow> stop \<Rightarrow> ('pt, 'h, 'g) kernel \<Rightarrow> bool" where
  "boot_failed E s e s' \<longleftrightarrow> e = Halted \<and> panic_over E s' \<and> heap s' = heap s \<and>
     serial_text s' = serial_text s @ boot_stages @ panic_report E (panic_info_of E memory_panic)"

lemma wp_proto_os_init:
  assumes B: "machine_ok B bi" "reserved B bi (page_tables s)"
    and s: "held s = {}" "\<not> PANICKING s" "writer_wf (WRITER s)"
  shows "wp (proto_os_init E B bi) (\<lambda>_. initialized B bi s)
    (\<lambda>e s'. boot_failed E s e s' \<and> \<not> heap_fits B bi (page_tables s)) s"
proof -
  obtain gdt sel tss where gdt: "GDT (descriptors B) (double_fault_stack B) = Inr (gdt, sel)"
    and tss: "tss_at (descriptors B) gdt (tss_selector sel) = Some tss"
      "ist_slot tss DOUBLE_FAULT_IST_INDEX = Some (double_fault_stack B + DOUBLE_FAULT_STACK_SIZE)"
    using GDT_loads_stack [of "descriptors B" "double_fault_stack B"] B(1) by (auto simp: machine_ok_def)
  show ?thesis
    using memory_setup_cases [OF B, of "heap s"]
  proof (elim disjE exE conjE)
    fix pt'
    assume "memory_setup (phys B) (virt B) (paging B) (heap_init B) bi (page_tables s) (heap s) =
        Inr (pt', heap s, Inl memory_panic)" and "\<not> heap_fits B bi (page_tables s)"
    then show ?thesis
      using s
      by (simp add: proto_os_init_def wp_simps wp_gdt_init [OF gdt] del: str_simps)
        (rule wp_memory_init_panic, simp_all add: panicked_def boot_failed_def boot_stages_def conj_commute del: str_simps)
  next
    fix pt'
    assume "memory_setup (phys B) (virt B) (paging B) (heap_init B) bi (page_tables s) (heap s) =
      Inr (pt', heap_init B HEAP_START HEAP_SIZE (heap s), Inr (boot_summary bi))"
      and "heap_translated (phys B) (virt B) (paging B) bi (page_tables s) pt'"
        "heap_tables (phys B) (virt B) (paging B) bi (page_tables s) pt'"
    then show ?thesis
      using s tss by (simp add: proto_os_init_def wp_simps wp_gdt_init [OF gdt] wp_memory_init memory_info_def held_same ist_pointer_def
          initialized_def keeps_def running_def boot_stages_def boot_memory_line_def del: str_simps)
  qed
qed

section \<open>The welcome screen\<close>

lemma wp_print_welcome:
  assumes "WRITER_lock \<notin> held s" and "writer_wf (WRITER s)"
  shows "wp (print_welcome E) Q S s = Q () (printed (concat (map (\<lambda>l. l @ [newline]) welcome_lines)) s)"
  using assms by (simp add: print_welcome_def wp_simps printed_wf printed_twice welcome_lines_def del: str_simps)

lemma tty_write_lines:
  assumes "current t = []"
  shows "\<forall>l \<in> set ls. length l \<le> BUFFER_WIDTH \<and> (\<forall>b \<in> set l. printable b) \<Longrightarrow>
    tty_write (concat (map (\<lambda>l. l @ [newline]) ls)) t = t\<lparr>past := past t @ ls\<rparr>"
  using assms
proof (induction ls arbitrary: t)
  case Nil
  then show ?case by (simp add: tty_write_def)
next
  case (Cons l ls)
  let ?u = "t\<lparr>past := past t @ [l]\<rparr>"
  have "tty_write (concat (map (\<lambda>l. l @ [newline]) (l # ls))) t =
      tty_write (concat (map (\<lambda>l. l @ [newline]) ls)) (tty_write [newline] (tty_write l t))"
    by (simp only: list.map(2) concat.simps(2) tty_write_append)
  also have "tty_write [newline] (tty_write l t) = ?u"
    using Cons.prems by (cases t) (simp add: tty_write_fits tty_write_newline)
  also have "tty_write (concat (map (\<lambda>l. l @ [newline]) ls)) ?u = ?u\<lparr>past := past ?u @ ls\<rparr>"
    using Cons.prems by (intro Cons.IH) simp_all
  finally show ?case by simp
qed

lemma welcome_shown:
  "tty_write PROMPT (tty_write (concat (map (\<lambda>l. l @ [newline]) welcome_lines)) tty_empty) =
     \<lparr>past = welcome_lines, current = PROMPT\<rparr>"
proof -
  have "\<forall>l \<in> set welcome_lines. length l \<le> BUFFER_WIDTH \<and> (\<forall>b \<in> set l. printable b)"
    by (simp add: welcome_lines_def VERSION_def BUFFER_WIDTH_def byte_def printable_def)
  moreover have "\<forall>b \<in> set PROMPT. printable b" "length PROMPT \<le> BUFFER_WIDTH"
    by (simp_all add: PROMPT_def byte_def printable_def BUFFER_WIDTH_def)
  ultimately show ?thesis by (simp add: tty_write_lines tty_write_fits tty_empty_def)
qed

lemma initialized_prompt:
  assumes "initialized B bi (kernel_start mem pt h) s"
  shows "WRITER_lock \<notin> held s" "writer_wf (WRITER s)" "SERIAL1_lock \<notin> held s"
    "serial_text s = boot_stages @ boot_memory_line (boot_summary bi)" "held s = {}"
    "\<not> interrupts_enabled s" "kernel_inv s" "line_contents (LINE s) = []" "queue_contents (SCANCODE_QUEUE s) = []"
    "SHIFT s = ShiftState_new" "pic_log s =
       [Pics_initialize PIC_1_OFFSET PIC_2_OFFSET, Pics_write_masks MASTER_PIC_MASK SLAVE_PIC_MASK]"
    "MEMORY_INFO s = Some (boot_summary bi)"
  using assms
  by (simp_all add: initialized_def keeps_def running_def kernel_start_def kernel_inv_def line_new queue_inv_new
      queue_contents_new serial_text_def)

definition boot_log :: "BootInfo \<Rightarrow> bytes" where
  "boot_log bi = boot_stages @ boot_memory_line (boot_summary bi) @ str ''[boot] prompt pronto'' @ [newline]"

definition at_prompt :: "BootInfo \<Rightarrow> ('pt, 'h, 'g) kernel \<Rightarrow> bool" where
  "at_prompt bi s \<longleftrightarrow>
     editing s \<lparr>past = welcome_lines, current = PROMPT\<rparr> [] \<and>
     queue_contents (SCANCODE_QUEUE s) = [] \<and> SHIFT s = ShiftState_new \<and> \<not> interrupts_enabled s \<and>
     MEMORY_INFO s = Some (boot_summary bi) \<and>
     pic_log s = [Pics_initialize PIC_1_OFFSET PIC_2_OFFSET, Pics_write_masks MASTER_PIC_MASK SLAVE_PIC_MASK] \<and>
     serial_text s = boot_stages @ boot_memory_line (boot_summary bi) @ str ''[boot] prompt pronto'' @ [newline]"

lemma wp_prologue_display:
  assumes s: "initialized B bi (kernel_start mem pt h) s"
  shows "wp (kthen (vga_clear_screen E) (kthen (print_welcome E) (kthen (print_prompt E)
     (serial_println [str ''[boot] prompt pronto'']))))
     (\<lambda>_ s'. at_prompt bi s' \<and> heap s' = heap s \<and> page_tables s' = page_tables s \<and> cpu_tss s' = cpu_tss s) S s"
proof -
  note i = initialized_prompt [OF s]
  let ?c = "screen_cleared s"
  let ?w = "printed PROMPT (printed (concat (map (\<lambda>l. l @ [newline]) welcome_lines)) ?c)"
  have cleared: "shows_tty (WRITER ?c) tty_empty" using i(2) by (rule shows_screen_cleared)
  then have shown: "shows_tty (WRITER ?w) \<lparr>past = welcome_lines, current = PROMPT\<rparr>"
    unfolding welcome_shown [symmetric] by (intro shows_printed)
  have "editing (sent [str ''[boot] prompt pronto'', [newline]] ?w) \<lparr>past = welcome_lines, current = PROMPT\<rparr> []"
    using shown i(7,8) shows_tty_wf [OF shown]
    by (simp add: editing_def kernel_inv_def running_def screen_cleared_def)
  moreover have "serial_text (sent [str ''[boot] prompt pronto'', [newline]] ?w) =
      boot_stages @ boot_memory_line (boot_summary bi) @ str ''[boot] prompt pronto'' @ [newline]"
    using i(4) by (simp del: str_simps)
  ultimately have "at_prompt bi (sent [str ''[boot] prompt pronto'', [newline]] ?w)"
    using i by (simp add: at_prompt_def del: str_simps) (simp add: screen_cleared_def)
  moreover have "heap (sent [str ''[boot] prompt pronto'', [newline]] ?w) = heap s"
    "page_tables (sent [str ''[boot] prompt pronto'', [newline]] ?w) = page_tables s"
    "cpu_tss (sent [str ''[boot] prompt pronto'', [newline]] ?w) = cpu_tss s" by (simp_all add: screen_cleared_def)
  moreover have "WRITER_lock \<notin> held ?c" "SERIAL1_lock \<notin> held ?c" "writer_wf (WRITER ?c)"
    using i(1,3) shows_tty_wf [OF cleared] by (simp_all add: screen_cleared_def)
  ultimately show ?thesis
    using i(1-3) by (simp add: wp_seq wp_vga_clear_screen wp_print_welcome print_prompt_def wp_print printed_wf
        wp_serial_println del: str_simps)
qed

lemma wp_prologue:
  assumes "machine_ok B bi" and "grid_wf mem" and "reserved B bi pt"
  shows "wp (kernel_main_prologue E B bi) (\<lambda>_ s'. at_prompt bi s' \<and> heap s' = heap_init B HEAP_START HEAP_SIZE h \<and>
      heap_translated (phys B) (virt B) (paging B) bi pt (page_tables s') \<and>
      ist_pointer DOUBLE_FAULT_IST_INDEX (cpu_tss s') = Some (double_fault_stack B + DOUBLE_FAULT_STACK_SIZE))
    (\<lambda>e s'. boot_failed E (kernel_start mem pt h) e s' \<and> \<not> heap_fits B bi pt) (kernel_start mem pt h)"
proof -
  let ?s = "kernel_start mem pt h"
  have "page_tables ?s = pt" by (simp add: kernel_start_def)
  then have "wp (proto_os_init E B bi) (\<lambda>_. initialized B bi ?s) (\<lambda>e s'. boot_failed E ?s e s' \<and> \<not> heap_fits B bi pt) ?s"
    using assms wp_proto_os_init [of B bi ?s E]
    by (simp add: kernel_start_def Writer_init_def writer_wf_def)
  then show ?thesis
    unfolding kernel_main_prologue_def wp_seq(2) [of "proto_os_init E B bi"]
  proof (rule wp_mono, goal_cases)
    case (1 x s)
    have "heap s = heap_init B HEAP_START HEAP_SIZE h" "heap_translated (phys B) (virt B) (paging B) bi pt (page_tables s)"
      "ist_pointer DOUBLE_FAULT_IST_INDEX (cpu_tss s) = Some (double_fault_stack B + DOUBLE_FAULT_STACK_SIZE)"
      using 1 by (simp_all add: initialized_def kernel_start_def)
    note mem = this
    from wp_prologue_display [OF 1] show ?case by (rule wp_mono) (simp_all add: mem)
  qed
qed

lemma boot_at_prompt:
  assumes "machine_ok B bi" and "grid_wf mem" and "heap_fits B bi pt"
  shows "\<exists>s'. kernel_main_prologue E B bi (kernel_start mem pt h) = Ret () s' \<and> at_prompt bi s' \<and>
    heap s' = heap_init B HEAP_START HEAP_SIZE h \<and> heap_translated (phys B) (virt B) (paging B) bi pt (page_tables s') \<and>
    ist_pointer DOUBLE_FAULT_IST_INDEX (cpu_tss s') = Some (double_fault_stack B + DOUBLE_FAULT_STACK_SIZE)"
  using wp_prologue [OF assms(1,2) heap_fits_reserved [OF assms(3)], of E h] assms(3) by (auto simp: wp_def split: outcome.splits)

section \<open>Properties\<close>

text \<open>
  C8. The boot sequence always ends: on a machine that keeps the documented contracts,
  whose page tables are in frames that the memory map does not report as usable, and from any contents of the video memory, the kernel reaches the prompt, with the stages
  announced on the serial port in their order, the welcome lines on a cleared screen above
  the prompt, the interrupt controllers programmed so that only the keyboard line is open,
  interrupts still disabled and no lock held. The only exception is a machine with fewer
  than 100 usable frames or with something mapped in the heap range: there it may stop
  after the third stage, with the panic for too little physical memory on the serial port.
\<close>

theorem boot_reaches_prompt:
  assumes "machine_ok B bi" and "grid_wf mem" and "tables_reserved (phys B) (paging B) bi pt"
  shows "(\<exists>s'. kernel_main_prologue E B bi (kernel_start mem pt h) = Ret () s' \<and> at_prompt bi s') \<or>
    \<not> heap_mappable (phys B) (virt B) (paging B) bi pt \<and>
    (\<exists>s'. kernel_main_prologue E B bi (kernel_start mem pt h) = Stop Halted s' \<and> panic_over E s' \<and> heap s' = h \<and>
       serial_text s' = boot_stages @ panic_report E (panic_info_of E memory_panic))"
proof -
  have "heap (kernel_start mem pt h) = h" "serial_text (kernel_start mem pt h) = []"
    by (simp_all add: kernel_start_def serial_text_def)
  then show ?thesis
    using wp_prologue [OF assms, of E h] by (auto simp: wp_def boot_failed_def split: outcome.splits)
qed

definition example_machine :: "(example_tables, example_heap, example_gdt, TaskStateSegment option, u64, u64) machine" where
  "example_machine =
     \<lparr>phys = example_phys, virt = example_virt, paging = example_paging,
      descriptors = \<lparr>TaskStateSegment_new = \<lparr>interrupt_stack_table = replicate 7 0\<rparr>,
        GlobalDescriptorTable_new = [None], gdt_append = (\<lambda>d g. Inr (of_nat (8 * length g), g @ [d])),
        Descriptor_kernel_code_segment = None, Descriptor_tss_segment = Some, VirtAddr_offset = (\<lambda>a b. Inr (a + b)),
        tss_at = (\<lambda>g sel. if unat sel div 8 < length g then g ! (unat sel div 8) else None)\<rparr>,
      double_fault_stack = 0x10000, heap_init = (\<lambda>_ _ _. [])\<rparr>"

lemma example_machine_ok: "machine_ok example_machine example_boot_info"
  using example_phys_ok example_virt_ok example_paging_ok example_map_wf
  by (simp add: machine_ok_def example_machine_def gdt_api_ok_def DOUBLE_FAULT_STACK_SIZE_def)
    (simp add: example_boot_info_def example_phys_def example_paging_def)

lemma example_heap_fits:
  "heap_mappable (phys example_machine) (virt example_machine) (paging example_machine) example_boot_info Map.empty"
  using example_heap_mappable by (simp add: example_machine_def)

lemma blank_grid: "grid_wf (buffer blank_writer)"
  using blank_writer_wf by (simp add: writer_wf_def)

theorem boot_reaches_prompt_witness:
  "\<exists>s'. kernel_main_prologue example_env example_machine example_boot_info (kernel_start (buffer blank_writer) Map.empty []) =
      Ret () s' \<and> at_prompt example_boot_info s'"
  using boot_reaches_prompt [OF example_machine_ok blank_grid heap_fits_reserved [OF example_heap_fits], of example_env "[]"]
    example_heap_fits by blast

end
