(* ===== verification/Test_Harness.thy ===== *)
theory Test_Harness
  imports Boot
begin

text \<open>
  The test runner of \<^verbatim>\<open>src/lib.rs\<close>, \<open>Testable::run\<close> and the entry point of the test
  binaries. The locale \<open>test_suite\<close> is the contract between the runner and the tests: a
  set of tests each of which returns, keeps an invariant of the kernel and sends a known
  text on the serial port. Inside it the runner is verified once, for every order of the
  tests; the binaries are its interpretations.
\<close>

section \<open>The harness\<close>

text \<open>A test is its type name and its body; 9 is the tab.\<close>

definition testable_run :: "bytes \<times> (unit, ('pt, 'h, 'g) kernel) prog \<Rightarrow> (unit, ('pt, 'h, 'g) kernel) prog" where
  "testable_run = (\<lambda>(type_name, body).
     kthen (serial_print [type_name, str ''...'' @ [9]])
     (kthen body
     (serial_println [str ''[ok]''])))"

definition test_runner :: "(bytes \<times> (unit, ('pt, 'h, 'g) kernel) prog) list \<Rightarrow> (unit, ('pt, 'h, 'g) kernel) prog" where
  "test_runner tests =
     kthen (serial_println [str ''Running '', fmt_dec (length tests), str '' tests''])
     (kthen (kfor tests testable_run)
     (exit_qemu Success))"

text \<open>
  The entry point of a test binary. \<open>tests\<close> is what the compiler collects from the
  \<^verbatim>\<open>#[test_case]\<close> functions and hands to the runner in \<open>test_main\<close>.
\<close>

definition test_kernel_main ::
  "('pt, 'h) env \<Rightarrow> ('pt, 'h, 'g, 'd, 'page, 'frame) machine \<Rightarrow> BootInfo \<Rightarrow>
     (bytes \<times> (unit, ('pt, 'h, 'g) kernel) prog) list \<Rightarrow> (unit, ('pt, 'h, 'g) kernel) prog"
where
  "test_kernel_main E B boot_info tests =
     kthen (proto_os_init E B boot_info)
     (kthen (test_runner tests)
     halt_loop)"

text \<open>
  The test binary of \<^verbatim>\<open>src/main.rs\<close> has no test of its own; its panic handler is the one
  of all test binaries.
\<close>

definition main_test_kernel_main ::
  "('pt, 'h) env \<Rightarrow> ('pt, 'h, 'g, 'd, 'page, 'frame) machine \<Rightarrow> BootInfo \<Rightarrow> (unit, ('pt, 'h, 'g) kernel) prog" where
  "main_test_kernel_main E B boot_info =
     kthen (proto_os_init E B boot_info)
     (kthen (test_runner [])
     halt_loop)"

definition main_test_on_panic :: "PanicInfo \<Rightarrow> ('a, ('pt, 'h, 'g) kernel) prog" where
  "main_test_on_panic info = test_panic_handler info"

section \<open>The harness keeps its promises\<close>

lemma wp_serial_print [wp_simps]:
  "SERIAL1_lock \<notin> held s \<Longrightarrow> wp (serial_print args) Q S s = Q () (sent args s)"
  by (simp add: wp_def serial_print_eq)

lemma wp_assert_that: "b \<Longrightarrow> wp (assert_that E b) Q S s = Q () s"
  by (simp add: assert_that_def wp_simps)

lemma wp_kres_value: "wp (kres E (Inr x)) Q S s = Q x s"
  by (simp add: kres_def wp_simps)

lemmas test_steps = wp_assert_that wp_kres_value

lemma main_test_panic_reported:
  assumes "SERIAL1_lock \<notin> held s"
  shows "wp (main_test_on_panic info) Q
    (\<lambda>e s'. e = Halted \<and> exited Failed s' \<and> serial_text s' = serial_text s @ failure_text info) s"
  by (simp add: main_test_on_panic_def wp_test_panic_handler [OF assms] exited_def failure_text_def del: str_simps)

lemma kfor_append: "kfor (xs @ ys) body = kthen (kfor xs body) (kfor ys body)"
  by (induction xs) (simp_all add: kthen_assoc)

text \<open>A test: its name, its body, and what the body sends on the serial port.\<close>

type_synonym ('pt, 'h, 'g) test = "bytes \<times> (unit, ('pt, 'h, 'g) kernel) prog \<times> bytes"

definition runnable :: "('pt, 'h, 'g) test list \<Rightarrow> (bytes \<times> (unit, ('pt, 'h, 'g) kernel) prog) list" where
  "runnable = map (\<lambda>(name, body, out). (name, body))"

definition test_report :: "('pt, 'h, 'g) test \<Rightarrow> bytes" where
  "test_report = (\<lambda>(name, body, out). name @ str ''...'' @ [9] @ out @ str ''[ok]'' @ [newline])"

definition suite_report :: "('pt, 'h, 'g) test list \<Rightarrow> bytes" where
  "suite_report ts = str ''Running '' @ fmt_dec (length ts) @ str '' tests'' @ [newline] @
     concat (map test_report ts)"

text \<open>The runner around the loop over the tests; \<open>P\<close> is what else is known when they have run.\<close>

lemma runner_exits:
  assumes "SERIAL1_lock \<notin> held s"
    and "wp (kfor (runnable ts) testable_run) (\<lambda>_ s'. serial_text s' = serial_text s @ suite_report ts \<and> P s') (\<lambda>_ _. False)
      (sent [str ''Running '', fmt_dec (length ts), str '' tests'', [newline]] s)"
    and "\<And>s' io. P s' \<Longrightarrow> P (s'\<lparr>ports := io\<rparr>)"
  shows "wp (kthen (test_runner (runnable ts)) halt_loop) (\<lambda>_ _. False)
    (\<lambda>e s'. e = Halted \<and> exited Success s' \<and> serial_text s' = serial_text s @ suite_report ts \<and> P s') s"
    (is "wp _ _ ?S _")
proof -
  have "wp (kfor (runnable ts) testable_run) (\<lambda>_. wp (exit_qemu Success) (\<lambda>_. wp halt_loop (\<lambda>_ _. False) ?S) ?S) ?S
      (sent [str ''Running '', fmt_dec (length ts), str '' tests'', [newline]] s)"
    by (rule wp_mono [OF assms(2)]) (simp_all add: wp_exit_qemu exited_def assms(3) del: str_simps)
  moreover have "length (runnable ts) = length ts" by (simp add: runnable_def)
  ultimately show ?thesis
    using assms(1) by (simp add: test_runner_def wp_seq wp_serial_println del: str_simps)
qed

lemma test_report_run:
  assumes "SERIAL1_lock \<notin> held s"
    and "wp body (\<lambda>_ s'. SERIAL1_lock \<notin> held s' \<and> serial_text s' = serial_text (sent [name, str ''...'' @ [9]] s) @ out \<and>
      P (sent [str ''[ok]'', [newline]] s')) (\<lambda>_ _. False) (sent [name, str ''...'' @ [9]] s)"
  shows "wp (testable_run (name, body)) (\<lambda>_ s'. serial_text s' = serial_text s @ test_report (name, body, out) \<and> P s') (\<lambda>_ _. False) s"
proof -
  have "wp body (\<lambda>_. wp (serial_println [str ''[ok]'']) (\<lambda>_ s'. serial_text s' = serial_text s @ test_report (name, body, out) \<and> P s')
      (\<lambda>_ _. False)) (\<lambda>_ _. False) (sent [name, str ''...'' @ [9]] s)"
    by (rule wp_mono [OF assms(2)]) (simp_all add: wp_serial_println test_report_def del: str_simps)
  then show ?thesis using assms(1) by (simp add: testable_run_def wp_seq wp_serial_print del: str_simps)
qed

locale test_suite =
  fixes inv :: "('pt, 'h, 'g) kernel \<Rightarrow> bool"
    and tests :: "('pt, 'h, 'g) test set"
  assumes unlocked: "inv s \<Longrightarrow> SERIAL1_lock \<notin> held s"
    and sent_inv: "inv s \<Longrightarrow> inv (sent args s)"
    and passes: "(name, body, out) \<in> tests \<Longrightarrow> inv s \<Longrightarrow>
      wp body (\<lambda>_ s'. inv s' \<and> serial_text s' = serial_text s @ out) (\<lambda>_ _. False) s"
begin

lemma test_runs:
  assumes "t \<in> tests" and "inv s"
    and "\<And>s'. inv s' \<Longrightarrow> serial_text s' = serial_text s @ test_report t \<Longrightarrow> Q () s'"
  shows "wp (testable_run (fst t, fst (snd t))) Q S s"
proof -
  obtain name body out where t: "t = (name, body, out)" by (cases t)
  let ?s = "sent [name, str ''...'' @ [9]] s"
  have "wp body (\<lambda>_ s'. inv s' \<and> serial_text s' = serial_text ?s @ out) (\<lambda>_ _. False) ?s"
    using passes sent_inv assms(1,2) t by blast
  then have "wp body (\<lambda>_ s'. SERIAL1_lock \<notin> held s' \<and> serial_text s' = serial_text ?s @ out \<and>
      inv (sent [str ''[ok]'', [newline]] s')) (\<lambda>_ _. False) ?s"
    by (rule wp_mono) (use unlocked sent_inv in auto)
  from test_report_run [OF unlocked [OF assms(2)] this] show ?thesis unfolding t fst_conv snd_conv
    by (rule wp_mono) (use assms(3) t in auto)
qed

lemma tests_run:
  "set ts \<subseteq> tests \<Longrightarrow> inv s \<Longrightarrow>
     (\<And>s'. inv s' \<Longrightarrow> serial_text s' = serial_text s @ concat (map test_report ts) \<Longrightarrow> Q () s') \<Longrightarrow>
     wp (kfor (runnable ts) testable_run) Q S s"
proof (induction ts arbitrary: s)
  case Nil
  then show ?case by (simp add: runnable_def wp_simps)
next
  case (Cons t ts)
  have "wp (testable_run (fst t, fst (snd t))) (\<lambda>_. wp (kfor (runnable ts) testable_run) Q S) S s"
  proof (rule test_runs)
    fix s' assume "inv s'" "serial_text s' = serial_text s @ test_report t"
    then show "wp (kfor (runnable ts) testable_run) Q S s'"
      using Cons.prems by (intro Cons.IH) simp_all
  qed (use Cons.prems in simp_all)
  then show ?case by (simp add: runnable_def case_prod_unfold wp_seq)
qed

text \<open>The runner announces the tests, runs them in the given order and exits with success.\<close>

lemma runner_succeeds:
  assumes "set ts \<subseteq> tests" and "inv s"
  shows "wp (kthen (test_runner (runnable ts)) halt_loop) (\<lambda>_ _. False)
    (\<lambda>e s'. e = Halted \<and> exited Success s' \<and> serial_text s' = serial_text s @ suite_report ts) s"
proof -
  let ?s = "sent [str ''Running '', fmt_dec (length ts), str '' tests'', [newline]] s"
  have "wp (kfor (runnable ts) testable_run) (\<lambda>_ s'. serial_text s' = serial_text s @ suite_report ts \<and> True) (\<lambda>_ _. False) ?s"
    using assms by (intro tests_run sent_inv) (simp_all add: suite_report_def del: str_simps)
  from runner_exits [OF unlocked [OF assms(2)] this] show ?thesis by simp
qed

text \<open>
  A test that panics, after \<open>out\<close> on the serial port, ends the run with the failure code; no
  later test is run.
\<close>

lemma runner_fails:
  assumes "set ts \<subseteq> tests" and "inv s"
    and "\<And>s. inv s \<Longrightarrow> \<exists>u. body s = test_panic_handler info u \<and>
      SERIAL1_lock \<notin> held u \<and> serial_text u = serial_text s @ out"
  shows "wp (test_runner (runnable ts @ (name, body) # rest)) (\<lambda>_ _. False)
    (\<lambda>e s'. e = Halted \<and> exited Failed s' \<and>
       serial_text s' = serial_text s @ str ''Running '' @ fmt_dec (Suc (length ts + length rest)) @ str '' tests'' @ [newline] @
         concat (map test_report ts) @ name @ str ''...'' @ [9] @ out @ failure_text info) s"
    (is "wp _ _ ?S _")
proof -
  let ?s = "sent [str ''Running '', fmt_dec (Suc (length ts + length rest)), str '' tests'', [newline]] s"
  let ?rest = "kthen (testable_run (name, body)) (kfor rest testable_run)"
  have "wp (kfor (runnable ts) testable_run) (\<lambda>_. wp ?rest (\<lambda>_. wp (exit_qemu Success) (\<lambda>_ _. False) ?S) ?S) ?S ?s"
  proof (rule tests_run)
    fix s' assume s': "inv s'" "serial_text s' = serial_text ?s @ concat (map test_report ts)"
    let ?t = "sent [name, str ''...'' @ [9]] s'"
    obtain u where u: "body ?t = test_panic_handler info u" "SERIAL1_lock \<notin> held u" "serial_text u = serial_text ?t @ out"
      using assms(3) [OF sent_inv [OF s'(1)]] by blast
    have "wp body Q ?S ?t" for Q
      using u s'(2) wp_test_panic_handler [of u info Q ?S]
      by (simp add: wp_def exited_def failure_text_def del: str_simps)
    then show "wp ?rest (\<lambda>_. wp (exit_qemu Success) (\<lambda>_ _. False) ?S) ?S s'"
      using unlocked [OF s'(1)] by (simp add: testable_run_def wp_seq wp_serial_print del: str_simps)
  qed (use assms(1,2) sent_inv in simp_all)
  moreover have "length (runnable ts) = length ts" by (simp add: runnable_def)
  ultimately show ?thesis
    using unlocked [OF assms(2)] by (simp add: test_runner_def kfor_append wp_seq wp_serial_println del: str_simps)
qed

end

section \<open>Test binaries\<close>

text \<open>
  A test binary boots, and what follows runs in an initialised kernel; or the heap cannot be
  mapped, and the panic of the initialisation has been reported.
\<close>

lemma test_binary_boots_or_fails:
  assumes "machine_ok B bi" and "grid_wf mem" and "reserved B bi pt"
    and "\<And>s. initialized B bi (kernel_start mem pt h) s \<Longrightarrow> wp m Q S s"
    and "\<And>e s. boot_failed E (kernel_start mem pt h) e s \<Longrightarrow> \<not> heap_fits B bi pt \<Longrightarrow> S e s"
  shows "wp (kthen (proto_os_init E B bi) m) Q S (kernel_start mem pt h)"
proof -
  let ?s = "kernel_start mem pt h"
  have "wp (proto_os_init E B bi) (\<lambda>_. initialized B bi ?s) (\<lambda>e s'. boot_failed E ?s e s' \<and> \<not> heap_fits B bi pt) ?s"
    using assms(1-3) wp_proto_os_init [of B bi ?s E]
    by (simp add: kernel_start_def Writer_init_def writer_wf_def)
  then show ?thesis
    unfolding wp_seq by (rule wp_mono) (use assms(4,5) in \<open>blast+\<close>)
qed

lemma test_binary_boots:
  assumes "machine_ok B bi" and "grid_wf mem" and "heap_fits B bi pt"
    and "\<And>s. initialized B bi (kernel_start mem pt h) s \<Longrightarrow> wp m Q S s"
  shows "wp (kthen (proto_os_init E B bi) m) Q S (kernel_start mem pt h)"
  by (rule test_binary_boots_or_fails [OF assms(1,2) heap_fits_reserved [OF assms(3)] assms(4)]) (use assms(3) in \<open>blast+\<close>)

lemma test_kernel_main_runs:
  assumes "machine_ok B bi" and "grid_wf mem" and "heap_fits B bi pt"
    and "\<And>s. initialized B bi (kernel_start mem pt h) s \<Longrightarrow>
      wp (kthen (test_runner tests) halt_loop) (\<lambda>(_ :: unit) _. False) (\<lambda>e s'. e = Halted \<and> P s') s"
  shows "\<exists>s'. test_kernel_main E B bi tests (kernel_start mem pt h) = Stop Halted s' \<and> P s'"
  unfolding test_kernel_main_def by (rule wp_StopD, rule test_binary_boots [OF assms])

lemma test_boot_failed:
  assumes "boot_failed E (kernel_start mem pt h) e s" and "panic_handler E = test_on_panic_fn"
  shows "e = Halted \<and> exited Failed s \<and> serial_text s = boot_stages @ failure_text (panic_info_of E memory_panic)"
  using assms by (simp add: boot_failed_def panic_over_def panic_report_def serial_text_def [of "kernel_start mem pt h"])
    (simp add: kernel_start_def)

end
