(* ===== verification/Unit_Tests.thy ===== *)
theory Unit_Tests
  imports Test_Harness
begin

text \<open>
  The unit tests of the library, from the \<^verbatim>\<open>tests\<close> modules of \<^verbatim>\<open>src/serial.rs\<close>,
  \<^verbatim>\<open>src/interrupts.rs\<close>, \<^verbatim>\<open>src/keyboard.rs\<close>, \<^verbatim>\<open>src/vga_buffer.rs\<close> and
  \<^verbatim>\<open>src/shell.rs\<close>, with the locked form of the search functions of the display, which
  only tests use. \<open>unit_suite\<close> is the list of all of them under the names that
  \<^verbatim>\<open>core::any::type_name\<close> gives them.
\<close>

section \<open>Observing the display\<close>

definition vga_screen_contains :: "('pt, 'h) env \<Rightarrow> bytes \<Rightarrow> (bool, ('pt, 'h, 'g) kernel) prog" where
  "vga_screen_contains E needle =
     (if needle = [] \<or> BUFFER_WIDTH < length needle then kret False
      else with_lock WRITER_lock (kbind (kget WRITER) (\<lambda>writer. kres E (screen_contains needle writer))))"

definition vga_screen_is_blank :: "('pt, 'h) env \<Rightarrow> (bool, ('pt, 'h, 'g) kernel) prog" where
  "vga_screen_is_blank E =
     with_lock WRITER_lock (kbind (kget WRITER) (\<lambda>writer. kres E (screen_is_blank writer)))"

definition assert_contains :: "('pt, 'h) env \<Rightarrow> bytes \<Rightarrow> (unit, ('pt, 'h, 'g) kernel) prog" where
  "assert_contains E needle = kbind (vga_screen_contains E needle) (assert_that E)"

definition assert_blank :: "('pt, 'h) env \<Rightarrow> (unit, ('pt, 'h, 'g) kernel) prog" where
  "assert_blank E = kbind (vga_screen_is_blank E) (assert_that E)"

text \<open>\<^verbatim>\<open>writer.buffer.chars[row][col].read()\<close>, and its comparison with a byte.\<close>

definition read_cell :: "('pt, 'h) env \<Rightarrow> usize \<Rightarrow> usize \<Rightarrow> (ScreenChar, ('pt, 'h, 'g) kernel) prog" where
  "read_cell E row col = kbind (kget WRITER) (\<lambda>writer. kres E (cell_read (buffer writer) row col))"

definition assert_cell :: "('pt, 'h) env \<Rightarrow> usize \<Rightarrow> usize \<Rightarrow> u8 \<Rightarrow> (unit, ('pt, 'h, 'g) kernel) prog" where
  "assert_cell E row col b = kbind (read_cell E row col) (\<lambda>ch. assert_that E (ascii_character ch = b))"

section \<open>serial.rs and interrupts.rs\<close>

definition escreve_na_serial_sem_falhar :: "(unit, ('pt, 'h, 'g) kernel) prog" where
  "escreve_na_serial_sem_falhar = serial_println [str ''teste de escrita na serial'']"

definition breakpoint_e_tratado_sem_interromper_a_execucao ::
  "('pt, 'h) env \<Rightarrow> (unit, ('pt, 'h, 'g) kernel) prog" where
  "breakpoint_e_tratado_sem_interromper_a_execucao E =
     deliver E True (instruction_address E int3_site) Breakpoint"

section \<open>keyboard.rs\<close>

definition reset_shift :: "(unit, ('pt, 'h, 'g) kernel) prog" where
  "reset_shift =
     kthen (keyboard_translate LEFT_SHIFT_BREAK)
     (kthen (keyboard_translate RIGHT_SHIFT_BREAK)
     (kret ()))"

definition assert_translates ::
  "('pt, 'h) env \<Rightarrow> u8 \<Rightarrow> u8 option \<Rightarrow> (unit, ('pt, 'h, 'g) kernel) prog" where
  "assert_translates E scancode expected =
     kbind (keyboard_translate scancode) (\<lambda>b. assert_that E (b = expected))"

definition traduz_letra_minuscula :: "('pt, 'h) env \<Rightarrow> (unit, ('pt, 'h, 'g) kernel) prog" where
  "traduz_letra_minuscula E =
     kthen reset_shift
     (assert_translates E 0x1E (Some (byte CHR ''a'')))"

definition traduz_letra_maiuscula_com_shift :: "('pt, 'h) env \<Rightarrow> (unit, ('pt, 'h, 'g) kernel) prog" where
  "traduz_letra_maiuscula_com_shift E =
     kthen reset_shift
     (kthen (assert_translates E LEFT_SHIFT_MAKE None)
     (kthen (assert_translates E 0x1E (Some (byte CHR ''A'')))
     reset_shift))"

definition traduz_digito_e_simbolo_com_shift :: "('pt, 'h) env \<Rightarrow> (unit, ('pt, 'h, 'g) kernel) prog" where
  "traduz_digito_e_simbolo_com_shift E =
     kthen reset_shift
     (kthen (assert_translates E 0x02 (Some (byte CHR ''1'')))
     (kthen (assert_translates E RIGHT_SHIFT_MAKE None)
     (kthen (assert_translates E 0x02 (Some (byte CHR ''!'')))
     reset_shift)))"

definition ignora_break_code_de_tecla_comum :: "('pt, 'h) env \<Rightarrow> (unit, ('pt, 'h, 'g) kernel) prog" where
  "ignora_break_code_de_tecla_comum E = kthen reset_shift (assert_translates E 0x9E None)"

definition ignora_scancode_nao_mapeado :: "('pt, 'h) env \<Rightarrow> (unit, ('pt, 'h, 'g) kernel) prog" where
  "ignora_scancode_nao_mapeado E = kthen reset_shift (assert_translates E 0x01 None)"

section \<open>vga_buffer.rs\<close>

definition escreve_caractere_simples :: "('pt, 'h) env \<Rightarrow> (unit, ('pt, 'h, 'g) kernel) prog" where
  "escreve_caractere_simples E =
     kthen (vga_clear_screen E)
     (kthen (print E [str ''A''])
     (kbind (with_lock WRITER_lock (read_cell E (BUFFER_HEIGHT - 1) 0)) (\<lambda>ch.
     assert_that E (ascii_character ch = byte CHR ''A''))))"

definition quebra_de_linha :: "('pt, 'h) env \<Rightarrow> (unit, ('pt, 'h, 'g) kernel) prog" where
  "quebra_de_linha E =
     kthen (vga_clear_screen E)
     (kthen (print E [str ''ab'' @ [newline] @ str ''cd''])
     (with_lock WRITER_lock
       (kthen (assert_cell E (BUFFER_HEIGHT - 1) 0 (byte CHR ''c''))
       (assert_cell E (BUFFER_HEIGHT - 1) 1 (byte CHR ''d'')))))"

definition rolagem_ao_ultrapassar_a_altura_da_tela :: "('pt, 'h) env \<Rightarrow> (unit, ('pt, 'h, 'g) kernel) prog" where
  "rolagem_ao_ultrapassar_a_altura_da_tela E =
     kthen (vga_clear_screen E)
     (kthen (print E [[newline] @ str ''PRIMEIRA'' @ [newline] @ str ''SEGUNDA''])
     (with_lock WRITER_lock
       (kthen (kfor (enumerate 0 (str ''PRIMEIRA'')) (\<lambda>(i, c). assert_cell E (BUFFER_HEIGHT - 2) i c))
       (kfor (enumerate 0 (str ''SEGUNDA'')) (\<lambda>(i, c). assert_cell E (BUFFER_HEIGHT - 1) i c)))))"

definition apaga_ultimo_caractere_com_backspace :: "('pt, 'h) env \<Rightarrow> (unit, ('pt, 'h, 'g) kernel) prog" where
  "apaga_ultimo_caractere_com_backspace E =
     kthen (vga_clear_screen E)
     (kthen (print E [str ''AB''])
     (kthen (vga_backspace E)
     (with_lock WRITER_lock
       (kthen (assert_cell E (BUFFER_HEIGHT - 1) 0 (byte CHR ''A''))
       (assert_cell E (BUFFER_HEIGHT - 1) 1 (byte CHR '' ''))))))"

section \<open>shell.rs: the line buffer\<close>

text \<open>\<^verbatim>\<open>assert!(line.push(b))\<close> for the bytes of a list, one after the other.\<close>

fun push_asserted :: "('pt, 'h) env \<Rightarrow> bytes \<Rightarrow> LineBuffer \<Rightarrow> (LineBuffer, ('pt, 'h, 'g) kernel) prog" where
  "push_asserted E [] line = kret line"
| "push_asserted E (b # bs) line =
     kbind (kres E (LineBuffer_push b line)) (\<lambda>(accepted, line).
     kthen (assert_that E accepted)
     (push_asserted E bs line))"

definition linha_acumula_caracteres_digitados :: "('pt, 'h) env \<Rightarrow> (unit, ('pt, 'h, 'g) kernel) prog" where
  "linha_acumula_caracteres_digitados E =
     kbind (push_asserted E (str ''abc'') LineBuffer_new) (\<lambda>line.
     kbind (kres E (LineBuffer_as_str line)) (\<lambda>text.
     assert_that E (text = str ''abc'')))"

definition linha_backspace_remove_ultimo_caractere :: "('pt, 'h) env \<Rightarrow> (unit, ('pt, 'h, 'g) kernel) prog" where
  "linha_backspace_remove_ultimo_caractere E =
     kbind (kres E (LineBuffer_push (byte CHR ''a'') LineBuffer_new)) (\<lambda>(_, line).
     kbind (kres E (LineBuffer_push (byte CHR ''b'') line)) (\<lambda>(_, line).
     kbind (kres E (LineBuffer_pop line)) (\<lambda>(removed, line).
     kthen (assert_that E removed)
     (kbind (kres E (LineBuffer_as_str line)) (\<lambda>text.
     kthen (assert_that E (text = str ''a''))
     (kbind (kres E (LineBuffer_pop LineBuffer_new)) (\<lambda>(removed, empty).
     kthen (assert_that E (\<not> removed))
     (kbind (kres E (LineBuffer_as_str empty)) (\<lambda>text.
     assert_that E (text = []))))))))))"

definition linha_respeita_limite_de_tamanho :: "('pt, 'h) env \<Rightarrow> (unit, ('pt, 'h, 'g) kernel) prog" where
  "linha_respeita_limite_de_tamanho E =
     kbind (push_asserted E (replicate LINE_CAPACITY (byte CHR ''x'')) LineBuffer_new) (\<lambda>line.
     kbind (kres E (LineBuffer_push (byte CHR ''y'') line)) (\<lambda>(accepted, line).
     kthen (assert_that E (\<not> accepted))
     (kbind (kres E (LineBuffer_as_str line)) (\<lambda>text.
     assert_that E (length text = LINE_CAPACITY)))))"

section \<open>shell.rs: the commands\<close>

definition comando_help_lista_os_comandos :: "('pt, 'h) env \<Rightarrow> (unit, ('pt, 'h, 'g) kernel) prog" where
  "comando_help_lista_os_comandos E =
     kthen (vga_clear_screen E)
     (kthen (execute E (str ''help''))
     (assert_contains E (str ''lista os comandos disponiveis'')))"

definition comando_clear_limpa_a_tela :: "('pt, 'h) env \<Rightarrow> (unit, ('pt, 'h, 'g) kernel) prog" where
  "comando_clear_limpa_a_tela E =
     kthen (vga_clear_screen E)
     (kthen (print E [str ''conteudo antes do clear''])
     (kthen (execute E (str ''clear''))
     (assert_blank E)))"

definition comando_echo_repete_o_texto_digitado :: "('pt, 'h) env \<Rightarrow> (unit, ('pt, 'h, 'g) kernel) prog" where
  "comando_echo_repete_o_texto_digitado E =
     kthen (vga_clear_screen E)
     (kthen (execute E (str ''echo ola mundo''))
     (assert_contains E (str ''ola mundo'')))"

definition comando_sobre_descreve_o_proto_os :: "('pt, 'h) env \<Rightarrow> (unit, ('pt, 'h, 'g) kernel) prog" where
  "comando_sobre_descreve_o_proto_os E =
     kthen (vga_clear_screen E)
     (kthen (execute E (str ''sobre''))
     (assert_contains E (str ''proto-os'')))"

definition comando_mem_mostra_memoria_heap_box_e_vec :: "('pt, 'h) env \<Rightarrow> (unit, ('pt, 'h, 'g) kernel) prog" where
  "comando_mem_mostra_memoria_heap_box_e_vec E =
     kthen (vga_clear_screen E)
     (kthen (execute E (str ''mem''))
     (kthen (assert_contains E (str ''memoria fisica utilizavel''))
     (kthen (assert_contains E (str ''heap''))
     (kthen (assert_contains E (str ''Box''))
     (assert_contains E (str ''Vec''))))))"

definition comando_desconhecido_mostra_mensagem_de_erro :: "('pt, 'h) env \<Rightarrow> (unit, ('pt, 'h, 'g) kernel) prog" where
  "comando_desconhecido_mostra_mensagem_de_erro E =
     kthen (vga_clear_screen E)
     (kthen (execute E (str ''xyz''))
     (assert_contains E (str ''comando desconhecido: xyz'')))"

definition linha_vazia_nao_faz_nada :: "('pt, 'h) env \<Rightarrow> (unit, ('pt, 'h, 'g) kernel) prog" where
  "linha_vazia_nao_faz_nada E =
     kthen (vga_clear_screen E)
     (kthen (execute E (str ''''))
     (assert_blank E))"

definition espacos_extras_nas_pontas_sao_ignorados :: "('pt, 'h) env \<Rightarrow> (unit, ('pt, 'h, 'g) kernel) prog" where
  "espacos_extras_nas_pontas_sao_ignorados E =
     kthen (vga_clear_screen E)
     (kthen (execute E (str ''   sobre   ''))
     (assert_contains E (str ''proto-os'')))"

definition comando_sobre_mostra_a_versao :: "('pt, 'h) env \<Rightarrow> (unit, ('pt, 'h, 'g) kernel) prog" where
  "comando_sobre_mostra_a_versao E =
     kthen (vga_clear_screen E)
     (kthen (execute E (str ''sobre''))
     (assert_contains E VERSION))"

definition comando_falha_sem_argumento_lista_tipos :: "('pt, 'h) env \<Rightarrow> (unit, ('pt, 'h, 'g) kernel) prog" where
  "comando_falha_sem_argumento_lista_tipos E =
     kthen (vga_clear_screen E)
     (kthen (execute E (str ''falha''))
     (assert_contains E (str ''tipos disponiveis'')))"

definition comando_falha_tipo_desconhecido_lista_tipos :: "('pt, 'h) env \<Rightarrow> (unit, ('pt, 'h, 'g) kernel) prog" where
  "comando_falha_tipo_desconhecido_lista_tipos E =
     kthen (vga_clear_screen E)
     (kthen (execute E (str ''falha xyz''))
     (assert_contains E (str ''tipos disponiveis'')))"

definition comando_falha_breakpoint_retorna_ao_prompt :: "('pt, 'h) env \<Rightarrow> (unit, ('pt, 'h, 'g) kernel) prog" where
  "comando_falha_breakpoint_retorna_ao_prompt E =
     kthen (vga_clear_screen E)
     (kthen (execute E (str ''falha breakpoint''))
     (kthen (assert_contains E (str ''#BP''))
     (kthen (vga_clear_screen E)
     (kthen (execute E (str ''sobre''))
     (assert_contains E (str ''proto-os''))))))"

section \<open>The suite\<close>

definition breakpoint_line :: bytes where
  "breakpoint_line = str ''[EXCEPTION] breakpoint (int3)'' @ [newline]"

text \<open>All unit tests, with what each sends on the serial port.\<close>

definition unit_suite :: "('pt, 'h) env \<Rightarrow> ('pt, 'h, 'g) test list" where
  "unit_suite E =
     [(str ''proto_os::interrupts::tests::breakpoint_e_tratado_sem_interromper_a_execucao'',
         breakpoint_e_tratado_sem_interromper_a_execucao E, breakpoint_line),
      (str ''proto_os::keyboard::tests::traduz_letra_minuscula'', traduz_letra_minuscula E, []),
      (str ''proto_os::keyboard::tests::traduz_letra_maiuscula_com_shift'', traduz_letra_maiuscula_com_shift E, []),
      (str ''proto_os::keyboard::tests::traduz_digito_e_simbolo_com_shift'', traduz_digito_e_simbolo_com_shift E, []),
      (str ''proto_os::keyboard::tests::ignora_break_code_de_tecla_comum'', ignora_break_code_de_tecla_comum E, []),
      (str ''proto_os::keyboard::tests::ignora_scancode_nao_mapeado'', ignora_scancode_nao_mapeado E, []),
      (str ''proto_os::serial::tests::escreve_na_serial_sem_falhar'', escreve_na_serial_sem_falhar,
         str ''teste de escrita na serial'' @ [newline]),
      (str ''proto_os::shell::tests::linha_acumula_caracteres_digitados'', linha_acumula_caracteres_digitados E, []),
      (str ''proto_os::shell::tests::linha_backspace_remove_ultimo_caractere'',
         linha_backspace_remove_ultimo_caractere E, []),
      (str ''proto_os::shell::tests::linha_respeita_limite_de_tamanho'', linha_respeita_limite_de_tamanho E, []),
      (str ''proto_os::shell::tests::comando_help_lista_os_comandos'', comando_help_lista_os_comandos E, []),
      (str ''proto_os::shell::tests::comando_clear_limpa_a_tela'', comando_clear_limpa_a_tela E, []),
      (str ''proto_os::shell::tests::comando_echo_repete_o_texto_digitado'', comando_echo_repete_o_texto_digitado E, []),
      (str ''proto_os::shell::tests::comando_sobre_descreve_o_proto_os'', comando_sobre_descreve_o_proto_os E, []),
      (str ''proto_os::shell::tests::comando_mem_mostra_memoria_heap_box_e_vec'',
         comando_mem_mostra_memoria_heap_box_e_vec E, []),
      (str ''proto_os::shell::tests::comando_desconhecido_mostra_mensagem_de_erro'',
         comando_desconhecido_mostra_mensagem_de_erro E, []),
      (str ''proto_os::shell::tests::linha_vazia_nao_faz_nada'', linha_vazia_nao_faz_nada E, []),
      (str ''proto_os::shell::tests::espacos_extras_nas_pontas_sao_ignorados'',
         espacos_extras_nas_pontas_sao_ignorados E, []),
      (str ''proto_os::shell::tests::comando_sobre_mostra_a_versao'', comando_sobre_mostra_a_versao E, []),
      (str ''proto_os::shell::tests::comando_falha_sem_argumento_lista_tipos'',
         comando_falha_sem_argumento_lista_tipos E, []),
      (str ''proto_os::shell::tests::comando_falha_tipo_desconhecido_lista_tipos'',
         comando_falha_tipo_desconhecido_lista_tipos E, []),
      (str ''proto_os::shell::tests::comando_falha_breakpoint_retorna_ao_prompt'',
         comando_falha_breakpoint_retorna_ao_prompt E, breakpoint_line),
      (str ''proto_os::vga_buffer::tests::escreve_caractere_simples'', escreve_caractere_simples E, []),
      (str ''proto_os::vga_buffer::tests::quebra_de_linha'', quebra_de_linha E, []),
      (str ''proto_os::vga_buffer::tests::rolagem_ao_ultrapassar_a_altura_da_tela'',
         rolagem_ao_ultrapassar_a_altura_da_tela E, []),
      (str ''proto_os::vga_buffer::tests::apaga_ultimo_caractere_com_backspace'',
         apaga_ultimo_caractere_com_backspace E, [])]"

end
