(* ===== verification/Main_Loop.thy ===== *)
theory Main_Loop
  imports Boot
begin

text \<open>
  The endless loop of \<open>kernel_main\<close> in \<^verbatim>\<open>src/main.rs\<close> and the keyboard interrupt, as a
  step relation: a step is one turn of the inner loop, entering or leaving the section
  without interrupts, \<^verbatim>\<open>sti; hlt\<close>, or an interrupt, which can come wherever interrupts
  are enabled.
\<close>

section \<open>The loop\<close>

definition process_scancode :: "('pt, 'h) env \<Rightarrow> u8 \<Rightarrow> (unit, ('pt, 'h, 'g) kernel) prog" where
  "process_scancode E scancode =
     kbind (keyboard_translate scancode) (\<lambda>b. case b of None \<Rightarrow> kret () | Some x \<Rightarrow> feed E x)"

text \<open>\<open>Draining was\<close> is inside \<open>without_interrupts\<close>; \<open>was\<close> is the saved interrupt flag.\<close>

datatype pc = Loop_head | Draining bool | Before_hlt | Sleeping | Stopped stop

fun wake :: "pc \<Rightarrow> pc" where
  "wake Sleeping = Loop_head"
| "wake p = p"

inductive main_step ::
  "('pt, 'h) env \<Rightarrow> pc \<times> ('pt, 'h, 'g) kernel \<Rightarrow> pc \<times> ('pt, 'h, 'g) kernel \<Rightarrow> bool" for E where
  enter: "main_step E (Loop_head, s) (Draining (interrupts_enabled s), s\<lparr>interrupts_enabled := False\<rparr>)"
| pop_stop: "next_scancode E s = Stop e s1 \<Longrightarrow> main_step E (Draining was, s) (Stopped e, s1)"
| drain_one: "next_scancode E s = Ret (Some c) s1 \<Longrightarrow> process_scancode E c s1 = Ret () s2 \<Longrightarrow>
    main_step E (Draining was, s) (Draining was, s2)"
| drain_stop: "next_scancode E s = Ret (Some c) s1 \<Longrightarrow> process_scancode E c s1 = Stop e s2 \<Longrightarrow>
    main_step E (Draining was, s) (Stopped e, s2)"
| drain_done: "next_scancode E s = Ret None s1 \<Longrightarrow>
    main_step E (Draining was, s) (Before_hlt, if was then s1\<lparr>interrupts_enabled := True\<rparr> else s1)"
| hlt: "main_step E (Before_hlt, s) (Sleeping, s\<lparr>interrupts_enabled := True\<rparr>)"
| irq: "interrupts_enabled s \<Longrightarrow> p \<in> {Loop_head, Before_hlt, Sleeping} \<or> (\<exists>was. p = Draining was) \<Longrightarrow>
    keyboard_irq E c s = Ret () s' \<Longrightarrow> main_step E (p, s) (wake p, s')"
| irq_stop: "interrupts_enabled s \<Longrightarrow> p \<in> {Loop_head, Before_hlt, Sleeping} \<or> (\<exists>was. p = Draining was) \<Longrightarrow>
    keyboard_irq E c s = Stop e s' \<Longrightarrow> main_step E (p, s) (Stopped e, s')"

inductive_cases main_step_fromE [elim]: "main_step E (p, s) c'"

section \<open>Invariant\<close>

fun main_inv :: "pc \<times> ('pt, 'h, 'g) kernel \<Rightarrow> bool" where
  "main_inv (Stopped e, s) \<longleftrightarrow> e = Halted \<and> PANICKING s"
| "main_inv (Draining was, s) \<longleftrightarrow> kernel_inv s \<and> \<not> interrupts_enabled s"
| "main_inv (Sleeping, s) \<longleftrightarrow> kernel_inv s \<and> interrupts_enabled s"
| "main_inv (_, s) \<longleftrightarrow> kernel_inv s"

lemma keyboard_translate_eq:
  assumes "SHIFT_lock \<notin> held s"
  shows "keyboard_translate c s = Ret (fst (translate c (SHIFT s))) (s\<lparr>SHIFT := snd (translate c (SHIFT s))\<rparr>)"
proof (cases "c AND 0x80 \<noteq> 0 \<and> c \<noteq> LEFT_SHIFT_BREAK \<and> c \<noteq> RIGHT_SHIFT_BREAK")
  case True
  then have "c \<noteq> LEFT_SHIFT_MAKE" "c \<noteq> RIGHT_SHIFT_MAKE" by (auto simp: LEFT_SHIFT_MAKE_def RIGHT_SHIFT_MAKE_def)
  then show ?thesis using True by (simp add: keyboard_translate_def translate_def kret_def)
next
  case False
  have "wp (keyboard_translate c) (\<lambda>x s'. x = fst (translate c (SHIFT s)) \<and>
      s' = s\<lparr>SHIFT := snd (translate c (SHIFT s))\<rparr>) (\<lambda>_ _. False) s"
    using False assms by (auto simp: keyboard_translate_def wp_simps case_prod_unfold Let_def held_same)
  then show ?thesis by (simp only: wp_Ret_iff)
qed

lemma kernel_inv_shift: "kernel_inv s \<Longrightarrow> kernel_inv (s\<lparr>SHIFT := sh\<rparr>)"
  by (simp add: kernel_inv_def running_def)

lemma kernel_inv_held: "kernel_inv s \<Longrightarrow> l \<notin> held s"
  by (simp add: kernel_inv_def)

lemma process_scancode_eq:
  assumes "kernel_inv s"
  shows "process_scancode E c s =
    (case fst (translate c (SHIFT s)) of None \<Rightarrow> kret () | Some b \<Rightarrow> feed E b)
      (s\<lparr>SHIFT := snd (translate c (SHIFT s))\<rparr>)"
  using keyboard_translate_eq [OF kernel_inv_held [OF assms]] by (simp add: process_scancode_def kbind_def)

lemma process_scancode_inv:
  assumes "kernel_inv s"
  shows "wp (process_scancode E c) (\<lambda>_ s'. kernel_inv s' \<and> SCANCODE_QUEUE s' = SCANCODE_QUEUE s \<and>
    interrupts_enabled s' = interrupts_enabled s) (parked E) s"
proof (cases "fst (translate c (SHIFT s))")
  case None
  then show ?thesis
    using assms kernel_inv_shift [OF assms] by (simp add: wp_def process_scancode_eq kret_def)
next
  case (Some b)
  from wp_feed_inv [OF kernel_inv_shift [OF assms], of E b "snd (translate c (SHIFT s))"] show ?thesis
    using Some assms by (auto simp: wp_def process_scancode_eq input_frame_def split: outcome.splits)
qed

lemma next_scancode_inv:
  assumes "kernel_inv s"
  shows "\<exists>q. next_scancode E s =
      Ret (case queue_contents (SCANCODE_QUEUE s) of [] \<Rightarrow> None | c # _ \<Rightarrow> Some c) (s\<lparr>SCANCODE_QUEUE := q\<rparr>) \<and>
    kernel_inv (s\<lparr>SCANCODE_QUEUE := q\<rparr>) \<and> queue_contents q = tl (queue_contents (SCANCODE_QUEUE s))"
  using next_scancode_eq [OF kernel_inv_held [OF assms], of E] assms by (auto simp: kernel_inv_def running_def)

lemma keyboard_irq_inv:
  assumes "kernel_inv s"
  shows "\<exists>s'. keyboard_irq E c s = Ret () s' \<and> scancode_taken c s s' \<and> kernel_inv s' \<and>
    interrupts_enabled s' = interrupts_enabled s"
proof -
  obtain s' where s': "keyboard_irq E c s = Ret () s'" "scancode_taken c s s'"
    using keyboard_irq_taken [of s E c] assms kernel_inv_held [OF assms] by (auto simp: kernel_inv_def running_def)
  define q where "q = SCANCODE_QUEUE s'"
  have "s' = s\<lparr>SCANCODE_QUEUE := q, keyboard_data := c,
      pic_log := pic_log s @ [Pics_notify_end_of_interrupt KEYBOARD_INTERRUPT_VECTOR]\<rparr>" "queue_inv q"
    using s'(2) by (simp_all only: scancode_taken_def q_def)
  then have "kernel_inv s' \<and> interrupts_enabled s' = interrupts_enabled s"
    using assms by (simp add: kernel_inv_def running_def)
  then show ?thesis using s' by blast
qed

lemma kernel_inv_flag: "kernel_inv (s\<lparr>interrupts_enabled := b\<rparr>) = kernel_inv s"
  by (simp add: kernel_inv_def running_def)

lemma main_inv_kernel: "main_inv (p, s) \<Longrightarrow> p \<in> {Loop_head, Before_hlt, Sleeping} \<or> (\<exists>was. p = Draining was) \<Longrightarrow> kernel_inv s"
  by (cases p) auto

lemma main_step_inv:
  assumes "main_step E c c'" and "main_inv c" and "kernel_binary E"
  shows "main_inv c'"
  using assms(1,2)
proof cases
  case (pop_stop s e s1 was)
  then show ?thesis using assms(2) next_scancode_inv [of s E] by auto
next
  case (drain_one s c s1 s2 was)
  then have "kernel_inv s1" "\<not> interrupts_enabled s1" using assms(2) next_scancode_inv [of s E] by auto
  then show ?thesis using drain_one process_scancode_inv [of s1 E c] by (simp add: wp_def)
next
  case (drain_stop s c s1 e s2 was)
  then have "kernel_inv s1" using assms(2) next_scancode_inv [of s E] by auto
  then show ?thesis using drain_stop process_scancode_inv [of s1 E c] assms(3)
    by (simp add: wp_def parked_def panic_over_def)
next
  case (drain_done s s1 was)
  then show ?thesis using assms(2) next_scancode_inv [of s E] by (auto simp: kernel_inv_flag)
next
  case (irq s p c s')
  then have "kernel_inv s" using assms(2) main_inv_kernel by blast
  then show ?thesis using irq assms(2) keyboard_irq_inv [of s E c] by (cases p) auto
next
  case (irq_stop s p c e s')
  then have "kernel_inv s" using assms(2) main_inv_kernel by blast
  then show ?thesis using irq_stop keyboard_irq_inv [of s E c] by auto
qed (use assms(2) in \<open>auto simp: kernel_inv_flag\<close>)

lemma main_reach_inv: "kernel_binary E \<Longrightarrow> (main_step E)\<^sup>*\<^sup>* c c' \<Longrightarrow> main_inv c \<Longrightarrow> main_inv c'"
  by (rotate_tac, induction rule: rtranclp_induct) (auto intro: main_step_inv)

section \<open>Asleep at the prompt\<close>

lemma editing_input:
  "editing s t l \<Longrightarrow> editing (s\<lparr>SHIFT := sh\<rparr>) t l"
  "editing s t l \<Longrightarrow> queue_inv q \<Longrightarrow> editing (s\<lparr>SCANCODE_QUEUE := q\<rparr>) t l"
  by (simp_all add: editing_def kernel_inv_def running_def)

text \<open>A kernel that sleeps at the prompt with nothing left to do.\<close>

definition idle :: "('pt, 'h, 'g) kernel \<Rightarrow> tty \<Rightarrow> bytes \<Rightarrow> bool" where
  "idle s t l \<longleftrightarrow> editing s t l \<and> queue_contents (SCANCODE_QUEUE s) = [] \<and> interrupts_enabled s"

lemma irq_editing_queue:
  assumes "editing s t l"
  shows "\<exists>s'. keyboard_irq E c s = Ret () s' \<and> editing s' t l \<and>
    queue_contents (SCANCODE_QUEUE s') = keep_last SCANCODE_QUEUE_CAPACITY (queue_contents (SCANCODE_QUEUE s) @ [c]) \<and>
    SHIFT s' = SHIFT s \<and> interrupts_enabled s' = interrupts_enabled s"
proof -
  obtain s' where s': "keyboard_irq E c s = Ret () s'" "scancode_taken c s s'" "kernel_inv s'"
    "interrupts_enabled s' = interrupts_enabled s"
    using keyboard_irq_inv [OF editing_start(9) [OF assms]] by blast
  define q where "q = SCANCODE_QUEUE s'"
  have eq: "s' = s\<lparr>SCANCODE_QUEUE := q, keyboard_data := c,
      pic_log := pic_log s @ [Pics_notify_end_of_interrupt KEYBOARD_INTERRUPT_VECTOR]\<rparr>"
    "queue_contents q = keep_last SCANCODE_QUEUE_CAPACITY (queue_contents (SCANCODE_QUEUE s) @ [c])"
    using s'(2) by (simp_all only: scancode_taken_def q_def)
  then have "editing s' t l" using assms s'(3) by (simp add: editing_def)
  moreover have "SHIFT s' = SHIFT s" "SCANCODE_QUEUE s' = q" using eq(1) by simp_all
  ultimately show ?thesis using s'(1,4) eq(2) by blast
qed

lemma irq_editing:
  assumes "editing s t l" and "queue_contents (SCANCODE_QUEUE s) = []"
  shows "\<exists>s'. keyboard_irq E c s = Ret () s' \<and> editing s' t l \<and> queue_contents (SCANCODE_QUEUE s') = [c] \<and>
    SHIFT s' = SHIFT s \<and> interrupts_enabled s' = interrupts_enabled s"
  using irq_editing_queue [OF assms(1), of E c] assms(2) by (simp add: keep_last_id SCANCODE_QUEUE_CAPACITY_def)

lemma editing_flag: "editing (s\<lparr>interrupts_enabled := b\<rparr>) t l = editing s t l"
  by (simp add: editing_def kernel_inv_flag)

end
