(* ===== verification/Screen_Text.thy ===== *)
theory Screen_Text
  imports Vga_Screen
begin

text \<open>
  Finding text on the screen: which text of a terminal is visible, that \<open>screen_contains\<close>
  finds it, and that the beginning of a written line stays visible while the rows written
  after it fit on the screen. \<open>tty_size\<close> bounds the rows that a text can take.
\<close>

section \<open>Visible text\<close>

definition visible :: "bytes \<Rightarrow> tty \<Rightarrow> bool" where
  "visible needle t \<longleftrightarrow> needle \<noteq> [] \<and>
     (\<exists>l \<in> set (current t # last_lines (BUFFER_HEIGHT - 1) (past t)). sublist needle l)"

lemma visible_found:
  assumes "shows_tty w t" and "visible needle t"
  shows "screen_contains needle w = Inr True"
proof -
  obtain l where l: "l \<in> set (current t # last_lines (BUFFER_HEIGHT - 1) (past t))" "sublist needle l" "needle \<noteq> []"
    using assms(2) by (auto simp: visible_def)
  have "cells_of (color_code w) l \<in> set (buffer w)" using l(1) assms(1) by (auto simp: shows_tty_def display_def)
  moreover have "row_text (cells_of (color_code w) l) = [] @ l @ replicate (BUFFER_WIDTH - length l) 0x20"
    by (simp add: row_text_def cells_of_def comp_def)
  then have "sublist needle (row_text (cells_of (color_code w) l))"
    using l(2) sublist_appendI [of l "[]"] sublist_order.order.trans by metis
  moreover have "grid_wf (buffer w)" using shows_tty_wf [OF assms(1)] by (simp add: writer_wf_def)
  ultimately show ?thesis using l(3) by (auto simp: screen_contains_eq)
qed

lemma last_lines_all: "length ls \<le> n \<Longrightarrow> last_lines n ls = replicate (n - length ls) [] @ ls"
  by (simp add: last_lines_def)

section \<open>Rows\<close>

definition tty_size :: "tty \<Rightarrow> nat" where
  "tty_size t = BUFFER_WIDTH * length (past t) + length (current t)"

lemma tty_put_size: "tty_size (tty_put b t) \<le> tty_size t + (if b = newline then BUFFER_WIDTH else 1)"
  by (auto simp: tty_put_def tty_size_def)

lemma sanitize_newline [simp]: "sanitize b = newline \<longleftrightarrow> b = newline"
  by (simp add: sanitize_def)

lemma tty_write_size:
  "tty_size (tty_write bs t) \<le> tty_size t + BUFFER_WIDTH * count_list bs newline + length bs"
proof (induction bs arbitrary: t)
  case Nil
  show ?case by (simp add: tty_write_def)
next
  case (Cons b bs)
  have "tty_write (b # bs) t = tty_write bs (tty_put (sanitize b) t)" by (simp add: tty_write_def)
  then show ?case using Cons.IH [of "tty_put (sanitize b) t"] tty_put_size [of "sanitize b" t] by (auto split: if_splits)
qed

text \<open>A row that begins with \<open>l\<close> after the finished rows \<open>p\<close>.\<close>

definition row_after :: "bytes list \<Rightarrow> bytes \<Rightarrow> tty \<Rightarrow> bool" where
  "row_after p l t \<longleftrightarrow> (past t = p \<and> prefix l (current t)) \<or> (\<exists>row more. past t = p @ row # more \<and> prefix l row)"

lemma row_after_put: "row_after p l t \<Longrightarrow> row_after p l (tty_put b t)"
  by (auto simp: row_after_def tty_put_def)

lemma row_after_write: "row_after p l t \<Longrightarrow> row_after p l (tty_write bs t)"
  by (induction bs arbitrary: t) (simp_all add: tty_write_def row_after_put)

lemma row_after_visible:
  assumes "row_after p l t" and "sublist needle l" and "needle \<noteq> []" and "tty_size t < BUFFER_WIDTH * BUFFER_HEIGHT"
  shows "visible needle t"
proof -
  have "length (past t) \<le> BUFFER_HEIGHT - 1"
    using assms(4) by (simp add: tty_size_def BUFFER_WIDTH_def BUFFER_HEIGHT_def)
  then have "set (past t) \<subseteq> set (last_lines (BUFFER_HEIGHT - 1) (past t))" by (simp add: last_lines_all)
  then obtain row where "row \<in> set (current t # last_lines (BUFFER_HEIGHT - 1) (past t))" "prefix l row"
    using assms(1) unfolding row_after_def by (elim disjE exE conjE) (force, fastforce)
  moreover have "sublist needle row"
    using assms(2) \<open>prefix l row\<close> prefix_imp_sublist sublist_order.order.trans by blast
  ultimately show ?thesis using assms(3) by (auto simp: visible_def)
qed

text \<open>
  In a text written on an empty screen, which has no more rows than the screen, what
  stands at the beginning of a line is visible.
\<close>

lemma line_start_visible:
  assumes "pre = [] \<or> last pre = newline" and "\<forall>b \<in> set l. printable b" and "length l \<le> BUFFER_WIDTH"
    and "sublist needle l" and "needle \<noteq> []"
    and "BUFFER_WIDTH * count_list (pre @ l @ post) newline + length (pre @ l @ post) < BUFFER_WIDTH * BUFFER_HEIGHT"
  shows "visible needle (tty_write (pre @ l @ post) tty_empty)"
proof (rule row_after_visible)
  let ?p = "tty_write pre tty_empty"
  have "current ?p = []"
    using assms(1) by (cases pre rule: rev_cases) (auto simp: tty_write_def tty_put_def tty_empty_def)
  then have "tty_write l ?p = ?p\<lparr>current := l\<rparr>" using assms(2,3) by (simp add: tty_write_fits)
  then have "row_after (past ?p) l (tty_write l ?p)" by (simp add: row_after_def)
  then show "row_after (past ?p) l (tty_write (pre @ l @ post) tty_empty)"
    unfolding tty_write_append by (rule row_after_write)
  have "tty_size tty_empty = 0" by (simp add: tty_size_def tty_empty_def)
  then show "tty_size (tty_write (pre @ l @ post) tty_empty) < BUFFER_WIDTH * BUFFER_HEIGHT"
    using tty_write_size [of "pre @ l @ post" tty_empty] assms(6) by linarith
qed (fact assms)+

section \<open>Cells\<close>

lemma shows_current_cell:
  assumes "shows_tty w t" and "i < BUFFER_WIDTH"
  shows "cell_read (buffer w) (BUFFER_HEIGHT - 1) i = Inr (cells_of (color_code w) (current t) ! i)"
  using assms by (simp add: cell_read_def arr_get_def shows_tty_def tty_wf_def)
    (simp add: display_def BUFFER_HEIGHT_def)

lemma shows_past_cell:
  assumes "shows_tty w t" and "past t = ls @ [l]" and "i < BUFFER_WIDTH"
  shows "cell_read (buffer w) (BUFFER_HEIGHT - 2) i = Inr (cells_of (color_code w) l ! i)"
proof -
  have "display (color_code w) t ! (BUFFER_HEIGHT - 2) = cells_of (color_code w) l"
    using assms(2) by (simp add: display_def nth_append BUFFER_HEIGHT_def last_lines_snoc)
  then show ?thesis
    using assms by (simp add: cell_read_def arr_get_def shows_tty_def tty_wf_def) (simp add: display_def BUFFER_HEIGHT_def)
qed

lemma cells_of_byte:
  "i < length l \<Longrightarrow> ascii_character (cells_of c l ! i) = l ! i"
  "length l \<le> i \<Longrightarrow> i < BUFFER_WIDTH \<Longrightarrow> ascii_character (cells_of c l ! i) = 0x20"
  by (simp_all add: cells_of_def nth_append)

lemma empty_screen_blank:
  assumes "shows_tty w tty_empty"
  shows "screen_is_blank w = Inr True"
proof -
  have wf: "grid_wf (buffer w)" using shows_tty_wf [OF assms] by (simp add: writer_wf_def)
  have "buffer w ! r ! c = \<lparr>ascii_character = 0x20, char_color = color_code w\<rparr>"
    if "r < BUFFER_HEIGHT" "c < BUFFER_WIDTH" for r c
    using that assms
    by (simp add: shows_tty_def display_def tty_empty_def last_lines_def cells_of_def nth_append BUFFER_HEIGHT_def)
  then show ?thesis using wf by (simp add: screen_is_blank_def rows_blank_eq)
qed

end
