(* ===== verification/Heap_Service.thy ===== *)
theory Heap_Service
  imports Shell_Mem
begin

text \<open>
  When the global allocator serves a request. \<open>first_fit_heap\<close> is the contract of
  \<^verbatim>\<open>linked_list_allocator\<close>: blocks lie inside the heap range, are aligned and do not
  overlap, and a request is refused only if no gap between the live blocks has room for it,
  its alignment and the rounding of blocks. A counting argument then shows that a few
  blocks cannot hide every gap, so the requests of the kernel and of its tests are served
  for ever.
\<close>

section \<open>The contract\<close>

definition placed :: "usize \<Rightarrow> usize \<Rightarrow> usize \<Rightarrow> (usize \<times> usize) set \<Rightarrow> bool" where
  "placed p sz align L \<longleftrightarrow>
     HEAP_START \<le> p \<and> p + sz \<le> HEAP_START + HEAP_SIZE \<and> align dvd p \<and>
     (\<forall>(q, n) \<in> L. p + sz \<le> q \<or> q + n \<le> p)"

text \<open>A gap of \<open>n\<close> bytes; \<open>slack\<close> bounds what the allocator adds to a block when it rounds its size.\<close>

definition free_gap :: "usize \<Rightarrow> (usize \<times> usize) set \<Rightarrow> usize \<Rightarrow> bool" where
  "free_gap slack L n \<longleftrightarrow>
     (\<exists>a. HEAP_START \<le> a \<and> a + n \<le> HEAP_START + HEAP_SIZE \<and> (\<forall>(q, m) \<in> L. a + n \<le> q \<or> q + m + slack \<le> a))"

definition first_fit_heap ::
  "('pt, 'h) env \<Rightarrow> ('h \<Rightarrow> bool) \<Rightarrow> ('h \<Rightarrow> (usize \<times> usize) set) \<Rightarrow> usize \<Rightarrow> bool" where
  "first_fit_heap E ok live slack \<longleftrightarrow>
     heap_contract E live \<and> (\<forall>h. ok h \<longrightarrow> finite (live h)) \<and>
     (\<forall>sz align h r h'. ok h \<longrightarrow> 0 < align \<longrightarrow> heap_alloc E sz align h = (r, h') \<longrightarrow> ok h' \<and>
        (case r of
           None \<Rightarrow> \<not> free_gap slack (live h) (sz + align + slack)
         | Some p \<Rightarrow> placed p sz align (live h))) \<and>
     (\<forall>ptr old align new h r h'. ok h \<longrightarrow> 0 < align \<longrightarrow> (ptr, old) \<in> live h \<longrightarrow>
        heap_realloc E ptr old align new h = (r, h') \<longrightarrow> ok h' \<and>
        (case r of
           None \<Rightarrow> \<not> free_gap slack (live h) (new + align + slack)
         | Some p \<Rightarrow> placed p new align (live h - {(ptr, old)}))) \<and>
     (\<forall>ptr sz align h. ok h \<longrightarrow> (ptr, sz) \<in> live h \<longrightarrow> ok (heap_dealloc E ptr sz align h))"

lemma first_fitD:
  assumes "first_fit_heap E ok live slack"
  shows "heap_contract E live" "ok h \<Longrightarrow> finite (live h)"
    "ok h \<Longrightarrow> 0 < align \<Longrightarrow> heap_alloc E sz align h = (r, h') \<Longrightarrow> ok h' \<and>
       (case r of None \<Rightarrow> \<not> free_gap slack (live h) (sz + align + slack) | Some p \<Rightarrow> placed p sz align (live h))"
    "ok h \<Longrightarrow> 0 < align \<Longrightarrow> (ptr, old) \<in> live h \<Longrightarrow> heap_realloc E ptr old align new h = (r, h') \<Longrightarrow> ok h' \<and>
       (case r of None \<Rightarrow> \<not> free_gap slack (live h) (new + align + slack)
        | Some p \<Rightarrow> placed p new align (live h - {(ptr, old)}))"
    "ok h \<Longrightarrow> (ptr, sz) \<in> live h \<Longrightarrow> ok (heap_dealloc E ptr sz align h)"
  using assms unfolding first_fit_heap_def by blast+

lemma heap_contractD:
  assumes "heap_contract E live"
  shows "heap_alloc E sz align h = (Some p, h') \<Longrightarrow> (p, sz) \<notin> live h \<and> live h' = insert (p, sz) (live h)"
    "heap_realloc E ptr old align new h = (Some p, h') \<Longrightarrow> (ptr, old) \<in> live h \<Longrightarrow>
       (p, new) \<notin> live h - {(ptr, old)} \<and> live h' = insert (p, new) (live h - {(ptr, old)})"
    "(ptr, sz) \<in> live h \<Longrightarrow> live (heap_dealloc E ptr sz align h) = live h - {(ptr, sz)}"
  by (rule assms [unfolded heap_contract_def, THEN conjunct1, rule_format], assumption,
      rule assms [unfolded heap_contract_def, THEN conjunct2, THEN conjunct1, rule_format], assumption, assumption,
      rule assms [unfolded heap_contract_def, THEN conjunct2, THEN conjunct2, rule_format], assumption)

lemma heap_served:
  assumes "first_fit_heap E ok live slack" and "ok h" and "0 < align"
    and "free_gap slack (live h) (sz + align + slack)"
  obtains p h' where "heap_alloc E sz align h = (Some p, h')" "ok h'" "placed p sz align (live h)"
    "(p, sz) \<notin> live h" "live h' = insert (p, sz) (live h)"
proof -
  obtain r h' where r: "heap_alloc E sz align h = (r, h')" by (cases "heap_alloc E sz align h")
  from first_fitD(3) [OF assms(1-3) r] obtain p where p: "r = Some p" "ok h'" "placed p sz align (live h)"
    using assms(4) by (auto split: option.splits)
  show thesis
    using that [OF r [unfolded p(1)] p(2,3)] heap_contractD(1) [OF first_fitD(1) [OF assms(1)] r [unfolded p(1)]] by blast
qed

lemma heap_regrown:
  assumes "first_fit_heap E ok live slack" and "ok h" and "0 < align" and "(ptr, old) \<in> live h"
    and "free_gap slack (live h) (new + align + slack)"
  obtains p h' where "heap_realloc E ptr old align new h = (Some p, h')" "ok h'"
    "placed p new align (live h - {(ptr, old)})"
    "(p, new) \<notin> live h - {(ptr, old)}" "live h' = insert (p, new) (live h - {(ptr, old)})"
proof -
  obtain r h' where r: "heap_realloc E ptr old align new h = (r, h')" by (cases "heap_realloc E ptr old align new h")
  from first_fitD(4) [OF assms(1-4) r] obtain p where p: "r = Some p" "ok h'" "placed p new align (live h - {(ptr, old)})"
    using assms(5) by (auto split: option.splits)
  show thesis
    using that [OF r [unfolded p(1)] p(2,3)]
      heap_contractD(2) [OF first_fitD(1) [OF assms(1)] r [unfolded p(1)] assms(4)] by blast
qed

lemma heap_released:
  assumes "first_fit_heap E ok live slack" and "ok h" and "(ptr, sz) \<in> live h"
  shows "ok (heap_dealloc E ptr sz align h)" "live (heap_dealloc E ptr sz align h) = live h - {(ptr, sz)}"
  using first_fitD(5) [OF assms] heap_contractD(3) [OF first_fitD(1) [OF assms(1)] assms(3)] by blast+

section \<open>A few blocks leave a gap\<close>

text \<open>
  The heap is cut into windows of \<open>W\<close> bytes. A block of at most \<open>W\<close> bytes meets two of them
  at most, so among more than twice as many windows as blocks one is free.
\<close>

lemma block_windows:
  assumes "m \<le> W" and "\<not> (a + (i + 1) * W \<le> q \<or> q + m \<le> a + i * W)"
  shows "i \<in> {(q - a) div W, Suc ((q - a) div W)}"
proof -
  have W: "0 < W" using assms by (cases W) auto
  have lo: "q - a < Suc i * W" using assms(2) W by (cases "a \<le> q") auto
  have hi: "i * W < (q - a) + W"
    using assms by linarith
  have "(q - a) div W \<le> i" using lo by (metis less_mult_imp_div_less less_Suc_eq_le)
  moreover have "i \<le> Suc ((q - a) div W)"
  proof -
    have "i * W < (Suc ((q - a) div W) + 1) * W"
      using hi dividend_less_div_times [OF W, of "q - a"] by (simp add: algebra_simps)
    then have "i < Suc ((q - a) div W) + 1" by (rule mult_less_cancel2 [THEN iffD1, THEN conjunct2])
    then show ?thesis by simp
  qed
  ultimately show ?thesis by auto
qed

lemma free_window:
  assumes "finite L" and "\<forall>(q, m) \<in> L. m \<le> W" and "2 * card L < k"
  shows "\<exists>i < k. \<forall>(q, m) \<in> L. a + (i + 1) * W \<le> q \<or> q + m \<le> a + i * W"
proof (rule ccontr)
  assume "\<not> ?thesis"
  then have hit: "\<exists>(q, m) \<in> L. \<not> (a + (i + 1) * W \<le> q \<or> q + m \<le> a + i * W)" if "i < k" for i
    using that by fastforce
  let ?F = "\<lambda>(q, m). {(q - a) div W, Suc ((q - a) div W)}"
  have "i \<in> \<Union> (?F ` L)" if less: "i < k" for i
  proof -
    obtain q m where b: "(q, m) \<in> L" "\<not> (a + (i + 1) * W \<le> q \<or> q + m \<le> a + i * W)" using hit [OF less] by auto
    then have "i \<in> ?F (q, m)" using assms(2) block_windows [of m W a i q] by auto
    then show ?thesis using b(1) by (rule UN_I [rotated])
  qed
  then have "{..<k} \<subseteq> \<Union> (?F ` L)" by blast
  moreover have "finite (\<Union> (?F ` L))" using assms(1) by (simp add: case_prod_unfold)
  ultimately have "k \<le> card (\<Union> (?F ` L))" using card_mono [of "\<Union> (?F ` L)" "{..<k}"] by simp
  also have "\<dots> \<le> (\<Sum>b \<in> L. card (?F b))" using assms(1) by (rule card_UN_le)
  also have "\<dots> \<le> (\<Sum>b \<in> L. 2)" by (intro sum_mono) (auto simp: card_insert_if)
  finally show False using assms(3) by simp
qed

lemma free_gap_few:
  assumes "finite L" and "\<forall>(q, m) \<in> L. m + slack \<le> W" and "n \<le> W" and "(2 * card L + 1) * W \<le> HEAP_SIZE"
  shows "free_gap slack L n"
proof -
  let ?L = "(\<lambda>(q, m). (q, m + slack)) ` L"
  have "card ?L \<le> card L" using assms(1) by (rule card_image_le)
  then obtain i where i: "i < 2 * card L + 1"
    "\<forall>(q, m) \<in> ?L. HEAP_START + (i + 1) * W \<le> q \<or> q + m \<le> HEAP_START + i * W"
    using free_window [of ?L W "2 * card L + 1" HEAP_START] assms(1,2) by fastforce
  have "(i + 1) * W \<le> (2 * card L + 1) * W" using i(1) by (intro mult_le_mono1) simp
  also note assms(4)
  finally have "HEAP_START + i * W + n \<le> HEAP_START + HEAP_SIZE" using assms(3) by (simp add: algebra_simps)
  moreover have "HEAP_START + i * W + n \<le> q \<or> q + m + slack \<le> HEAP_START + i * W" if "(q, m) \<in> L" for q m
  proof -
    have "(q, m + slack) \<in> ?L" using that by force
    then have "HEAP_START + (i + 1) * W \<le> q \<or> q + (m + slack) \<le> HEAP_START + i * W" using i(2) by blast
    then show ?thesis using assms(3) by (auto simp: algebra_simps)
  qed
  ultimately show ?thesis unfolding free_gap_def by (intro exI [of _ "HEAP_START + i * W"]) auto
qed

section \<open>Requests of a program\<close>

lemma wp_alloc_served:
  assumes F: "first_fit_heap E ok live slack" and s: "ok (heap s)" and "0 < align"
    and "free_gap slack (live (heap s)) (sz + align + slack)"
    and Q: "\<And>p h'. ok h' \<Longrightarrow> placed p sz align (live (heap s)) \<Longrightarrow> (p, sz) \<notin> live (heap s) \<Longrightarrow>
      live h' = insert (p, sz) (live (heap s)) \<Longrightarrow> Q p (s\<lparr>heap := h'\<rparr>)"
  shows "wp (alloc E sz align) Q S s"
proof -
  obtain p h' where "heap_alloc E sz align (heap s) = (Some p, h')" "ok h'" "placed p sz align (live (heap s))"
    "(p, sz) \<notin> live (heap s)" "live h' = insert (p, sz) (live (heap s))"
    using heap_served [OF F s assms(3,4)] by blast
  then show ?thesis using Q [of h' p] by (simp add: alloc_def wp_seq wp_value wp_kupd)
qed

lemma wp_dealloc_served:
  assumes F: "first_fit_heap E ok live slack" and s: "ok (heap s)" "(ptr, sz) \<in> live (heap s)"
    and Q: "\<And>h'. ok h' \<Longrightarrow> live h' = live (heap s) - {(ptr, sz)} \<Longrightarrow> Q () (s\<lparr>heap := h'\<rparr>)"
  shows "wp (dealloc E ptr sz align) Q S s"
  using Q [OF heap_released [OF F s]] by (simp add: dealloc_def wp_kupd)

text \<open>
  Pushing \<open>N\<close> elements never asks for more than twice their size; \<open>vec_room\<close> says that the
  heap has the windows for the blocks \<open>B\<close> of others, the old block and the new one.
\<close>

definition vec_room :: "usize \<Rightarrow> usize \<Rightarrow> usize \<Rightarrow> (usize \<times> usize) set \<Rightarrow> bool" where
  "vec_room slack sz cap B \<longleftrightarrow>
     finite B \<and> (\<forall>(q, m) \<in> B. m \<le> sz * cap) \<and> (2 * card B + 3) * (sz * cap + sz + slack) \<le> HEAP_SIZE"

definition vec_ok :: "usize \<Rightarrow> 'a rust_vec \<Rightarrow> bool" where
  "vec_ok sz v \<longleftrightarrow> length (vec_items v) \<le> vec_cap v \<and>
     (vec_cap v \<noteq> 0 \<longrightarrow> HEAP_START \<le> vec_ptr v \<and> vec_ptr v + sz * vec_cap v \<le> HEAP_START + HEAP_SIZE \<and> sz dvd vec_ptr v)"

lemma vec_room_gap:
  assumes "vec_room slack sz cap B" and "vec_owns sz B v L" and "vec_cap v \<le> cap" and "n \<le> sz * cap"
  shows "free_gap slack L (n + sz + slack)"
proof (rule free_gap_few)
  let ?b = "(vec_ptr v, sz * vec_cap v)"
  have L: "L \<subseteq> insert ?b B" using assms(2) by (auto simp: vec_owns_def split: if_splits)
  have fin: "finite (insert ?b B)" using assms(1) by (simp add: vec_room_def)
  then show "finite L" using L finite_subset by blast
  have "card L \<le> card (insert ?b B)" using L fin by (rule card_mono [rotated])
  also have "\<dots> \<le> card B + 1" using fin by (simp add: card_insert_if)
  finally have "(2 * card L + 1) * (sz * cap + sz + slack) \<le> (2 * card B + 3) * (sz * cap + sz + slack)"
    by (intro mult_le_mono1) simp
  also have "\<dots> \<le> HEAP_SIZE" using assms(1) by (simp add: vec_room_def)
  finally show "(2 * card L + 1) * (sz * cap + sz + slack) \<le> HEAP_SIZE" .
  have "m \<le> sz * cap" if "(q, m) \<in> L" for q m
    using subsetD [OF L that] assms(1,3) by (auto simp: vec_room_def)
  then show "\<forall>(q, m) \<in> L. m + slack \<le> sz * cap + sz + slack" by fastforce
  show "n + sz + slack \<le> sz * cap + sz + slack" using assms(4) by simp
qed

lemma wp_vec_push_served:
  assumes F: "first_fit_heap E ok live slack" and s: "ok (heap s)" and v: "vec_owns sz B v (live (heap s))" "vec_ok sz v"
    and room: "vec_room slack sz cap B" "vec_cap v \<le> cap" "grown sz (vec_cap v) (length (vec_items v)) \<le> cap" and "0 < sz"
    and Q: "\<And>v' h'. ok h' \<Longrightarrow> vec_owns sz B v' (live h') \<Longrightarrow> vec_ok sz v' \<Longrightarrow> vec_items v' = vec_items v @ [x] \<Longrightarrow>
      vec_cap v' = grown sz (vec_cap v) (length (vec_items v)) \<Longrightarrow> Q v' (s\<lparr>heap := h'\<rparr>)"
  shows "wp (vec_push E sz x v) Q S s"
proof (cases "length (vec_items v) < vec_cap v")
  case True
  then show ?thesis
    using Q [of "heap s" "v\<lparr>vec_items := vec_items v @ [x]\<rparr>"] s v
    by (simp add: vec_push_def wp_seq wp_value vec_owns_def vec_ok_def grown_def)
next
  case False
  let ?cap = "grow_amortized sz (vec_cap v) (length (vec_items v) + 1)"
  have cap: "grown sz (vec_cap v) (length (vec_items v)) = ?cap" "length (vec_items v) < ?cap"
    using False by (simp_all add: grown_def grow_amortized_def)
  let ?v = "\<lambda>p. v\<lparr>vec_ptr := p, vec_cap := ?cap, vec_items := vec_items v @ [x]\<rparr>"
  have gap: "free_gap slack (live (heap s)) (sz * ?cap + sz + slack)"
    using room cap(1) by (intro vec_room_gap [OF room(1) v(1) room(2)] mult_le_mono2) simp
  have post: "Q (?v p) (s\<lparr>heap := h'\<rparr>)"
    if "ok h'" "placed p (sz * ?cap) sz B" "(p, sz * ?cap) \<notin> B" "live h' = insert (p, sz * ?cap) B" for p h'
    using that cap by (intro Q) (simp_all add: vec_owns_def vec_ok_def placed_def)
  have "wp (if vec_cap v = 0 then alloc E (sz * ?cap) sz
      else realloc E (vec_ptr v) (sz * vec_cap v) sz (sz * ?cap)) (\<lambda>p. Q (?v p)) S s"
  proof (cases "vec_cap v = 0")
    case True
    then have B: "live (heap s) = B" using v(1) by (simp add: vec_owns_def)
    have "wp (alloc E (sz * ?cap) sz) (\<lambda>p. Q (?v p)) S s"
      using post B by (intro wp_alloc_served [OF F s \<open>0 < sz\<close> gap]) simp
    then show ?thesis using True by simp
  next
    case False
    then have own: "(vec_ptr v, sz * vec_cap v) \<in> live (heap s)" "live (heap s) - {(vec_ptr v, sz * vec_cap v)} = B"
      using v(1) by (auto simp: vec_owns_def)
    obtain p h' where p: "heap_realloc E (vec_ptr v) (sz * vec_cap v) sz (sz * ?cap) (heap s) = (Some p, h')" "ok h'"
      "placed p (sz * ?cap) sz B" "(p, sz * ?cap) \<notin> B" "live h' = insert (p, sz * ?cap) B"
      using heap_regrown [OF F s \<open>0 < sz\<close> own(1) gap] unfolding own(2) by blast
    have "Q (?v p) (s\<lparr>heap := h'\<rparr>)" using p(2-) by (rule post)
    then show ?thesis using False p(1) by (simp add: realloc_def wp_seq wp_value wp_kupd)
  qed
  then show ?thesis
    using False by (cases "vec_cap v = 0") (simp_all add: vec_push_def wp_seq wp_value Let_def)
qed

lemma wp_vec_push_all_served:
  assumes F: "first_fit_heap E ok live slack" and room: "vec_room slack sz cap B" "min_non_zero_cap sz \<le> cap" and "0 < sz"
  shows "ok (heap s) \<Longrightarrow> vec_owns sz B v (live (heap s)) \<Longrightarrow> vec_ok sz v \<Longrightarrow> vec_cap v \<le> cap \<Longrightarrow>
    2 * (length (vec_items v) + length xs) \<le> cap \<Longrightarrow>
    (\<And>v' h'. ok h' \<Longrightarrow> vec_owns sz B v' (live h') \<Longrightarrow> vec_ok sz v' \<Longrightarrow> vec_items v' = vec_items v @ xs \<Longrightarrow>
      Q v' (s\<lparr>heap := h'\<rparr>)) \<Longrightarrow>
    wp (vec_push_all E sz xs v) Q S s"
proof (induction xs arbitrary: v s)
  case Nil
  then show ?case using Nil.prems(6) [of "heap s" v] by (simp add: wp_value)
next
  case (Cons x xs)
  have cap: "grown sz (vec_cap v) (length (vec_items v)) \<le> cap"
    using Cons.prems(3-5) room(2) by (simp add: grown_def grow_amortized_def vec_ok_def)
  have "wp (vec_push E sz x v) (\<lambda>v. wp (vec_push_all E sz xs v) Q S) S s"
  proof (rule wp_vec_push_served [OF F Cons.prems(1-3) room(1) Cons.prems(4) cap \<open>0 < sz\<close>], goal_cases)
    case (1 v' h')
    show ?case
    proof (rule Cons.IH, goal_cases)
      case (6 u h'')
      then show ?case using Cons.prems(6) [of h'' u] 1(4) by simp
    qed (use 1 cap Cons.prems(5) in simp_all)
  qed
  then show ?case by (simp add: wp_seq)
qed

section \<open>The command mem\<close>

lemma wp_cmd_mem_served:
  assumes s: "running s" "MEMORY_INFO s = Some info"
    and E: "heap_alloc E 4 4 (heap s) = (Some p, h1)" "heap_alloc E 16 4 h1 = (Some q1, h2)"
      "heap_realloc E q1 16 4 32 h2 = (Some q2, h3)" "heap_realloc E q2 32 4 64 h3 = (Some q3, h4)"
  shows "wp (cmd_mem E) Q S s =
    Q () ((printed (mem_text info p) s)\<lparr>heap := heap_dealloc E p 4 4 (heap_dealloc E q3 64 4 h4)\<rparr>)"
proof -
  have ten: "[1..10] = [1, 2, 3, 4, 5, 6, 7, 8, 9, 10 :: int]" by (simp add: upto_rec1)
  have vec: "wp (vec_push_all E 4 [1..10] (vec_new 4)) Q S (u\<lparr>heap := h1\<rparr>) =
      Q \<lparr>vec_ptr = q3, vec_cap = 16, vec_items = [1..10]\<rparr> (u\<lparr>heap := h4\<rparr>)" for Q S u
    using E by (simp add: ten vec_new_def vec_push_def alloc_def realloc_def wp_seq wp_value wp_kupd grow_amortized_def
        min_non_zero_cap_def)
  show ?thesis
    using s E(1) running_printed [OF s(1)]
    by (simp add: cmd_mem_def wp_memory_info alloc_def vec_drop_def dealloc_def mem_steps vec vec_ten kres_def printed_twice
        mem_text_def del: str_simps)
qed

text \<open>On a heap without live blocks its four requests are served, and everything is given back.\<close>

lemma mem_requests_served:
  assumes F: "first_fit_heap E ok live slack" and "slack \<le> 256" and h: "ok h" "live h = {}"
  obtains p q1 q2 q3 h1 h2 h3 h4 where
    "heap_alloc E 4 4 h = (Some p, h1)" "heap_alloc E 16 4 h1 = (Some q1, h2)"
    "heap_realloc E q1 16 4 32 h2 = (Some q2, h3)" "heap_realloc E q2 32 4 64 h3 = (Some q3, h4)"
    "placed p 4 4 {}" "ok (heap_dealloc E p 4 4 (heap_dealloc E q3 64 4 h4))"
    "live (heap_dealloc E p 4 4 (heap_dealloc E q3 64 4 h4)) = {}"
proof -
  have gap: "free_gap slack L (n + 4 + slack)"
    if "finite L" "card L \<le> 2" "\<forall>(q, m) \<in> L. m \<le> 64" "n \<le> 64" for L n
  proof (rule free_gap_few [of L slack "68 + slack"])
    have "(2 * card L + 1) * (68 + slack) \<le> 5 * (68 + 256)" using that(2) \<open>slack \<le> 256\<close> by (intro mult_le_mono) simp_all
    then show "(2 * card L + 1) * (68 + slack) \<le> HEAP_SIZE" by (simp add: HEAP_SIZE_def)
  qed (use that in auto)
  have "free_gap slack (live h) (4 + 4 + slack)" using gap [of "{}" 4] h(2) by simp
  then obtain p h1 where p: "heap_alloc E 4 4 h = (Some p, h1)" "ok h1" "placed p 4 4 {}" "live h1 = {(p, 4)}"
    using heap_served [OF F h(1) zero_less_numeral] unfolding h(2) by metis
  have "free_gap slack (live h1) (16 + 4 + slack)" using gap [of "{(p, 4)}" 16] p(4) by simp
  then obtain q1 h2 where q1: "heap_alloc E 16 4 h1 = (Some q1, h2)" "ok h2" "live h2 = {(q1, 16), (p, 4)}"
    using heap_served [OF F p(2) zero_less_numeral] unfolding p(4) by metis
  have mem1: "(q1, 16) \<in> live h2" "live h2 - {(q1, 16)} = {(p, 4)}" using q1(3) by auto
  have "free_gap slack (live h2) (32 + 4 + slack)" using gap [of "live h2" 32] q1(3) by (simp add: card_insert_if)
  then obtain q2 h3 where q2: "heap_realloc E q1 16 4 32 h2 = (Some q2, h3)" "ok h3" "live h3 = {(q2, 32), (p, 4)}"
    using heap_regrown [OF F q1(2) zero_less_numeral mem1(1)] unfolding mem1(2) by metis
  have mem2: "(q2, 32) \<in> live h3" "live h3 - {(q2, 32)} = {(p, 4)}" using q2(3) by auto
  have "free_gap slack (live h3) (64 + 4 + slack)" using gap [of "live h3" 64] q2(3) by (simp add: card_insert_if)
  then obtain q3 h4 where q3: "heap_realloc E q2 32 4 64 h3 = (Some q3, h4)" "ok h4" "live h4 = {(q3, 64), (p, 4)}"
    using heap_regrown [OF F q2(2) zero_less_numeral mem2(1)] unfolding mem2(2) by metis
  let ?h = "heap_dealloc E q3 64 4 h4"
  have "ok ?h" "live ?h = {(p, 4)}" using heap_released [OF F q3(2), of q3 64] q3(3) by auto
  then show thesis using that [OF p(1) q1(1) q2(1) q3(1) p(3)] heap_released [OF F, of ?h p 4 4] by simp
qed

section \<open>A concrete allocator\<close>

lemma example_fits_gap:
  assumes "free_gap slack (set h) (sz + align + slack)" and "0 < align" and "0 < slack"
  shows "\<exists>a \<in> set [HEAP_START..<HEAP_START + HEAP_SIZE]. example_fits sz align h a"
proof -
  obtain g where g: "HEAP_START \<le> g" "g + (sz + align + slack) \<le> HEAP_START + HEAP_SIZE"
    "\<forall>(q, m) \<in> set h. g + (sz + align + slack) \<le> q \<or> q + m + slack \<le> g"
    using assms(1) unfolding free_gap_def by blast
  define a where "a = (g + align - 1) div align * align"
  have "a \<le> g + align - 1" "g + align - 1 < a + align"
    using assms(2) dividend_less_div_times [of align "g + align - 1"] by (simp_all add: a_def)
  then have a: "g \<le> a" "a < g + align" using assms(2) by linarith+
  have dvd: "align dvd a" by (simp add: a_def)
  have "example_fits sz align h a"
    using a dvd g assms(3) unfolding example_fits_def list_all_iff by fastforce
  moreover have "a \<in> set [HEAP_START..<HEAP_START + HEAP_SIZE]" using a g assms(3) by simp
  ultimately show ?thesis by blast
qed

lemma example_alloc_result:
  assumes "0 < align" and "example_alloc sz align h = (r, h')"
  shows "case r of None \<Rightarrow> \<not> free_gap 64 (set h) (sz + align + 64) | Some p \<Rightarrow> placed p sz align (set h)"
proof (cases r)
  case None
  then have "\<not> (\<exists>a \<in> set [HEAP_START..<HEAP_START + HEAP_SIZE]. example_fits sz align h a)"
    using assms(2) by (auto simp: example_alloc_def find_None_iff split: option.splits)
  then show ?thesis using example_fits_gap [OF _ assms(1), of 64 h sz] None by auto
next
  case (Some p)
  with assms(2) example_alloc_fits [of sz align h p h'] show ?thesis
    by (auto simp: placed_def example_fits_def list_all_iff)
qed

lemma example_first_fit: "first_fit_heap example_env (\<lambda>_. True) set 64"
  unfolding first_fit_heap_def
proof (intro conjI allI impI example_heap_contract, goal_cases)
  case (3 sz align h r h')
  then show ?case using example_alloc_result [of align sz h r h'] by (simp add: example_env_def)
next
  case (5 ptr old align new h r h')
  obtain r' u where u: "example_alloc new align h = (r', u)" by (cases "example_alloc new align h")
  then have "r = r'" using 5 by (auto simp: example_env_def split: option.splits)
  then show ?case using example_alloc_result [OF _ u] 5(2) by (auto simp: placed_def split: option.splits)
qed simp_all

end
