(* ===== verification/Unit_Tests_Pass.thy ===== *)
theory Unit_Tests_Pass
  imports Unit_Tests Main_Loop Screen_Text Heap_Service
begin

text \<open>
  The unit tests of \<^verbatim>\<open>serial.rs\<close>, \<^verbatim>\<open>interrupts.rs\<close>, \<^verbatim>\<open>keyboard.rs\<close>,
  \<^verbatim>\<open>vga_buffer.rs\<close> and of the line buffer of \<^verbatim>\<open>shell.rs\<close> pass: from every kernel that
  satisfies \<open>unit_inv\<close> each of them returns,
  with the invariant and the serial output that \<open>unit_suite\<close> announces. What the tests
  need of the machine is in \<open>unit_env_ok\<close>: a heap with nothing allocated serves the four
  requests of the \<open>mem\<close> command and is free again after them, and addresses fit in 64
  bits, so that the texts with numbers in them fit on the screen.
\<close>

section \<open>The invariant of a test run\<close>

definition unit_env_ok :: "('pt, 'h) env \<Rightarrow> ('h \<Rightarrow> bool) \<Rightarrow> bool" where
  "unit_env_ok E free \<longleftrightarrow>
     instruction_address E int3_site < 2 ^ 64 \<and>
     (\<forall>h. free h \<longrightarrow>
        (\<exists>p q1 q2 q3 h1 h2 h3 h4. heap_alloc E 4 4 h = (Some p, h1) \<and> p < 2 ^ 64 \<and>
           heap_alloc E 16 4 h1 = (Some q1, h2) \<and>
           heap_realloc E q1 16 4 32 h2 = (Some q2, h3) \<and>
           heap_realloc E q2 32 4 64 h3 = (Some q3, h4) \<and>
           free (heap_dealloc E p 4 4 (heap_dealloc E q3 64 4 h4))))"

text \<open>An allocator with the contract \<open>first_fit_heap\<close> serves them.\<close>

lemma first_fit_unit_env:
  assumes "first_fit_heap E ok live slack" and "slack \<le> 256" and "instruction_address E int3_site < 2 ^ 64"
  shows "unit_env_ok E (\<lambda>h. ok h \<and> live h = {})"
  unfolding unit_env_ok_def
proof (intro conjI allI impI)
  fix h assume "ok h \<and> live h = {}"
  then have h: "ok h" "live h = {}" by simp_all
  obtain p q1 q2 q3 h1 h2 h3 h4 where r: "heap_alloc E 4 4 h = (Some p, h1)" "heap_alloc E 16 4 h1 = (Some q1, h2)"
    "heap_realloc E q1 16 4 32 h2 = (Some q2, h3)" "heap_realloc E q2 32 4 64 h3 = (Some q3, h4)" "placed p 4 4 {}"
    "ok (heap_dealloc E p 4 4 (heap_dealloc E q3 64 4 h4))" "live (heap_dealloc E p 4 4 (heap_dealloc E q3 64 4 h4)) = {}"
    by (rule mem_requests_served [OF assms(1,2) h])
  have "p < 2 ^ 64" using r(5) by (simp add: placed_def HEAP_START_def HEAP_SIZE_def)
  then show "\<exists>p q1 q2 q3 h1 h2 h3 h4. heap_alloc E 4 4 h = (Some p, h1) \<and> p < 2 ^ 64 \<and> heap_alloc E 16 4 h1 = (Some q1, h2) \<and>
      heap_realloc E q1 16 4 32 h2 = (Some q2, h3) \<and> heap_realloc E q2 32 4 64 h3 = (Some q3, h4) \<and>
      (ok (heap_dealloc E p 4 4 (heap_dealloc E q3 64 4 h4)) \<and> live (heap_dealloc E p 4 4 (heap_dealloc E q3 64 4 h4)) = {})"
    using r by blast
qed (rule assms(3))

definition info_bounded :: "MemoryInfo \<Rightarrow> bool" where
  "info_bounded info \<longleftrightarrow> usable_bytes info < 2 ^ 64 \<and> heap_start info < 2 ^ 64 \<and> heap_size info < 2 ^ 64"

definition unit_inv :: "('pt, 'h) env \<Rightarrow> ('h \<Rightarrow> bool) \<Rightarrow> ('pt, 'h, 'g) kernel \<Rightarrow> bool" where
  "unit_inv E free s \<longleftrightarrow> unit_env_ok E free \<and> kernel_inv s \<and> free (heap s) \<and>
     (\<exists>info. MEMORY_INFO s = Some info \<and> info_bounded info)"

lemma unit_inv_start:
  assumes "unit_inv E free s"
  shows "WRITER_lock \<notin> held s" "writer_wf (WRITER s)" "SERIAL1_lock \<notin> held s" "SHIFT_lock \<notin> held s" "running s"
    "cpu_idt s = Some IDT" "held s = {}" "kernel_inv s"
  using assms by (simp_all add: unit_inv_def kernel_inv_def running_def)

lemma unit_inv_frame:
  "unit_inv E free s \<Longrightarrow> unit_inv E free (printed t s)"
  "unit_inv E free s \<Longrightarrow> unit_inv E free (screen_cleared s)"
  "unit_inv E free s \<Longrightarrow> unit_inv E free (screen_erased s)"
  "unit_inv E free s \<Longrightarrow> unit_inv E free (sent args s)"
  "unit_inv E free s \<Longrightarrow> unit_inv E free (s\<lparr>SHIFT := sh\<rparr>)"
  "unit_inv E free s \<Longrightarrow> free h \<Longrightarrow> unit_inv E free (s\<lparr>heap := h\<rparr>)"
  by (simp_all add: unit_inv_def kernel_inv_def running_def printed_wf)
    (simp_all add: screen_cleared_def screen_erased_def on_screen_def clear_screen_total cleared_wf backspace_eq erased_wf)

text \<open>A body that passes.\<close>

definition passes_test :: "('pt, 'h) env \<Rightarrow> ('h \<Rightarrow> bool) \<Rightarrow> bytes \<Rightarrow> (unit, ('pt, 'h, 'g) kernel) prog \<Rightarrow> bool" where
  "passes_test E free out body \<longleftrightarrow>
     (\<forall>s. unit_inv E free s \<longrightarrow>
        wp body (\<lambda>_ s'. unit_inv E free s' \<and> serial_text s' = serial_text s @ out) (\<lambda>_ _. False) s)"

lemma passes_testI:
  "(\<And>s. unit_inv E free s \<Longrightarrow>
     wp body (\<lambda>_ s'. unit_inv E free s' \<and> serial_text s' = serial_text s @ out) (\<lambda>_ _. False) s) \<Longrightarrow>
   passes_test E free out body"
  by (simp add: passes_test_def)

section \<open>Assertions\<close>

lemma wp_assert_contains:
  assumes "WRITER_lock \<notin> held s" and "shows_tty (WRITER s) t" and "visible needle t" and "length needle \<le> BUFFER_WIDTH"
  shows "wp (assert_contains E needle) Q S s = Q () s"
proof -
  have "needle \<noteq> []" using assms(3) by (simp add: visible_def)
  then show ?thesis
    using assms visible_found [OF assms(2,3)]
    by (simp add: assert_contains_def vga_screen_contains_def wp_simps test_steps held_same)
qed

lemma wp_assert_blank:
  assumes "WRITER_lock \<notin> held s" and "shows_tty (WRITER s) tty_empty"
  shows "wp (assert_blank E) Q S s = Q () s"
  using assms empty_screen_blank [OF assms(2)]
  by (simp add: assert_blank_def vga_screen_is_blank_def wp_simps test_steps held_same)

lemma wp_assert_cell:
  "cell_read (buffer (WRITER s)) row col = Inr ch \<Longrightarrow> ascii_character ch = b \<Longrightarrow> wp (assert_cell E row col b) Q S s = Q () s"
  by (simp add: assert_cell_def read_cell_def wp_simps test_steps)

lemma wp_kfor_unchanged:
  "(\<And>x Q. x \<in> set xs \<Longrightarrow> wp (body x) Q S s = Q () s) \<Longrightarrow> wp (kfor xs body) Q S s = Q () s"
  by (induction xs arbitrary: Q) (simp_all add: wp_simps)

section \<open>serial.rs and interrupts.rs\<close>

lemma pass_serial:
  "passes_test E free (str ''teste de escrita na serial'' @ [newline]) escreve_na_serial_sem_falhar"
  by (rule passes_testI)
    (simp add: escreve_na_serial_sem_falhar_def wp_serial_println unit_inv_start unit_inv_frame del: str_simps)

lemma pass_breakpoint:
  "passes_test E free breakpoint_line (breakpoint_e_tratado_sem_interromper_a_execucao E)"
  by (rule passes_testI)
    (simp add: breakpoint_e_tratado_sem_interromper_a_execucao_def wp_deliver_breakpoint unit_inv_start unit_inv_frame
      breakpoint_line_def del: str_simps)

section \<open>keyboard.rs\<close>

lemma wp_keyboard_translate:
  "SHIFT_lock \<notin> held s \<Longrightarrow>
     wp (keyboard_translate c) Q S s =
       Q (fst (translate c (SHIFT s))) (s\<lparr>SHIFT := snd (translate c (SHIFT s))\<rparr>)"
  by (simp add: wp_def keyboard_translate_eq)

lemma serial_text_shift [simp]: "serial_text (s\<lparr>SHIFT := sh\<rparr>) = serial_text s"
  by (simp add: serial_text_def)

lemma wp_reset_shift:
  "SHIFT_lock \<notin> held s \<Longrightarrow> wp reset_shift Q S s = Q () (s\<lparr>SHIFT := ShiftState_new\<rparr>)"
  by (cases "SHIFT s")
    (simp add: reset_shift_def wp_seq wp_value wp_keyboard_translate translate_def shift_codes ShiftState_new_def)

lemma wp_assert_translates:
  "SHIFT_lock \<notin> held s \<Longrightarrow> translate c (SHIFT s) = (expected, sh) \<Longrightarrow>
     wp (assert_translates E c expected) Q S s = Q () (s\<lparr>SHIFT := sh\<rparr>)"
  by (simp add: assert_translates_def wp_seq wp_keyboard_translate test_steps)

text \<open>The translations that the tests look at.\<close>

lemma tested_translations:
  "translate 0x1E ShiftState_new = (Some (byte CHR ''a''), ShiftState_new)"
  "translate LEFT_SHIFT_MAKE ShiftState_new = (None, \<lparr>left_held = True, right_held = False\<rparr>)"
  "translate 0x1E \<lparr>left_held = True, right_held = False\<rparr> = (Some (byte CHR ''A''), \<lparr>left_held = True, right_held = False\<rparr>)"
  "translate 0x02 ShiftState_new = (Some (byte CHR ''1''), ShiftState_new)"
  "translate RIGHT_SHIFT_MAKE ShiftState_new = (None, \<lparr>left_held = False, right_held = True\<rparr>)"
  "translate 0x02 \<lparr>left_held = False, right_held = True\<rparr> = (Some (byte CHR ''!''), \<lparr>left_held = False, right_held = True\<rparr>)"
  "translate 0x9E ShiftState_new = (None, ShiftState_new)"
  "translate 0x01 ShiftState_new = (None, ShiftState_new)"
  by code_simp+

lemmas keyboard_steps = wp_seq wp_reset_shift wp_assert_translates unit_inv_start unit_inv_frame tested_translations

lemma pass_keyboard:
  "passes_test E free [] (traduz_letra_minuscula E)"
  "passes_test E free [] (traduz_letra_maiuscula_com_shift E)"
  "passes_test E free [] (traduz_digito_e_simbolo_com_shift E)"
  "passes_test E free [] (ignora_break_code_de_tecla_comum E)"
  "passes_test E free [] (ignora_scancode_nao_mapeado E)"
  by (rule passes_testI, simp add: traduz_letra_minuscula_def traduz_letra_maiuscula_com_shift_def
      traduz_digito_e_simbolo_com_shift_def ignora_break_code_de_tecla_comum_def ignora_scancode_nao_mapeado_def
      keyboard_steps)+

section \<open>vga_buffer.rs\<close>

text \<open>After \<open>clear_screen\<close> and \<open>print!\<close> the screen shows the text and nothing else.\<close>

lemma shows_fresh:
  "kernel_inv s \<Longrightarrow> shows_tty (WRITER (printed text (screen_cleared s))) (tty_write text tty_empty)"
  by (intro shows_printed shows_screen_cleared) (simp add: kernel_inv_def running_def)

lemma held_fields [simp]: "held (screen_cleared s) = held s" "held (screen_erased s) = held s"
  by (simp_all add: screen_cleared_def screen_erased_def)

lemma tested_terminals:
  "tty_write (str ''A'') tty_empty = \<lparr>past = [], current = str ''A''\<rparr>"
  "tty_write (str ''ab'' @ [newline] @ str ''cd'') tty_empty = \<lparr>past = [str ''ab''], current = str ''cd''\<rparr>"
  "tty_write ([newline] @ str ''PRIMEIRA'' @ [newline] @ str ''SEGUNDA'') tty_empty =
     \<lparr>past = [[], str ''PRIMEIRA''], current = str ''SEGUNDA''\<rparr>"
  "tty_erase (tty_write (str ''AB'') tty_empty) = \<lparr>past = [], current = str ''A''\<rparr>"
  by (simp_all add: tty_write_def tty_put_def tty_erase_def tty_empty_def byte_def sanitize_def printable_def BUFFER_WIDTH_def)

lemma wp_cells_current:
  assumes "shows_tty (WRITER s) t" and "current t = l" and "i < BUFFER_WIDTH" and "b = (if i < length l then l ! i else 0x20)"
  shows "wp (assert_cell E (BUFFER_HEIGHT - 1) i b) Q S s = Q () s"
  using assms by (intro wp_assert_cell [OF shows_current_cell]) (auto simp: cells_of_byte)

lemma wp_cells_past:
  assumes "shows_tty (WRITER s) t" and "past t = ls @ [l]" and "i < length l" and "length l \<le> BUFFER_WIDTH" and "b = l ! i"
  shows "wp (assert_cell E (BUFFER_HEIGHT - 2) i b) Q S s = Q () s"
  using assms by (intro wp_assert_cell [OF shows_past_cell]) (auto simp: cells_of_byte)

lemma wp_locked_check:
  assumes "WRITER_lock \<notin> held s"
    and "\<And>Q. wp m Q S (s\<lparr>held := insert WRITER_lock (held s)\<rparr>) = Q () (s\<lparr>held := insert WRITER_lock (held s)\<rparr>)"
  shows "wp (with_lock WRITER_lock m) Q S s = Q () s"
  using assms by (simp add: wp_with_lock held_same)

lemma wp_clear_then:
  "unit_inv E free s \<Longrightarrow> wp (kthen (vga_clear_screen E) m) Q S s = wp m Q S (screen_cleared s)"
  by (simp add: wp_seq wp_vga_clear_screen unit_inv_start)

lemma wp_print_then:
  "unit_inv E free s \<Longrightarrow> wp (kthen (print E [text]) m) Q S s = wp m Q S (printed text s)"
  by (simp add: wp_seq wp_print unit_inv_start)

text \<open>Checks of the display under its lock, in a state that satisfies the invariant.\<close>

lemma passes_cells:
  assumes "unit_inv E free u" and "serial_text u = serial_text s"
    and "\<And>Q S. wp m Q S (u\<lparr>held := {WRITER_lock}\<rparr>) = Q () (u\<lparr>held := {WRITER_lock}\<rparr>)"
  shows "wp (with_lock WRITER_lock m) (\<lambda>_ s'. unit_inv E free s' \<and> serial_text s' = serial_text s @ []) (\<lambda>_ _. False) u"
  using assms by (simp add: wp_locked_check unit_inv_start)

lemma wp_read_cell: "cell_read (buffer (WRITER s)) row col = Inr ch \<Longrightarrow> wp (read_cell E row col) Q S s = Q ch s"
  by (simp add: read_cell_def wp_simps test_steps)

lemma pass_escreve: "passes_test E free [] (escreve_caractere_simples E)"
proof (rule passes_testI)
  fix s :: "('a, 'b, 'c) kernel" assume s: "unit_inv E free s"
  let ?u = "printed (str ''A'') (screen_cleared s)" and ?t = "\<lparr>past = [], current = str ''A''\<rparr>"
  have u: "unit_inv E free ?u" "shows_tty (WRITER ?u) ?t"
    using s shows_fresh [OF unit_inv_start(8) [OF s], of "str ''A''", unfolded tested_terminals] unit_inv_frame by blast+
  define ch where "ch = cells_of (color_code (WRITER ?u)) (current ?t) ! 0"
  have cell: "cell_read (buffer (WRITER ?u)) (BUFFER_HEIGHT - 1) 0 = Inr ch" "ascii_character ch = byte CHR ''A''"
    using shows_current_cell [OF u(2), of 0] by (simp_all add: ch_def BUFFER_WIDTH_def cells_of_byte)
  show "wp (escreve_caractere_simples E) (\<lambda>_ s'. unit_inv E free s' \<and> serial_text s' = serial_text s @ []) (\<lambda>_ _. False) s"
    unfolding escreve_caractere_simples_def wp_clear_then [OF s] wp_print_then [OF unit_inv_frame(2) [OF s]]
    unfolding wp_seq wp_with_lock [OF unit_inv_start(1) [OF u(1)]]
    using cell u(1) unit_inv_start(7) [OF s]
    by (subst wp_read_cell [where ch = ch]) (simp_all add: test_steps held_same)
qed

lemma pass_quebra: "passes_test E free [] (quebra_de_linha E)"
proof (rule passes_testI)
  fix s :: "('a, 'b, 'c) kernel" assume s: "unit_inv E free s"
  let ?u = "printed (str ''ab'' @ [newline] @ str ''cd'') (screen_cleared s)"
  have u: "unit_inv E free ?u" "shows_tty (WRITER (?u\<lparr>held := L\<rparr>)) \<lparr>past = [str ''ab''], current = str ''cd''\<rparr>" for L
    using s shows_fresh [OF unit_inv_start(8) [OF s], of "str ''ab'' @ [newline] @ str ''cd''", unfolded tested_terminals] unit_inv_frame
    by (blast, simp)
  show "wp (quebra_de_linha E) (\<lambda>_ s'. unit_inv E free s' \<and> serial_text s' = serial_text s @ []) (\<lambda>_ _. False) s"
    unfolding quebra_de_linha_def wp_clear_then [OF s] wp_print_then [OF unit_inv_frame(2) [OF s]]
  proof (rule passes_cells [OF u(1)])
    fix Q :: "unit \<Rightarrow> ('a, 'b, 'c) kernel \<Rightarrow> bool" and S
    let ?l = "?u\<lparr>held := {WRITER_lock}\<rparr>"
    have "wp (assert_cell E (BUFFER_HEIGHT - 1) 0 (byte CHR ''c'')) R S ?l = R () ?l"
      "wp (assert_cell E (BUFFER_HEIGHT - 1) 1 (byte CHR ''d'')) R S ?l = R () ?l" for R
      by (rule wp_cells_current [OF u(2) refl]; simp add: BUFFER_WIDTH_def)+
    then show "wp (kthen (assert_cell E (BUFFER_HEIGHT - 1) 0 (byte CHR ''c'')) (assert_cell E (BUFFER_HEIGHT - 1) 1 (byte CHR ''d''))) Q S
        ?l = Q () ?l"
      by (simp only: wp_seq)
  qed simp
qed

lemma in_enumerate: "(i, c) \<in> set (enumerate 0 l) \<Longrightarrow> i < length l \<and> c = l ! i"
  by (auto simp: in_set_enumerate_eq)

lemma wp_cells_text:
  assumes "length l \<le> BUFFER_WIDTH" and "\<And>i Q. i < length l \<Longrightarrow> wp (assert_cell E r i (l ! i)) Q S s = Q () s"
  shows "wp (kfor (enumerate 0 l) (\<lambda>(i, c). assert_cell E r i c)) Q S s = Q () s"
  by (rule wp_kfor_unchanged) (auto dest!: in_enumerate simp: assms(2))

lemma pass_rolagem: "passes_test E free [] (rolagem_ao_ultrapassar_a_altura_da_tela E)"
proof (rule passes_testI)
  fix s :: "('a, 'b, 'c) kernel" assume s: "unit_inv E free s"
  let ?text = "[newline] @ str ''PRIMEIRA'' @ [newline] @ str ''SEGUNDA''"
  let ?u = "printed ?text (screen_cleared s)" and ?t = "\<lparr>past = [[]] @ [str ''PRIMEIRA''], current = str ''SEGUNDA''\<rparr>"
  have u: "unit_inv E free ?u" "shows_tty (WRITER (?u\<lparr>held := L\<rparr>)) ?t" for L
    using s shows_fresh [OF unit_inv_start(8) [OF s], of ?text, unfolded tested_terminals] unit_inv_frame by (blast, simp)
  have len: "length (str ''PRIMEIRA'') \<le> BUFFER_WIDTH" "length (str ''SEGUNDA'') \<le> BUFFER_WIDTH" by (simp_all add: BUFFER_WIDTH_def)
  have rows: "past ?t = [[]] @ [str ''PRIMEIRA'']" "current ?t = str ''SEGUNDA''" by simp_all
  show "wp (rolagem_ao_ultrapassar_a_altura_da_tela E)
      (\<lambda>_ s'. unit_inv E free s' \<and> serial_text s' = serial_text s @ []) (\<lambda>_ _. False) s"
    unfolding rolagem_ao_ultrapassar_a_altura_da_tela_def wp_clear_then [OF s] wp_print_then [OF unit_inv_frame(2) [OF s]]
  proof (rule passes_cells [OF u(1)])
    fix Q :: "unit \<Rightarrow> ('a, 'b, 'c) kernel \<Rightarrow> bool" and S
    let ?l = "?u\<lparr>held := {WRITER_lock}\<rparr>"
    have "wp (kfor (enumerate 0 (str ''PRIMEIRA'')) (\<lambda>(i, c). assert_cell E (BUFFER_HEIGHT - 2) i c)) R S ?l = R () ?l" for R
      using wp_cells_past [OF u(2) rows(1) _ len(1)] by (intro wp_cells_text [OF len(1)]) blast
    moreover have "wp (kfor (enumerate 0 (str ''SEGUNDA'')) (\<lambda>(i, c). assert_cell E (BUFFER_HEIGHT - 1) i c)) R S ?l = R () ?l" for R
      using len(2) by (intro wp_cells_text [OF len(2)] wp_cells_current [OF u(2) rows(2)]) (simp_all del: str_simps)
    ultimately show "wp (kthen (kfor (enumerate 0 (str ''PRIMEIRA'')) (\<lambda>(i, c). assert_cell E (BUFFER_HEIGHT - 2) i c))
        (kfor (enumerate 0 (str ''SEGUNDA'')) (\<lambda>(i, c). assert_cell E (BUFFER_HEIGHT - 1) i c))) Q S ?l = Q () ?l"
      by (simp only: wp_seq)
  qed simp
qed

lemma pass_apaga: "passes_test E free [] (apaga_ultimo_caractere_com_backspace E)"
proof (rule passes_testI)
  fix s :: "('a, 'b, 'c) kernel" assume s: "unit_inv E free s"
  let ?p = "printed (str ''AB'') (screen_cleared s)"
  let ?u = "screen_erased ?p"
  have p: "unit_inv E free ?p" using s unit_inv_frame by blast
  have u: "shows_tty (WRITER (?u\<lparr>held := L\<rparr>)) \<lparr>past = [], current = str ''A''\<rparr>" for L
    using shows_screen_erased [OF shows_fresh [OF unit_inv_start(8) [OF s], of "str ''AB''"]] unfolding tested_terminals by simp
  have "wp (with_lock WRITER_lock (kthen (assert_cell E (BUFFER_HEIGHT - 1) 0 (byte CHR ''A''))
      (assert_cell E (BUFFER_HEIGHT - 1) 1 (byte CHR '' ''))))
      (\<lambda>_ s'. unit_inv E free s' \<and> serial_text s' = serial_text s @ []) (\<lambda>_ _. False) ?u"
  proof (rule passes_cells [OF unit_inv_frame(3) [OF p]])
    fix Q :: "unit \<Rightarrow> ('a, 'b, 'c) kernel \<Rightarrow> bool" and S
    let ?l = "?u\<lparr>held := {WRITER_lock}\<rparr>"
    have "wp (assert_cell E (BUFFER_HEIGHT - 1) 0 (byte CHR ''A'')) R S ?l = R () ?l"
      "wp (assert_cell E (BUFFER_HEIGHT - 1) 1 (byte CHR '' '')) R S ?l = R () ?l" for R
      by (rule wp_cells_current [OF u refl]; simp add: BUFFER_WIDTH_def byte_def)+
    then show "wp (kthen (assert_cell E (BUFFER_HEIGHT - 1) 0 (byte CHR ''A'')) (assert_cell E (BUFFER_HEIGHT - 1) 1 (byte CHR '' ''))) Q S
        ?l = Q () ?l"
      by (simp only: wp_seq)
  qed simp
  then show "wp (apaga_ultimo_caractere_com_backspace E)
      (\<lambda>_ s'. unit_inv E free s' \<and> serial_text s' = serial_text s @ []) (\<lambda>_ _. False) s"
    unfolding apaga_ultimo_caractere_com_backspace_def wp_clear_then [OF s] wp_print_then [OF unit_inv_frame(2) [OF s]]
      wp_seq(2) [of "vga_backspace E"] wp_vga_backspace [OF unit_inv_start(1,2) [OF p]] .
qed

section \<open>shell.rs: the line buffer\<close>

lemma line_push_room:
  "line_inv l \<Longrightarrow> length (line_contents l) < LINE_CAPACITY \<Longrightarrow> printable b \<Longrightarrow>
     \<exists>l'. LineBuffer_push b l = Inr (True, l') \<and> line_inv l' \<and> line_contents l' = line_contents l @ [b]"
  using line_push_refines [of l b] by auto

lemma wp_push_asserted:
  assumes "\<And>l'. line_inv l' \<Longrightarrow> line_contents l' = line_contents l @ bs \<Longrightarrow> Q l' s"
    and "line_inv l" and "length (line_contents l) + length bs \<le> LINE_CAPACITY" and "\<forall>b \<in> set bs. printable b"
  shows "wp (push_asserted E bs l) Q S s"
  using assms
proof (induction bs arbitrary: l)
  case Nil
  then show ?case by (simp add: wp_simps)
next
  case (Cons b bs)
  obtain l' where l': "LineBuffer_push b l = Inr (True, l')" "line_inv l'" "line_contents l' = line_contents l @ [b]"
    using line_push_room [of l b] Cons.prems(2-4) by auto
  then have "wp (push_asserted E bs l') Q S s" using Cons.prems by (intro Cons.IH) auto
  then show ?case using l'(1) by (simp add: wp_seq test_steps)
qed

lemma pass_acumula: "passes_test E free [] (linha_acumula_caracteres_digitados E)"
  unfolding linha_acumula_caracteres_digitados_def
  by (rule passes_testI, unfold wp_seq, rule wp_push_asserted)
    (simp_all add: line_as_str line_new test_steps LINE_CAPACITY_def, simp add: byte_def printable_def)

lemma pass_backspace: "passes_test E free [] (linha_backspace_remove_ultimo_caractere E)"
proof -
  have p: "printable (byte CHR ''a'')" "printable (byte CHR ''b'')" by (simp_all add: byte_def printable_def)
  obtain l1 where l1: "LineBuffer_push (byte CHR ''a'') LineBuffer_new = Inr (True, l1)" "line_inv l1"
    "line_contents l1 = [byte CHR ''a'']"
    using line_push_room [OF line_new(1) _ p(1)] by (auto simp: line_new LINE_CAPACITY_def)
  obtain l2 where l2: "LineBuffer_push (byte CHR ''b'') l1 = Inr (True, l2)" "line_inv l2"
    "line_contents l2 = [byte CHR ''a'', byte CHR ''b'']"
    using line_push_room [OF l1(2) _ p(2)] l1(3) by (auto simp: LINE_CAPACITY_def)
  obtain l3 where l3: "LineBuffer_pop l2 = Inr (True, l3)" "line_inv l3" "line_contents l3 = [byte CHR ''a'']"
    using line_pop_refines [OF l2(2)] l2(3) by auto
  obtain l4 where l4: "LineBuffer_pop LineBuffer_new = Inr (False, l4)" "line_inv l4" "line_contents l4 = []"
    using line_pop_refines [OF line_new(1)] by (auto simp: line_new)
  show ?thesis
    by (rule passes_testI)
      (simp add: linha_backspace_remove_ultimo_caractere_def wp_seq test_steps l1(1) l2(1) l3(1) l4(1)
        line_as_str [OF l3(2)] l3(3) line_as_str [OF l4(2)] l4(3))
qed

lemma pass_limite: "passes_test E free [] (linha_respeita_limite_de_tamanho E)"
  unfolding linha_respeita_limite_de_tamanho_def
proof (rule passes_testI, unfold wp_seq, rule wp_push_asserted)
  fix s :: "('a, 'b, 'c) kernel" and l
  assume l: "line_inv l" "line_contents l = line_contents LineBuffer_new @ replicate LINE_CAPACITY (byte CHR ''x'')"
    and s: "unit_inv E free s"
  have "printable (byte CHR ''y'')" by (simp add: byte_def printable_def)
  from line_push_refines [OF l(1) this] obtain l' where
    "LineBuffer_push (byte CHR ''y'') l = Inr (False, l')" "line_inv l'" "length (line_contents l') = LINE_CAPACITY"
    using l(2) by (auto simp: line_new)
  then show "wp (kres E (LineBuffer_push (byte CHR ''y'') l))
      (\<lambda>x. wp (case x of (accepted, line) \<Rightarrow>
          kthen (assert_that E (\<not> accepted))
            (kbind (kres E (LineBuffer_as_str line)) (\<lambda>text. assert_that E (length text = LINE_CAPACITY))))
        (\<lambda>_ s'. unit_inv E free s' \<and> serial_text s' = serial_text s @ []) (\<lambda>_ _. False))
      (\<lambda>_ _. False) s"
    using s by (simp add: wp_seq test_steps line_as_str)
qed (simp_all add: line_new byte_def printable_def)

end
