(* ===== verification/Unit_Suite.thy ===== *)
theory Unit_Suite
  imports Unit_Tests_Pass
begin

text \<open>
  The unit tests of the commands pass, and with them the whole suite: \<open>unit_tests\<close>
  interprets the contract of the test runner on the suite of the library, so that the
  theorems on the runner hold of the test binary.
\<close>

section \<open>shell.rs: commands that print\<close>

text \<open>
  \<open>l\<close> stands at the beginning of a line of \<open>text\<close>, after \<open>pre\<close>, and holds \<open>needle\<close>; the
  whole text fits on the screen.
\<close>

definition starts_line :: "bytes \<Rightarrow> bytes \<Rightarrow> bytes \<Rightarrow> bytes \<Rightarrow> bool" where
  "starts_line needle l pre text \<longleftrightarrow> needle \<noteq> [] \<and> sublist needle l \<and> length l \<le> BUFFER_WIDTH \<and> list_all printable l \<and>
     (pre = [] \<or> last pre = newline) \<and> prefix (pre @ l) text"

definition fits_screen :: "bytes \<Rightarrow> bool" where
  "fits_screen text \<longleftrightarrow> BUFFER_WIDTH * count_list text newline + length text < BUFFER_WIDTH * BUFFER_HEIGHT"

lemma starts_line_visible:
  assumes "starts_line needle l pre text" and "fits_screen text"
  shows "visible needle (tty_write text tty_empty)"
proof -
  obtain post where "text = pre @ l @ post" using assms(1) by (auto simp: starts_line_def prefix_def)
  then show ?thesis
    using assms line_start_visible [of pre l needle post] by (auto simp: starts_line_def fits_screen_def list_all_iff)
qed

lemma starts_line_length: "starts_line needle l pre text \<Longrightarrow> length needle \<le> BUFFER_WIDTH"
  using sublist_length_le [of needle l] by (auto simp: starts_line_def)

lemma wp_check_text:
  assumes "kernel_inv s" and "starts_line needle l pre text" and "fits_screen text"
  shows "wp (assert_contains E needle) Q S (printed text (screen_cleared s)) = Q () (printed text (screen_cleared s))"
  using assms
  by (intro wp_assert_contains [OF _ shows_fresh starts_line_visible starts_line_length]) (simp_all add: kernel_inv_def)

lemma pass_command:
  assumes "command_reply line = Some text" and "starts_line needle l pre text" and "fits_screen text"
  shows "passes_test E free [] (kthen (vga_clear_screen E) (kthen (execute E line) (assert_contains E needle)))"
proof (rule passes_testI)
  fix s :: "('a, 'b, 'c) kernel" assume s: "unit_inv E free s"
  then have c: "unit_inv E free (screen_cleared s)" by (rule unit_inv_frame)
  show "wp (kthen (vga_clear_screen E) (kthen (execute E line) (assert_contains E needle)))
      (\<lambda>_ s'. unit_inv E free s' \<and> serial_text s' = serial_text s @ []) (\<lambda>_ _. False) s"
    using c wp_execute_reply [OF unit_inv_start(1,2) [OF c] assms(1)]
    by (simp add: wp_seq wp_vga_clear_screen unit_inv_start [OF s] wp_check_text [OF unit_inv_start(8) [OF s] assms(2,3)] unit_inv_frame)
qed

lemma tested_replies:
  "command_reply (str ''help'') = Some help_text"
  "command_reply (str ''echo ola mundo'') = Some (str ''ola mundo'' @ [newline])"
  "command_reply (str ''sobre'') = Some sobre_text"
  "command_reply (str ''xyz'') = Some (str ''comando desconhecido: xyz (digite help)'' @ [newline])"
  "command_reply (str ''   sobre   '') = Some sobre_text"
  "command_reply (str ''falha'') =
     Some (str ''tipos disponiveis: pagina, pilha, opcode, protecao, breakpoint'' @ [newline])"
  "command_reply (str ''falha xyz'') =
     Some (str ''tipos disponiveis: pagina, pilha, opcode, protecao, breakpoint'' @ [newline])"
  by code_simp+

lemma tested_lines:
  "starts_line (str ''lista os comandos disponiveis'') (str ''help - lista os comandos disponiveis'') [] help_text"
  "starts_line (str ''ola mundo'') (str ''ola mundo'') [] (str ''ola mundo'' @ [newline])"
  "starts_line (str ''proto-os'') (str ''proto-os'') (VERSION @ [newline]) sobre_text"
  "starts_line (str ''comando desconhecido: xyz'') (str ''comando desconhecido: xyz'') []
     (str ''comando desconhecido: xyz (digite help)'' @ [newline])"
  "starts_line VERSION VERSION [] sobre_text"
  "starts_line (str ''tipos disponiveis'') (str ''tipos disponiveis'') []
     (str ''tipos disponiveis: pagina, pilha, opcode, protecao, breakpoint'' @ [newline])"
  by code_simp+

lemma tested_sizes:
  "fits_screen help_text" "fits_screen sobre_text" "fits_screen (str ''ola mundo'' @ [newline])"
  "fits_screen (str ''comando desconhecido: xyz (digite help)'' @ [newline])"
  "fits_screen (str ''tipos disponiveis: pagina, pilha, opcode, protecao, breakpoint'' @ [newline])"
  by code_simp+

lemma pass_printing:
  "passes_test E free [] (comando_help_lista_os_comandos E)"
  "passes_test E free [] (comando_echo_repete_o_texto_digitado E)"
  "passes_test E free [] (comando_sobre_descreve_o_proto_os E)"
  "passes_test E free [] (comando_desconhecido_mostra_mensagem_de_erro E)"
  "passes_test E free [] (espacos_extras_nas_pontas_sao_ignorados E)"
  "passes_test E free [] (comando_sobre_mostra_a_versao E)"
  "passes_test E free [] (comando_falha_sem_argumento_lista_tipos E)"
  "passes_test E free [] (comando_falha_tipo_desconhecido_lista_tipos E)"
  unfolding comando_help_lista_os_comandos_def comando_echo_repete_o_texto_digitado_def
    comando_sobre_descreve_o_proto_os_def comando_desconhecido_mostra_mensagem_de_erro_def
    espacos_extras_nas_pontas_sao_ignorados_def comando_sobre_mostra_a_versao_def
    comando_falha_sem_argumento_lista_tipos_def comando_falha_tipo_desconhecido_lista_tipos_def
  by (rule pass_command, rule tested_replies, rule tested_lines, rule tested_sizes)+

section \<open>shell.rs: the other commands\<close>

lemma execute_clear: "execute E (str ''clear'') = vga_clear_screen E"
proof -
  have "trim (str ''clear'') = str ''clear''" by code_simp
  moreover have "split_command (str ''clear'') = (str ''clear'', [])" by code_simp
  moreover have "str ''clear'' \<noteq> []" by simp
  ultimately show ?thesis by (simp add: execute_def Let_def str_inj del: str_simps)
qed

lemma wp_blank_screen:
  "unit_inv E free s \<Longrightarrow> wp (assert_blank E) Q S (screen_cleared s) = Q () (screen_cleared s)"
  by (intro wp_assert_blank shows_screen_cleared) (simp_all add: unit_inv_start)

lemma pass_clear: "passes_test E free [] (comando_clear_limpa_a_tela E)"
proof (rule passes_testI)
  fix s :: "('a, 'b, 'c) kernel" assume s: "unit_inv E free s"
  let ?p = "printed (str ''conteudo antes do clear'') (screen_cleared s)"
  have p: "unit_inv E free ?p" using s unit_inv_frame by blast
  show "wp (comando_clear_limpa_a_tela E)
      (\<lambda>_ s'. unit_inv E free s' \<and> serial_text s' = serial_text s @ []) (\<lambda>_ _. False) s"
    unfolding comando_clear_limpa_a_tela_def wp_clear_then [OF s] wp_print_then [OF unit_inv_frame(2) [OF s]]
      execute_clear wp_clear_then [OF p] wp_blank_screen [OF p]
    using unit_inv_frame(2) [OF p] by simp
qed

lemma pass_vazia: "passes_test E free [] (linha_vazia_nao_faz_nada E)"
proof (rule passes_testI)
  fix s :: "('a, 'b, 'c) kernel" assume s: "unit_inv E free s"
  have "wp (execute E (str '''')) Q S u = Q () u" for Q S and u :: "('a, 'b, 'c) kernel"
    by (simp add: execute_def trim_def wp_simps)
  then show "wp (linha_vazia_nao_faz_nada E)
      (\<lambda>_ s'. unit_inv E free s' \<and> serial_text s' = serial_text s @ []) (\<lambda>_ _. False) s"
    unfolding linha_vazia_nao_faz_nada_def wp_clear_then [OF s]
    using unit_inv_frame(2) [OF s] by (simp add: wp_seq wp_blank_screen [OF s])
qed

text \<open>A reported breakpoint.\<close>

lemma fmt_hex_no_newline: "count_list (fmt_hex n) newline = 0"
  using fmt_hex_printable [of n] by (auto simp: count_list_0_iff printable_def)

lemma fmt_dec_no_newline: "count_list (fmt_dec n) newline = 0"
  using fmt_dec_printable [of n] by (auto simp: count_list_0_iff printable_def)

lemma digits_length: "2 \<le> base \<Longrightarrow> n < base ^ Suc k \<Longrightarrow> length (digits base n) \<le> Suc k"
proof (induction k arbitrary: n)
  case 0
  then show ?case by (simp add: digits.simps [of base n])
next
  case (Suc k)
  then have "n div base < base ^ Suc k" by (simp add: div_less_iff_less_mult mult.commute)
  then show ?case using Suc.IH [of "n div base"] Suc.prems(1) by (simp add: digits.simps [of base n])
qed

lemma fmt_lengths:
  "n < 2 ^ 64 \<Longrightarrow> length (fmt_hex n) \<le> 18"
  "n < 2 ^ 64 \<Longrightarrow> length (fmt_dec n) \<le> 20"
  using digits_length [of 16 n 15] digits_length [of 10 n 19] by (simp_all add: fmt_hex_def fmt_dec_def)

lemma pass_falha_breakpoint: "passes_test E free breakpoint_line (comando_falha_breakpoint_retorna_ao_prompt E)"
proof (rule passes_testI)
  fix s :: "('a, 'b, 'c) kernel" assume s: "unit_inv E free s"
  let ?text = "str ''[EXCEPTION] breakpoint (#BP) em '' @ fmt_hex (instruction_address E int3_site) @ [newline]"
  let ?line = "[str ''[EXCEPTION] breakpoint (int3)'', [newline]]"
  have c: "unit_inv E free (screen_cleared s)" "unit_inv E free (sent ?line s)" using s unit_inv_frame by blast+
  have p: "unit_inv E free (printed ?text (screen_cleared (sent ?line s)))" using c(2) unit_inv_frame by blast
  let ?u = "screen_cleared (printed ?text (screen_cleared (sent ?line s)))"
  have "trim (str ''falha breakpoint'') = str ''falha breakpoint''" by code_simp
  note commands = falha_commands(5) [OF this] wp_execute_reply [OF unit_inv_start(1,2) [OF unit_inv_frame(2) [OF p]] tested_replies(3)]
  have line: "starts_line (str ''#BP'') (str ''[EXCEPTION] breakpoint (#BP) em '') [] ?text"
    unfolding starts_line_def by (intro conjI; code_simp)
  have "instruction_address E int3_site < 2 ^ 64" using s by (simp add: unit_inv_def unit_env_ok_def)
  then have size: "fits_screen ?text"
    using fmt_lengths(1) [of "instruction_address E int3_site"] fmt_hex_no_newline
    by (simp add: fits_screen_def byte_def BUFFER_WIDTH_def BUFFER_HEIGHT_def)
  have swap: "sent ?line (screen_cleared s) = screen_cleared (sent ?line s)"
    by (simp add: screen_cleared_def on_screen_def sent_def split: sum.splits)
  note checks = wp_check_text [OF unit_inv_start(8) [OF c(2)] line size]
    wp_check_text [OF unit_inv_start(8) [OF p] tested_lines(3) tested_sizes(2)]
  have bp: "wp (deliver E True (instruction_address E int3_site) Breakpoint) Q S (screen_cleared s) =
      Q () (printed ?text (screen_cleared (sent ?line s)))" for Q S
    unfolding wp_deliver_breakpoint [OF unit_inv_start(6,1,3,2) [OF c(1)]] swap ..
  show "wp (comando_falha_breakpoint_retorna_ao_prompt E)
      (\<lambda>_ s'. unit_inv E free s' \<and> serial_text s' = serial_text s @ breakpoint_line) (\<lambda>_ _. False) s"
    unfolding comando_falha_breakpoint_retorna_ao_prompt_def commands(1) wp_seq bp checks(1) commands(2) checks(2)
      wp_vga_clear_screen [OF unit_inv_start(1,2) [OF s]] wp_vga_clear_screen [OF unit_inv_start(1,2) [OF p]]
    using p unit_inv_frame(1) [OF unit_inv_frame(2) [OF p]] by (simp add: breakpoint_line_def del: str_simps)
qed

lemma mem_lines:
  fixes info p
  defines "m1 \<equiv> str ''memoria fisica utilizavel: '' @ fmt_dec (usable_bytes info div 1024) @ str '' KiB'' @ [newline]"
    and "m2 \<equiv> str ''heap: '' @ fmt_hex (heap_start info) @ str '', '' @ fmt_dec (heap_size info div 1024) @ str '' KiB'' @ [newline]"
    and "m3 \<equiv> str ''Box: valor='' @ fmt_int 42 @ str '', endereco='' @ fmt_hex p @ [newline]"
  shows "starts_line (str ''memoria fisica utilizavel'') (str ''memoria fisica utilizavel: '') [] (mem_text info p)"
    "starts_line (str ''heap'') (str ''heap: '') m1 (mem_text info p)"
    "starts_line (str ''Box'') (str ''Box: valor='') (m1 @ m2) (mem_text info p)"
    "starts_line (str ''Vec'') (str ''Vec: tamanho='') (m1 @ m2 @ m3) (mem_text info p)"
proof -
  have heads: "starts_line (str ''memoria fisica utilizavel'') (str ''memoria fisica utilizavel: '') [] (str ''memoria fisica utilizavel: '')"
    "starts_line (str ''heap'') (str ''heap: '') [] (str ''heap: '')"
    "starts_line (str ''Box'') (str ''Box: valor='') [] (str ''Box: valor='')"
    "starts_line (str ''Vec'') (str ''Vec: tamanho='') [] (str ''Vec: tamanho='')"
    by code_simp+
  have later: "starts_line needle l pre (pre @ l @ post)"
    if "starts_line needle l [] l" "pre = [] \<or> last pre = newline" for needle l pre post
    using that by (simp add: starts_line_def)
  have parts: "mem_text info p = [] @ str ''memoria fisica utilizavel: '' @ drop 27 m1 @ m2 @ m3 @ mem_vec"
    "mem_text info p = m1 @ str ''heap: '' @ drop 6 m2 @ m3 @ mem_vec"
    "mem_text info p = (m1 @ m2) @ str ''Box: valor='' @ drop 11 m3 @ mem_vec"
    "mem_text info p = (m1 @ m2 @ m3) @ str ''Vec: tamanho='' @ drop 13 mem_vec"
    by (simp_all add: mem_text_def m1_def m2_def m3_def mem_vec_def)
  have ends: "last m1 = newline" "last (m1 @ m2) = newline" "last (m1 @ m2 @ m3) = newline"
    by (simp_all add: m1_def m2_def m3_def)
  show "starts_line (str ''memoria fisica utilizavel'') (str ''memoria fisica utilizavel: '') [] (mem_text info p)"
    unfolding parts(1) by (intro later heads) simp
  show "starts_line (str ''heap'') (str ''heap: '') m1 (mem_text info p)"
    unfolding parts(2) by (intro later heads disjI2 ends)
  show "starts_line (str ''Box'') (str ''Box: valor='') (m1 @ m2) (mem_text info p)"
    unfolding parts(3) by (intro later heads disjI2 ends)
  show "starts_line (str ''Vec'') (str ''Vec: tamanho='') (m1 @ m2 @ m3) (mem_text info p)"
    unfolding parts(4) by (intro later heads disjI2 ends)
qed

lemma mem_text_fits:
  assumes "info_bounded info" and "p < 2 ^ 64"
  shows "fits_screen (mem_text info p)"
proof -
  have "usable_bytes info div 1024 < 2 ^ 64" "heap_size info div 1024 < 2 ^ 64"
    using assms(1) by (simp_all add: info_bounded_def div_less_iff_less_mult)
  note lens = fmt_lengths(2) [OF this(1)] fmt_lengths(2) [OF this(2)] fmt_lengths(1) [OF assms(2)]
    fmt_lengths(1) [of "heap_start info"] fmt_lengths(2) [of 42] fmt_lengths(2) [of 10] fmt_lengths(2) [of 16] fmt_lengths(2) [of 55]
  have "length (mem_text info p) < 300"
    using lens assms(1) by (simp add: mem_text_def fmt_int_def info_bounded_def)
  moreover have "count_list (mem_text info p) newline = 4"
    by (simp add: mem_text_def fmt_int_def fmt_hex_no_newline fmt_dec_no_newline byte_def)
  ultimately show ?thesis by (simp add: fits_screen_def BUFFER_WIDTH_def BUFFER_HEIGHT_def)
qed

lemma execute_mem: "execute E (str ''mem'') = cmd_mem E"
  by (rule execute_mem_line) code_simp

lemma pass_mem: "passes_test E free [] (comando_mem_mostra_memoria_heap_box_e_vec E)"
proof (rule passes_testI)
  fix s :: "('a, 'b, 'c) kernel" assume s: "unit_inv E free s"
  obtain info where info: "MEMORY_INFO s = Some info" "info_bounded info" using s by (auto simp: unit_inv_def)
  obtain p q1 q2 q3 h1 h2 h3 h4 where served: "heap_alloc E 4 4 (heap s) = (Some p, h1)" "p < 2 ^ 64"
    "heap_alloc E 16 4 h1 = (Some q1, h2)" "heap_realloc E q1 16 4 32 h2 = (Some q2, h3)"
    "heap_realloc E q2 32 4 64 h3 = (Some q3, h4)" "free (heap_dealloc E p 4 4 (heap_dealloc E q3 64 4 h4))"
    using s unfolding unit_inv_def unit_env_ok_def by blast
  have c: "unit_inv E free (screen_cleared s)" using s by (rule unit_inv_frame)
  let ?u = "(printed (mem_text info p) (screen_cleared s))\<lparr>heap := heap_dealloc E p 4 4 (heap_dealloc E q3 64 4 h4)\<rparr>"
  have frame: "MEMORY_INFO (screen_cleared s) = Some info" "heap (screen_cleared s) = heap s"
    using info(1) by (simp_all add: screen_cleared_def)
  have mem: "wp (cmd_mem E) Q S (screen_cleared s) = Q () ?u" for Q S
    using served frame by (intro wp_cmd_mem_served [OF unit_inv_start(5) [OF c]]) simp_all
  have u: "unit_inv E free ?u" using unit_inv_frame(6) [OF unit_inv_frame(1) [OF c] served(6)] .
  have "shows_tty (WRITER ?u) (tty_write (mem_text info p) tty_empty)" using shows_fresh [OF unit_inv_start(8) [OF s]] by simp
  from wp_assert_contains [OF unit_inv_start(1) [OF u] this starts_line_visible [OF _ mem_text_fits [OF info(2) served(2)]]]
  have check: "starts_line needle l pre (mem_text info p) \<Longrightarrow> wp (assert_contains E needle) Q S ?u = Q () ?u" for needle l pre Q S
    using starts_line_length by blast
  show "wp (comando_mem_mostra_memoria_heap_box_e_vec E)
      (\<lambda>_ s'. unit_inv E free s' \<and> serial_text s' = serial_text s @ []) (\<lambda>_ _. False) s"
    unfolding comando_mem_mostra_memoria_heap_box_e_vec_def execute_mem wp_seq
      wp_vga_clear_screen [OF unit_inv_start(1,2) [OF s]] mem check [OF mem_lines(1)] check [OF mem_lines(2)]
      check [OF mem_lines(3)] check [OF mem_lines(4)]
    using u by simp
qed

section \<open>The suite\<close>

lemma unit_suite_passes: "(name, body, out) \<in> set (unit_suite E) \<Longrightarrow> passes_test E free out body"
  unfolding unit_suite_def
  by (simp del: str_simps)
    (elim disjE conjE; simp del: str_simps add: pass_serial pass_breakpoint pass_keyboard pass_escreve pass_quebra pass_rolagem
      pass_apaga pass_acumula pass_backspace pass_limite pass_printing pass_clear pass_vazia pass_falha_breakpoint pass_mem)

interpretation unit_tests: test_suite "unit_inv E free" "set (unit_suite E)" for E free
proof
  fix s :: "('a, 'b, 'c) kernel"
  show "unit_inv E free s \<Longrightarrow> SERIAL1_lock \<notin> held s" by (rule unit_inv_start)
  show "unit_inv E free s \<Longrightarrow> unit_inv E free (sent args s)" for args by (rule unit_inv_frame)
  show "(name, body, out) \<in> set (unit_suite E) \<Longrightarrow> unit_inv E free s \<Longrightarrow>
      wp body (\<lambda>_ s'. unit_inv E free s' \<and> serial_text s' = serial_text s @ out) (\<lambda>_ _. False) s" for name body out
    using unit_suite_passes [of name body out E free] by (simp add: passes_test_def)
qed

section \<open>Properties\<close>

lemma boot_summary_bounded:
  assumes "map_wf (boot_memory_map bi)"
  shows "info_bounded (boot_summary bi)"
  using usable_total_bound [OF assms] by (simp add: info_bounded_def boot_summary_def HEAP_START_def HEAP_SIZE_def)

text \<open>After the initialisation the kernel is ready for the tests.\<close>

lemma initialized_unit_inv:
  assumes "machine_ok B bi" and "unit_env_ok E free" and "free (heap_init B HEAP_START HEAP_SIZE h)"
    and "initialized B bi (kernel_start mem pt h) s"
  shows "unit_inv E free s"
  using assms initialized_prompt [OF assms(4)] boot_summary_bounded [of bi]
  by (simp add: unit_inv_def machine_ok_def initialized_def kernel_start_def)

text \<open>
  C3. The unit tests of the library pass, in any number and order: the test binary boots,
  announces how many tests it runs, reports each of them as passed, with what it sends on
  the serial port and nothing else, and leaves the emulator with the success code. This
  holds on every machine that keeps the documented contracts and can map the heap, from
  any contents of the video memory, with an allocator that serves the four requests of
  the \<open>mem\<close> command and takes its blocks back. With no test at all it is the test binary
  of \<^verbatim>\<open>src/main.rs\<close>.
\<close>

theorem unit_tests_pass:
  assumes "machine_ok B bi" and "grid_wf mem" and "heap_mappable (phys B) (virt B) (paging B) bi pt"
    and "unit_env_ok E free" and "free (heap_init B HEAP_START HEAP_SIZE h)" and "set ts \<subseteq> set (unit_suite E)"
  shows "\<exists>s'. test_kernel_main E B bi (runnable ts) (kernel_start mem pt h) = Stop Halted s' \<and> exited Success s' \<and>
    serial_text s' = boot_stages @ boot_memory_line (boot_summary bi) @ suite_report ts"
proof (rule test_kernel_main_runs [OF assms(1-3)], goal_cases)
  case (1 s)
  show ?case
    using unit_tests.runner_succeeds [OF assms(6) initialized_unit_inv [OF assms(1,4,5) 1]]
    unfolding initialized_prompt(4) [OF 1] by simp
qed

lemma example_unit_env: "unit_env_ok example_env (\<lambda>h. h = [])"
  using first_fit_unit_env [OF example_first_fit] by (simp add: example_env_def)

definition example_suite :: "(example_tables, example_heap, example_gdt) test list" where
  "example_suite = unit_suite example_env"

lemma example_heap_start: "heap_init example_machine HEAP_START HEAP_SIZE [] = []"
  by (simp add: example_machine_def)

theorem unit_tests_pass_witness:
  "\<exists>s'. test_kernel_main example_env example_machine example_boot_info (runnable example_suite)
      (kernel_start (buffer blank_writer) Map.empty []) = Stop Halted s' \<and> exited Success s' \<and>
    serial_text s' = boot_stages @ boot_memory_line (boot_summary example_boot_info) @ suite_report example_suite"
  by (rule unit_tests_pass [OF example_machine_ok blank_grid example_heap_fits example_unit_env example_heap_start])
    (simp add: example_suite_def)

text \<open>
  C18. A failing test is reported and ends the run: in a test binary, when the tests before
  it pass and the test or the library code it calls panics while the serial port is not
  locked, whatever other locks are held and whatever it has done to the heap, the screen and
  the rest of the kernel, the binary sends the reports of the tests before it, the name of
  the test with what the test has sent, the failure and the panic, runs none of the tests
  after it, and leaves the emulator with the failure code. (With the serial port locked the
  handler would wait for it for ever.) It leaves with the failure code as well, before any
  test, where the heap cannot be mapped: then the panic of the initialisation is what it
  reports.
\<close>

theorem failed_test_reported:
  assumes "machine_ok B bi" and "grid_wf mem" and "tables_reserved (phys B) (paging B) bi pt"
    and "unit_env_ok E free" and "free (heap_init B HEAP_START HEAP_SIZE h)" and "set ts \<subseteq> set (unit_suite E)"
    and "panic_handler E = test_on_panic_fn"
    and "\<And>s. unit_inv E free s \<Longrightarrow>
      \<exists>u. body s = call_panic_handler E info u \<and> SERIAL1_lock \<notin> held u \<and> serial_text u = serial_text s @ out"
  shows "\<exists>s'. test_kernel_main E B bi (runnable ts @ (name, body) # rest) (kernel_start mem pt h) = Stop Halted s' \<and>
    exited Failed s' \<and>
    (serial_text s' = boot_stages @ boot_memory_line (boot_summary bi) @
       str ''Running '' @ fmt_dec (Suc (length ts + length rest)) @ str '' tests'' @ [newline] @
       concat (map test_report ts) @ name @ str ''...'' @ [9] @ out @ failure_text info \<or>
     \<not> heap_mappable (phys B) (virt B) (paging B) bi pt \<and>
     serial_text s' = boot_stages @ failure_text (panic_info_of E memory_panic))"
  unfolding test_kernel_main_def
proof (rule wp_StopD, rule test_binary_boots_or_fails [OF assms(1-3)], goal_cases)
  case (1 s)
  have "\<exists>u. body s = test_panic_handler info u \<and> SERIAL1_lock \<notin> held u \<and> serial_text u = serial_text s @ out"
    if "unit_inv E free s" for s
    using assms(8) [OF that] unfolding call_panic_test [OF assms(7)] .
  from unit_tests.runner_fails [OF assms(6) initialized_unit_inv [OF assms(1,4,5) 1] this]
  show ?case unfolding wp_seq initialized_prompt(4) [OF 1] by (rule wp_mono) simp_all
next
  case (2 e s)
  then show ?case using test_boot_failed [OF _ assms(7)] by blast
qed

text \<open>The environment of a test binary.\<close>

definition example_test_env :: "(example_tables, example_heap) env" where
  "example_test_env = example_env\<lparr>panic_handler := test_on_panic_fn\<rparr>"

lemma example_test_unit_env: "unit_env_ok example_test_env (\<lambda>h. h = [])"
  using example_unit_env by (simp add: unit_env_ok_def example_test_env_def)

text \<open>A test that panics while it holds the display.\<close>

lemma locked_assertion_panics:
  assumes "panic_handler E = test_on_panic_fn" and "WRITER_lock \<notin> held s" and "SERIAL1_lock \<notin> held s"
  shows "with_lock WRITER_lock (assert_that E False) s =
    call_panic_handler E (panic_info_of E AssertionFailed) (s\<lparr>held := insert WRITER_lock (held s)\<rparr>)"
proof -
  let ?u = "s\<lparr>held := insert WRITER_lock (held s)\<rparr>" and ?info = "panic_info_of E AssertionFailed"
  have "wp (test_panic_handler ?info) (\<lambda>_ _. False) (\<lambda>e v'. e = Halted \<and> True) ?u"
    using assms(3) by (simp add: wp_test_panic_handler)
  from wp_StopD [OF this] obtain w where "(test_panic_handler ?info :: (unit, ('a, 'b, 'c) kernel) prog) ?u = Stop Halted w" by blast
  then show ?thesis
    using assms(2) by (simp add: with_lock_def assert_that_def raise_panic_def call_panic_test [OF assms(1)])
qed

theorem failed_test_reported_witness:
  "\<exists>s'. test_kernel_main example_test_env example_machine example_boot_info
      (runnable (unit_suite example_test_env) @
        (str ''t'', with_lock WRITER_lock (assert_that example_test_env False)) # runnable example_suite)
      (kernel_start (buffer blank_writer) Map.empty []) = Stop Halted s' \<and> exited Failed s'"
proof -
  let ?body = "with_lock WRITER_lock (assert_that example_test_env False)"
    and ?info = "panic_info_of example_test_env AssertionFailed"
  note failed = failed_test_reported [OF example_machine_ok blank_grid heap_fits_reserved [OF example_heap_fits]
      example_test_unit_env example_heap_start subset_refl]
  have test: "panic_handler example_test_env = test_on_panic_fn" by (simp add: example_test_env_def)
  have "\<exists>u. ?body s = call_panic_handler example_test_env ?info u \<and> SERIAL1_lock \<notin> held u \<and> serial_text u = serial_text s @ []"
    if "unit_inv example_test_env (\<lambda>h. h = []) s" for s :: "(example_tables, example_heap, example_gdt) kernel"
    using locked_assertion_panics [OF test unit_inv_start(1) [OF that]] unit_inv_start(3) [OF that]
    by (intro exI [of _ "s\<lparr>held := insert WRITER_lock (held s)\<rparr>"]) simp
  from failed [OF test this, of "str ''t''" "runnable example_suite"] show ?thesis by blast
qed

end
