(* ===== verification/Integration_Tests.thy ===== *)
theory Integration_Tests
  imports Unit_Suite
begin

text \<open>
  Test binaries under \<^verbatim>\<open>tests/\<close>: the suites of \<^verbatim>\<open>boot_integration.rs\<close> and
  \<^verbatim>\<open>frame_allocator.rs\<close>, which interpret the contract of the runner as the unit tests
  do, and the binaries with an entry point of their own, \<^verbatim>\<open>should_panic.rs\<close>,
  \<^verbatim>\<open>page_fault.rs\<close> and \<^verbatim>\<open>double_fault.rs\<close>. The last two load a descriptor table with a
  single entry. The entry points of the suites are \<open>test_kernel_main\<close>: the static that
  keeps the boot information for the tests of \<^verbatim>\<open>frame_allocator.rs\<close> is an argument of
  their bodies.
\<close>

section \<open>boot\_integration.rs\<close>

definition kernel_inicializa_ate_o_prompt_ficar_pronto :: "('pt, 'h) env \<Rightarrow> (unit, ('pt, 'h, 'g) kernel) prog" where
  "kernel_inicializa_ate_o_prompt_ficar_pronto E = print_prompt E"

definition boas_vindas_mostra_a_versao :: "('pt, 'h) env \<Rightarrow> (unit, ('pt, 'h, 'g) kernel) prog" where
  "boas_vindas_mostra_a_versao E =
     kthen (vga_clear_screen E)
     (kthen (print_welcome E)
     (assert_contains E VERSION))"

definition boot_suite :: "('pt, 'h) env \<Rightarrow> ('pt, 'h, 'g) test list" where
  "boot_suite E =
     [(str ''boot_integration::kernel_inicializa_ate_o_prompt_ficar_pronto'',
         kernel_inicializa_ate_o_prompt_ficar_pronto E, []),
      (str ''boot_integration::boas_vindas_mostra_a_versao'', boas_vindas_mostra_a_versao E, [])]"

section \<open>frame\_allocator.rs\<close>

text \<open>\<^verbatim>\<open>expect\<close> in a test.\<close>

definition test_expect :: "('pt, 'h) env \<Rightarrow> bytes \<Rightarrow> 'a option \<Rightarrow> ('a, ('pt, 'h, 'g) kernel) prog" where
  "test_expect E msg x = (case x of None \<Rightarrow> raise_panic E (Expect msg) | Some y \<Rightarrow> kret y)"

text \<open>\<open>is_aligned\<close> is the method of the address type of the \<^verbatim>\<open>x86_64\<close> crate.\<close>

definition frame_obtido_esta_alinhado_e_utilizavel ::
  "('pt, 'h) env \<Rightarrow> 'frame phys_api \<Rightarrow> (u64 \<Rightarrow> u64 \<Rightarrow> bool) \<Rightarrow> MemoryRegion list \<Rightarrow> (unit, ('pt, 'h, 'g) kernel) prog" where
  "frame_obtido_esta_alinhado_e_utilizavel E P is_aligned mm =
     kbind (kres E (allocate_frame P (BootInfoFrameAllocator_init mm))) (\<lambda>(frame, _).
     kbind (test_expect E (str ''deveria haver memoria utilizavel em uma VM de teste'') frame) (\<lambda>frame.
     assert_that E (is_aligned (frame_start P frame) 4096)))"

definition AMOSTRA :: usize where
  "AMOSTRA = 2000"

fun amostra_de_frames ::
  "('pt, 'h) env \<Rightarrow> 'frame phys_api \<Rightarrow> nat \<Rightarrow> BootInfoFrameAllocator \<Rightarrow> (u64 list, ('pt, 'h, 'g) kernel) prog" where
  "amostra_de_frames E P 0 allocator = kret []"
| "amostra_de_frames E P (Suc n) allocator =
     kbind (kres E (allocate_frame P allocator)) (\<lambda>(frame, allocator).
     kbind (test_expect E (str ''deveria haver memoria utilizavel suficiente para a amostra'') frame) (\<lambda>frame.
     kbind (amostra_de_frames E P n allocator) (\<lambda>enderecos.
     kret (frame_start P frame # enderecos))))"

definition frames_entregues_nunca_se_repetem ::
  "('pt, 'h) env \<Rightarrow> 'frame phys_api \<Rightarrow> MemoryRegion list \<Rightarrow> (unit, ('pt, 'h, 'g) kernel) prog" where
  "frames_entregues_nunca_se_repetem E P mm =
     kbind (amostra_de_frames E P AMOSTRA (BootInfoFrameAllocator_init mm)) (\<lambda>enderecos.
     kfor [0..<AMOSTRA] (\<lambda>i.
       kfor [i + 1..<AMOSTRA] (\<lambda>j.
         kbind (kres E (arr_get enderecos i)) (\<lambda>a.
         kbind (kres E (arr_get enderecos j)) (\<lambda>b.
         assert_that E (a \<noteq> b))))))"

text \<open>\<^verbatim>\<open>while allocator.allocate_frame().is_some() {}\<close>: every turn advances the counter of the allocator.\<close>

lemma allocate_frame_advances:
  "allocate_frame P fa = Inr (f, fa') \<Longrightarrow> next_index fa' = next_index fa + 1 \<and> next_index fa' < 2 ^ 64"
  by (auto simp: allocate_frame_def usize_add_def rbind_def split: sum.splits if_splits)

function exhaust_frames :: "'frame phys_api \<Rightarrow> BootInfoFrameAllocator \<Rightarrow> BootInfoFrameAllocator res" where
  "exhaust_frames P allocator =
     (case allocate_frame P allocator of
        Inl p \<Rightarrow> Inl p
      | Inr (None, allocator') \<Rightarrow> Inr allocator'
      | Inr (Some _, allocator') \<Rightarrow> exhaust_frames P allocator')"
  by pat_completeness auto
termination
  by (relation "measure (\<lambda>(P, fa). 2 ^ 64 - next_index fa)") (auto dest!: allocate_frame_advances)

declare exhaust_frames.simps [simp del]

definition esgotar_a_memoria_utilizavel_devolve_none ::
  "('pt, 'h) env \<Rightarrow> 'frame phys_api \<Rightarrow> (unit, ('pt, 'h, 'g) kernel) prog" where
  "esgotar_a_memoria_utilizavel_devolve_none E P =
     kbind (kres E (exhaust_frames P (BootInfoFrameAllocator_init mapa_pequeno))) (\<lambda>allocator.
     kbind (kres E (allocate_frame P allocator)) (\<lambda>(frame, _).
     assert_that E (frame = None)))"

definition frame_suite ::
  "('pt, 'h) env \<Rightarrow> 'frame phys_api \<Rightarrow> (u64 \<Rightarrow> u64 \<Rightarrow> bool) \<Rightarrow> MemoryRegion list \<Rightarrow> ('pt, 'h, 'g) test list" where
  "frame_suite E P is_aligned mm =
     [(str ''frame_allocator::frame_obtido_esta_alinhado_e_utilizavel'',
         frame_obtido_esta_alinhado_e_utilizavel E P is_aligned mm, []),
      (str ''frame_allocator::frames_entregues_nunca_se_repetem'', frames_entregues_nunca_se_repetem E P mm, []),
      (str ''frame_allocator::esgotar_a_memoria_utilizavel_devolve_none'',
         esgotar_a_memoria_utilizavel_devolve_none E P, [])]"

section \<open>should\_panic.rs\<close>

definition verificacao_que_deve_falhar :: "('pt, 'h) env \<Rightarrow> (unit, ('pt, 'h, 'g) kernel) prog" where
  "verificacao_que_deve_falhar E =
     (if (1 :: int) = 2 then kret () else raise_panic E AssertionFailed)"

definition should_panic_main ::
  "('pt, 'h) env \<Rightarrow> ('pt, 'h, 'g, 'd, 'page, 'frame) machine \<Rightarrow> BootInfo \<Rightarrow> (unit, ('pt, 'h, 'g) kernel) prog" where
  "should_panic_main E B boot_info =
     kthen (proto_os_init E B boot_info)
     (kthen (serial_println [str ''should_panic::verificacao_que_deve_falhar...'' @ [9]])
     (kthen (verificacao_que_deve_falhar E)
     (kthen (serial_println [str ''[test did not panic]''])
     (exit_qemu Failed))))"

section \<open>page\_fault.rs and double\_fault.rs\<close>

definition page_fault_TEST_IDT :: idt where
  "page_fault_TEST_IDT = Map.empty(14 \<mapsto> set_handler_fn test_page_fault_handler_fn)"

definition page_fault_main ::
  "('pt, 'h) env \<Rightarrow> ('pt, 'h, 'g, 'd, 'page, 'frame) machine \<Rightarrow> BootInfo \<Rightarrow> (unit, ('pt, 'h, 'g) kernel) prog" where
  "page_fault_main E B boot_info =
     kthen (proto_os_init E B boot_info)
     (kthen (kupd (\<lambda>s. s\<lparr>cpu_idt := Some page_fault_TEST_IDT\<rparr>))
     (kbind (kres E endereco_esperado) (\<lambda>endereco.
     kthen (access_memory E read_site False endereco)
     (kthen (serial_println [str ''[test did not fault]''])
     (exit_qemu Failed)))))"

definition double_fault_TEST_IDT :: idt where
  "double_fault_TEST_IDT = Map.empty
     (8 \<mapsto> (set_handler_fn test_double_fault_handler_fn)\<lparr>entry_stack_index := Some DOUBLE_FAULT_IST_INDEX\<rparr>)"

definition double_fault_main ::
  "('pt, 'h) env \<Rightarrow> ('pt, 'h, 'g, 'd, 'page, 'frame) machine \<Rightarrow> BootInfo \<Rightarrow> (unit, ('pt, 'h, 'g) kernel) prog" where
  "double_fault_main E B boot_info =
     kthen (proto_os_init E B boot_info)
     (kthen (kupd (\<lambda>s. s\<lparr>cpu_idt := Some double_fault_TEST_IDT\<rparr>))
     (kthen (stack_overflow E (stack_room E))
     (kthen (serial_println [str ''[test did not fault]''])
     (exit_qemu Failed))))"

section \<open>The suites pass\<close>

lemma kernel_inv_frame:
  "kernel_inv s \<Longrightarrow> kernel_inv (printed t s)"
  "kernel_inv s \<Longrightarrow> kernel_inv (screen_cleared s)"
  "kernel_inv s \<Longrightarrow> kernel_inv (sent args s)"
  by (simp_all add: kernel_inv_def running_def printed_wf)
    (simp add: screen_cleared_def on_screen_def clear_screen_total cleared_wf)

definition welcome_text :: bytes where
  "welcome_text = concat (map (\<lambda>l. l @ [newline]) welcome_lines)"

lemma welcome_version: "starts_line VERSION VERSION [] welcome_text" "fits_screen welcome_text"
  by code_simp+

lemma kernel_inv_writer: "kernel_inv s \<Longrightarrow> WRITER_lock \<notin> held s" "kernel_inv s \<Longrightarrow> writer_wf (WRITER s)"
  by (simp_all add: kernel_inv_def running_def)

lemma boot_suite_passes:
  assumes "(name, body, out) \<in> set (boot_suite E)" and "kernel_inv s"
  shows "wp body (\<lambda>_ s'. kernel_inv s' \<and> serial_text s' = serial_text s @ out) (\<lambda>_ _. False) s"
proof -
  have "wp (kernel_inicializa_ate_o_prompt_ficar_pronto E) (\<lambda>_ s'. kernel_inv s' \<and> serial_text s' = serial_text s) (\<lambda>_ _. False) s"
    using assms(2) by (simp add: kernel_inicializa_ate_o_prompt_ficar_pronto_def print_prompt_def wp_print kernel_inv_writer kernel_inv_frame)
  moreover have "wp (boas_vindas_mostra_a_versao E) (\<lambda>_ s'. kernel_inv s' \<and> serial_text s' = serial_text s) (\<lambda>_ _. False) s"
    unfolding boas_vindas_mostra_a_versao_def wp_seq wp_vga_clear_screen [OF kernel_inv_writer [OF assms(2)]]
      wp_print_welcome [OF kernel_inv_writer [OF kernel_inv_frame(2) [OF assms(2)]]] welcome_text_def [symmetric]
      wp_check_text [OF assms(2) welcome_version]
    using kernel_inv_frame(1) [OF kernel_inv_frame(2) [OF assms(2)]] by simp
  ultimately show ?thesis using assms(1) by (auto simp: boot_suite_def simp del: str_simps)
qed

interpretation boot_tests: test_suite kernel_inv "set (boot_suite E)" for E
proof
  fix s :: "('a, 'b, 'c) kernel"
  show "kernel_inv s \<Longrightarrow> SERIAL1_lock \<notin> held s" by (simp add: kernel_inv_def)
  show "kernel_inv s \<Longrightarrow> kernel_inv (sent args s)" for args by (rule kernel_inv_frame)
qed (rule boot_suite_passes)

text \<open>The machine of the allocator tests: enough frames for the sample.\<close>

definition frame_tests_ok :: "'frame phys_api \<Rightarrow> (u64 \<Rightarrow> u64 \<Rightarrow> bool) \<Rightarrow> MemoryRegion list \<Rightarrow> bool" where
  "frame_tests_ok P is_aligned mm \<longleftrightarrow> phys_api_ok P \<and> (\<forall>a. is_aligned a 4096 \<longleftrightarrow> a mod 4096 = 0) \<and> map_wf mm \<and>
     AMOSTRA \<le> length (usable_frame_numbers mm)"

lemma pass_frame_obtido:
  assumes "frame_tests_ok P is_aligned mm"
  shows "wp (frame_obtido_esta_alinhado_e_utilizavel E P is_aligned mm) Q S s = Q () s"
proof -
  have "usable_frame_numbers mm \<noteq> []" using assms by (auto simp: frame_tests_ok_def AMOSTRA_def)
  then show ?thesis
    using assms
    by (simp add: frame_obtido_esta_alinhado_e_utilizavel_def frame_tests_ok_def allocate_frame_eq
        BootInfoFrameAllocator_init_def AMOSTRA_def wp_seq test_steps test_expect_def wp_value phys_api_ok_def)
qed

lemma wp_amostra:
  assumes "phys_api_ok P" and "map_wf (memory_map fa)"
    and "next_index fa + n \<le> length (usable_frame_numbers (memory_map fa))" and "next_index fa + n < 2 ^ 64"
  shows "wp (amostra_de_frames E P n fa) Q S s =
    Q (map (\<lambda>k. k * 4096) (take n (drop (next_index fa) (usable_frame_numbers (memory_map fa))))) s"
  using assms
proof (induction n arbitrary: fa Q)
  case 0
  then show ?case by (simp add: wp_value)
next
  case (Suc n)
  let ?fa = "fa\<lparr>next_index := next_index fa + 1\<rparr>"
  have "frame_start P (containing_address P (k * 4096)) = k * 4096" for k using Suc.prems(1) by (simp add: phys_api_ok_def)
  moreover have "allocate_frame P fa = Inr (Some (containing_address P (usable_frame_numbers (memory_map fa) ! next_index fa * 4096)), ?fa)"
    using Suc.prems by (simp add: allocate_frame_eq)
  ultimately show ?case
    using Suc.IH [of ?fa] Suc.prems
    by (simp add: wp_seq test_steps test_expect_def wp_value take_Suc_conv_app_nth Cons_nth_drop_Suc [symmetric])
qed

lemma pass_frames_entregues:
  assumes "frame_tests_ok P is_aligned mm"
  shows "wp (frames_entregues_nunca_se_repetem E P mm) Q S s = Q () s"
proof -
  let ?addr = "map (\<lambda>k. k * 4096) (take AMOSTRA (usable_frame_numbers mm))"
  have len: "length ?addr = AMOSTRA" using assms by (simp add: frame_tests_ok_def)
  have "distinct ?addr"
    using assms usable_numbers_distinct by (simp add: frame_tests_ok_def map_wf_def usable_frame_numbers_def distinct_map inj_on_def)
  then have ne: "i < j \<Longrightarrow> j < AMOSTRA \<Longrightarrow> ?addr ! i \<noteq> ?addr ! j" for i j
    using len by (simp add: nth_eq_iff_index_eq del: nth_map)
  have "wp (kfor [0..<AMOSTRA] (\<lambda>i. kfor [i + 1..<AMOSTRA] (\<lambda>j. kbind (kres E (arr_get ?addr i)) (\<lambda>a.
      kbind (kres E (arr_get ?addr j)) (\<lambda>b. assert_that E (a \<noteq> b)))))) Q S s = Q () s"
    using ne len by (intro wp_kfor_unchanged) (simp add: wp_seq arr_get_def test_steps del: nth_map)
  moreover have "wp (amostra_de_frames E P AMOSTRA (BootInfoFrameAllocator_init mm)) R S s = R ?addr s" for R
    using assms wp_amostra [of P "BootInfoFrameAllocator_init mm" AMOSTRA E R S s]
    by (simp add: frame_tests_ok_def BootInfoFrameAllocator_init_def AMOSTRA_def)
  ultimately show ?thesis by (simp only: frames_entregues_nunca_se_repetem_def wp_seq)
qed

lemma exhaust_frames_eq:
  assumes "phys_api_ok P" and "map_wf (memory_map fa)" and "next_index fa \<le> length (usable_frame_numbers (memory_map fa))"
  shows "exhaust_frames P fa = Inr (fa\<lparr>next_index := Suc (length (usable_frame_numbers (memory_map fa)))\<rparr>)"
  using assms
proof (induction "length (usable_frame_numbers (memory_map fa)) - next_index fa" arbitrary: fa)
  case 0
  then show ?case using usable_total_bound [of "memory_map fa"] by (simp add: exhaust_frames.simps [of P fa] allocate_frame_eq)
next
  case (Suc k)
  then show ?case
    using Suc.hyps(1) [of "fa\<lparr>next_index := Suc (next_index fa)\<rparr>"] usable_total_bound [of "memory_map fa"]
    by (simp add: exhaust_frames.simps [of P fa] allocate_frame_eq)
qed

lemma mapa_pequeno_facts: "map_wf mapa_pequeno" "length (usable_frame_numbers mapa_pequeno) = 32"
  by (simp_all add: map_wf_def mapa_pequeno_def usable_regions_def usable_frame_numbers_def)

lemma pass_esgotar:
  assumes "phys_api_ok P"
  shows "wp (esgotar_a_memoria_utilizavel_devolve_none E P) Q S s = Q () s"
  using exhaust_frames_eq [OF assms, of "BootInfoFrameAllocator_init mapa_pequeno"] assms mapa_pequeno_facts
  by (simp add: esgotar_a_memoria_utilizavel_devolve_none_def BootInfoFrameAllocator_init_def wp_seq test_steps allocate_frame_eq)

interpretation frame_tests: test_suite "\<lambda>s. kernel_inv s \<and> frame_tests_ok P is_aligned mm" "set (frame_suite E P is_aligned mm)"
  for E P is_aligned mm
proof
  fix s :: "('a, 'b, 'c) kernel" and name out and body :: "(unit, ('a, 'b, 'c) kernel) prog"
  show "kernel_inv s \<and> frame_tests_ok P is_aligned mm \<Longrightarrow> SERIAL1_lock \<notin> held s" by (simp add: kernel_inv_def)
  show "kernel_inv s \<and> frame_tests_ok P is_aligned mm \<Longrightarrow> kernel_inv (sent args s) \<and> frame_tests_ok P is_aligned mm" for args
    by (simp add: kernel_inv_frame)
  assume t: "(name, body, out) \<in> set (frame_suite E P is_aligned mm)" and s: "kernel_inv s \<and> frame_tests_ok P is_aligned mm"
  then have ok: "frame_tests_ok P is_aligned mm" "phys_api_ok P" by (simp_all add: frame_tests_ok_def)
  have "wp body Q S s = Q () s" "out = []" for Q S
    using t by (auto simp: frame_suite_def pass_frame_obtido [OF ok(1)] pass_frames_entregues [OF ok(1)] pass_esgotar [OF ok(2)]
        simp del: str_simps)
  then show "wp body (\<lambda>_ s'. (kernel_inv s' \<and> frame_tests_ok P is_aligned mm) \<and> serial_text s' = serial_text s @ out)
      (\<lambda>_ _. False) s"
    using s by simp
qed

text \<open>An exception without an entry in the table.\<close>

lemma wp_deliver_vector_missing:
  "cpu_idt s = Some idt \<Longrightarrow> idt v = None \<Longrightarrow> wp (deliver_vector E stack_ok v ip code other) Q S s = wp other Q S s"
  by (simp add: wp_def deliver_vector_def)

section \<open>Single binaries\<close>

lemma boot_integration_passes:
  assumes "machine_ok B bi" and "grid_wf mem" and "heap_mappable (phys B) (virt B) (paging B) bi pt"
    and "set ts \<subseteq> set (boot_suite E)"
  shows "\<exists>s'. test_kernel_main E B bi (runnable ts) (kernel_start mem pt h) = Stop Halted s' \<and> exited Success s' \<and>
    serial_text s' = boot_stages @ boot_memory_line (boot_summary bi) @ suite_report ts"
proof (rule test_kernel_main_runs [OF assms(1-3)], goal_cases)
  case (1 s)
  show ?case
    using boot_tests.runner_succeeds [OF assms(4) initialized_prompt(7) [OF 1]] unfolding initialized_prompt(4) [OF 1] by simp
qed

text \<open>The binary of \<^verbatim>\<open>src/main.rs\<close> runs an empty suite.\<close>

lemma suite_report_empty: "suite_report [] = str ''Running 0 tests'' @ [newline]"
  by code_simp

lemma main_binary_passes:
  assumes "machine_ok B bi" and "grid_wf mem" and "heap_mappable (phys B) (virt B) (paging B) bi pt"
  shows "\<exists>s'. main_test_kernel_main E B bi (kernel_start mem pt h) = Stop Halted s' \<and> exited Success s' \<and>
    serial_text s' = boot_stages @ boot_memory_line (boot_summary bi) @ str ''Running 0 tests'' @ [newline]"
  using boot_integration_passes [OF assms, of "[]" E h]
  by (simp add: main_test_kernel_main_def test_kernel_main_def runnable_def suite_report_empty del: str_simps)

text \<open>
  The binary that must panic always ends with success. Where the heap cannot be mapped it
  does so without having run its check: the handler takes the panic of the initialisation
  for the expected one.
\<close>

lemma should_panic_boot_failed:
  assumes "boot_failed E (kernel_start mem pt h) e s" and "panic_handler E = should_panic_handler_fn"
  shows "e = Halted \<and> exited Success s \<and> serial_text s = boot_stages @ str ''[ok]'' @ [newline]"
  using assms
  by (simp add: boot_failed_def panic_over_def panic_report_def serial_text_def [of "kernel_start mem pt h"] del: str_simps)
    (simp add: kernel_start_def)

lemma should_panic_verdict:
  assumes "machine_ok B bi" and "grid_wf mem" and "reserved B bi pt" and "panic_handler E = should_panic_handler_fn"
  shows "\<exists>s'. should_panic_main E B bi (kernel_start mem pt h) = Stop Halted s' \<and> exited Success s' \<and>
    (serial_text s' = boot_stages @ boot_memory_line (boot_summary bi) @
       str ''should_panic::verificacao_que_deve_falhar...'' @ [9, newline] @ str ''[ok]'' @ [newline] \<or>
     \<not> heap_fits B bi pt \<and> serial_text s' = boot_stages @ str ''[ok]'' @ [newline])"
  unfolding should_panic_main_def
proof (rule wp_StopD, rule test_binary_boots_or_fails [OF assms(1-3)], goal_cases)
  case (1 s)
  then show ?case
    using initialized_prompt(3,4) [OF 1]
    by (simp add: wp_simps verificacao_que_deve_falhar_def raise_panic_def call_panic_handler_def assms(4)
        wp_should_panic_handler exited_def del: str_simps)
next
  case (2 e s)
  then show ?case using should_panic_boot_failed [OF _ assms(4)] by blast
qed

lemma should_panic_succeeds:
  assumes "machine_ok B bi" and "grid_wf mem" and "heap_mappable (phys B) (virt B) (paging B) bi pt"
  shows "\<exists>s'. should_panic_main (E\<lparr>panic_handler := should_panic_handler_fn\<rparr>) B bi (kernel_start mem pt h) = Stop Halted s' \<and>
    exited Success s' \<and> serial_text s' = boot_stages @ boot_memory_line (boot_summary bi) @
      str ''should_panic::verificacao_que_deve_falhar...'' @ [9, newline] @ str ''[ok]'' @ [newline]"
  using should_panic_verdict [OF assms(1,2) heap_fits_reserved [OF assms(3)], of "E\<lparr>panic_handler := should_panic_handler_fn\<rparr>" h]
    assms(3) by auto

text \<open>On a machine without usable memory this is what happens.\<close>

lemma initialized_needs_frames:
  assumes "initialized B bi s s'"
  shows "usable_frame_numbers (boot_memory_map bi) \<noteq> []"
proof -
  have "HEAP_START \<in> {HEAP_START..<HEAP_START + HEAP_SIZE}" by (simp add: HEAP_SIZE_def)
  then show ?thesis using assms unfolding initialized_def heap_translated_def by fastforce
qed

lemma should_panic_hides_boot_failure:
  assumes "machine_ok B bi" and "grid_wf mem" and "panic_handler E = should_panic_handler_fn"
    and none: "usable_frame_numbers (boot_memory_map bi) = []"
  shows "\<exists>s'. should_panic_main E B bi (kernel_start mem pt h) = Stop Halted s' \<and> exited Success s' \<and>
    serial_text s' = boot_stages @ str ''[ok]'' @ [newline]"
  unfolding should_panic_main_def
proof (rule wp_StopD, rule test_binary_boots_or_fails [OF assms(1,2)], goal_cases)
  case 1
  show ?case by (simp add: tables_reserved_def none)
next
  case (2 s)
  then show ?case using initialized_needs_frames none by blast
next
  case (3 e s)
  then show ?case by (intro should_panic_boot_failed [OF _ assms(3)])
qed

lemma double_fault_test_passes:
  assumes "machine_ok B bi" and "grid_wf mem" and "heap_mappable (phys B) (virt B) (paging B) bi pt"
  shows "\<exists>s'. double_fault_main E B bi (kernel_start mem pt h) = Stop Halted s' \<and> exited Success s' \<and>
    cpu_stack s' = Some (double_fault_stack B + DOUBLE_FAULT_STACK_SIZE) \<and>
    serial_text s' = boot_stages @ boot_memory_line (boot_summary bi)"
  unfolding double_fault_main_def
proof (rule wp_StopD, rule test_binary_boots [OF assms], goal_cases)
  case (1 s)
  have "ist_pointer DOUBLE_FAULT_IST_INDEX (cpu_tss s) = Some (double_fault_stack B + DOUBLE_FAULT_STACK_SIZE)"
    using 1 by (simp add: initialized_def)
  then have "wp (stack_overflow E 0) Q (\<lambda>e s'. e = Halted \<and> exited Success s' \<and>
      cpu_stack s' = Some (double_fault_stack B + DOUBLE_FAULT_STACK_SIZE) \<and>
      serial_text s' = serial_text s) (s\<lparr>cpu_idt := Some double_fault_TEST_IDT\<rparr>)" for Q
    by (simp add: deliver_def wp_seq wp_kupd wp_deliver_vector_missing wp_deliver_vector wp_on_stack double_fault_TEST_IDT_def
        set_handler_fn_def entry_usable_def test_double_fault_handler_def wp_exit_qemu exited_def serial_text_def)
  then show ?case
    using initialized_prompt(4) [OF 1] by (simp add: wp_seq wp_kupd wp_stack_overflow [of E "stack_room E"])
qed

section \<open>Properties\<close>

text \<open>
  C33. The integration tests of the frame allocator pass on every machine with the 2000
  usable frames of the sample: the first frame is aligned, no two of the 2000 frames are
  the same, and the allocator of an exhausted map returns nothing.
\<close>

theorem frame_allocator_tests_pass:
  assumes "machine_ok B bi" and "grid_wf mem" and "heap_mappable (phys B) (virt B) (paging B) bi pt"
    and "frame_tests_ok P is_aligned (boot_memory_map bi)"
    and "set ts \<subseteq> set (frame_suite E P is_aligned (boot_memory_map bi))"
  shows "\<exists>s'. test_kernel_main E B bi (runnable ts) (kernel_start mem pt h) = Stop Halted s' \<and> exited Success s' \<and>
    serial_text s' = boot_stages @ boot_memory_line (boot_summary bi) @ suite_report ts"
proof (rule test_kernel_main_runs [OF assms(1-3)], goal_cases)
  case (1 s)
  have "kernel_inv s \<and> frame_tests_ok P is_aligned (boot_memory_map bi)" using initialized_prompt(7) [OF 1] assms(4) by simp
  from frame_tests.runner_succeeds [OF assms(5) this] show ?case unfolding initialized_prompt(4) [OF 1] by simp
qed

text \<open>A machine with 3840 usable frames.\<close>

definition large_boot_info :: BootInfo where
  "large_boot_info = example_boot_info\<lparr>boot_memory_map :=
     [\<lparr>start_frame_number = 0x100, end_frame_number = 0x1000, region_type = Usable\<rparr>]\<rparr>"

lemma large_map: "usable_frame_numbers (boot_memory_map large_boot_info) = [0x100..<0x1000]"
  "map_wf (boot_memory_map large_boot_info)" "map_ordered (boot_memory_map large_boot_info)"
  by (simp_all add: large_boot_info_def usable_frame_numbers_def usable_regions_def map_wf_def map_ordered_def del: upt_rec_numeral)

lemma large_machine_ok: "machine_ok example_machine large_boot_info"
  using example_machine_ok large_map by (simp add: machine_ok_def) (simp add: large_boot_info_def)

lemma large_heap_fits:
  "heap_mappable (phys example_machine) (virt example_machine) (paging example_machine) large_boot_info Map.empty"
proof -
  have "physical_memory_offset large_boot_info = physical_memory_offset example_boot_info" by (simp add: large_boot_info_def)
  moreover have "tables_reserved (phys example_machine) (paging example_machine) large_boot_info Map.empty"
    using example_tables_reserved by (simp add: example_machine_def)
  ultimately show ?thesis using example_heap_fits large_map(1) by (simp add: heap_mappable_def del: upt_rec_numeral)
qed

lemma large_frame_tests: "frame_tests_ok example_phys (\<lambda>a n. a mod n = 0) (boot_memory_map large_boot_info)"
  using example_phys_ok large_map by (simp add: frame_tests_ok_def AMOSTRA_def del: upt_rec_numeral)

theorem frame_allocator_tests_pass_witness:
  "\<exists>s'. test_kernel_main example_env example_machine large_boot_info
      (runnable (frame_suite example_env example_phys (\<lambda>a n. a mod n = 0) (boot_memory_map large_boot_info)))
      (kernel_start (buffer blank_writer) Map.empty []) = Stop Halted s' \<and> exited Success s'"
  using frame_allocator_tests_pass [OF large_machine_ok blank_grid large_heap_fits large_frame_tests subset_refl, of example_env "[]"]
  by blast

text \<open>
  C36. The verdict of the page fault test is right: when the read past the heap faults, its
  handler succeeds exactly if the processor reports the address that was read; when the
  read does not fault, the test fails.
\<close>

theorem page_fault_test_verdict:
  assumes "machine_ok B bi" and "grid_wf mem" and "heap_mappable (phys B) (virt B) (paging B) bi pt"
    and "\<And>s. initialized B bi (kernel_start mem pt h) s \<Longrightarrow>
      memory_access E (page_tables s) False (HEAP_START + HEAP_SIZE) = map_option (\<lambda>a. Page_fault a code) reported_address"
  shows "\<exists>s'. page_fault_main E B bi (kernel_start mem pt h) = Stop Halted s' \<and>
    exited (if reported_address = Some (HEAP_START + HEAP_SIZE) then Success else Failed) s'"
  unfolding page_fault_main_def
proof (rule wp_StopD, rule test_binary_boots [OF assms(1-3)], goal_cases)
  case (1 s)
  note lock = initialized_prompt(3) [OF 1]
  have handler: "wp (deliver E True ip (Page_fault a code)) Q (\<lambda>e s'. e = Halted \<and>
      exited (if a = HEAP_START + HEAP_SIZE then Success else Failed) s') (s\<lparr>cpu_idt := Some page_fault_TEST_IDT\<rparr>)" for Q ip a
    using lock by (simp add: deliver_def wp_simps page_fault_TEST_IDT_def set_handler_fn_def entry_usable_def
        test_page_fault_handler_def endereco_esperado_def heap_end_ok test_steps exited_def wp_deliver_vector)
  show ?case
    using assms(4) [OF 1] handler lock
    by (cases reported_address)
      (simp_all add: wp_simps endereco_esperado_def heap_end_ok test_steps access_memory_def exited_def)
qed

theorem page_fault_test_verdict_witness:
  "\<exists>s'. page_fault_main (example_env\<lparr>memory_access := (\<lambda>_ _ a. Some (Page_fault a 0))\<rparr>) example_machine example_boot_info
      (kernel_start (buffer blank_writer) Map.empty []) = Stop Halted s' \<and> exited Success s'"
  using page_fault_test_verdict [OF example_machine_ok blank_grid example_heap_fits,
      of "[]" "example_env\<lparr>memory_access := (\<lambda>_ _ a. Some (Page_fault a 0))\<rparr>" 0 "Some (HEAP_START + HEAP_SIZE)"]
  by simp

text \<open>
  C32. The test binaries that need nothing but a booted machine succeed. The boot
  suite reports the prompt and the version on the welcome screen as tested, and the test
  binary of \<^verbatim>\<open>src/main.rs\<close> that it has nothing to test. The binary
  that must panic fails its assertion, and its panic handler answers \<open>[ok]\<close>; the lines
  that report a missing panic are never reached. And with a table that has no entry but
  the one for double faults, the exhausted stack still reaches the handler, without a triple
  fault; the handler is entered at the end of the five pages of \<^verbatim>\<open>DOUBLE_FAULT_STACK\<close>,
  whose address the descriptor tables of the kernel have given to the processor.
\<close>

theorem integration_binaries_succeed:
  fixes E :: "('pt, 'h) env" and B :: "('pt, 'h, 'g, 'd, 'page, 'frame) machine"
  assumes "machine_ok B bi" and "grid_wf mem" and "heap_mappable (phys B) (virt B) (paging B) bi pt"
  shows "(\<exists>s'. test_kernel_main E B bi (runnable (boot_suite E)) (kernel_start mem pt h) = Stop Halted s' \<and>
      exited Success s' \<and>
      serial_text s' = boot_stages @ boot_memory_line (boot_summary bi) @
        suite_report (boot_suite E :: ('pt, 'h, 'g) test list)) \<and>
    (\<exists>s'. main_test_kernel_main E B bi (kernel_start mem pt h) = Stop Halted s' \<and> exited Success s' \<and>
      serial_text s' = boot_stages @ boot_memory_line (boot_summary bi) @ str ''Running 0 tests'' @ [newline]) \<and>
    (\<exists>s'. should_panic_main (E\<lparr>panic_handler := should_panic_handler_fn\<rparr>) B bi (kernel_start mem pt h) = Stop Halted s' \<and>
      exited Success s' \<and>
      serial_text s' = boot_stages @ boot_memory_line (boot_summary bi) @
        str ''should_panic::verificacao_que_deve_falhar...'' @ [9, newline] @ str ''[ok]'' @ [newline]) \<and>
    (\<exists>s'. double_fault_main E B bi (kernel_start mem pt h) = Stop Halted s' \<and> exited Success s' \<and>
      cpu_stack s' = Some (double_fault_stack B + 5 * 4096) \<and>
      serial_text s' = boot_stages @ boot_memory_line (boot_summary bi))"
  using boot_integration_passes [OF assms subset_refl] main_binary_passes [OF assms] should_panic_succeeds [OF assms]
    double_fault_test_passes [OF assms, unfolded DOUBLE_FAULT_STACK_SIZE_def]
  by blast

theorem integration_binaries_succeed_witness:
  "(\<exists>s'. should_panic_main (example_env\<lparr>panic_handler := should_panic_handler_fn\<rparr>) example_machine example_boot_info (kernel_start (buffer blank_writer) Map.empty []) =
      Stop Halted s' \<and> exited Success s') \<and>
   (\<exists>s'. double_fault_main example_env example_machine example_boot_info (kernel_start (buffer blank_writer) Map.empty []) =
      Stop Halted s' \<and> exited Success s' \<and> cpu_stack s' = Some 0x15000)"
proof -
  have "double_fault_stack example_machine + 5 * 4096 = 0x15000" by (simp add: example_machine_def)
  then show ?thesis
    using integration_binaries_succeed [OF example_machine_ok blank_grid example_heap_fits, of example_env "[]"] by metis
qed

end
