(* ===== verification/Heap_Tests.thy ===== *)
theory Heap_Tests
  imports Integration_Tests Heap_Service
begin

text \<open>
  The tests of \<^verbatim>\<open>tests/heap_allocation.rs\<close>: boxes and vectors inside the heap range, ten
  times the size of the heap allocated and freed, with and without a block that stays
  alive, and a block aligned to a page. They pass with every allocator that keeps the
  contract \<open>first_fit_heap\<close>.
\<close>

section \<open>Boxes and filled vectors\<close>

record 'a rust_box =
  box_ptr :: usize
  box_value :: 'a

definition box_new ::
  "('pt, 'h) env \<Rightarrow> usize \<Rightarrow> usize \<Rightarrow> 'a \<Rightarrow> ('a rust_box, ('pt, 'h, 'g) kernel) prog" where
  "box_new E sz align x = kbind (alloc E sz align) (\<lambda>p. kret \<lparr>box_ptr = p, box_value = x\<rparr>)"

definition box_drop :: "('pt, 'h) env \<Rightarrow> usize \<Rightarrow> usize \<Rightarrow> 'a rust_box \<Rightarrow> (unit, ('pt, 'h, 'g) kernel) prog" where
  "box_drop E sz align b = dealloc E (box_ptr b) sz align"

text \<open>\<^verbatim>\<open>vec![x; n]\<close> for bytes.\<close>

definition vec_from_elem :: "('pt, 'h) env \<Rightarrow> u8 \<Rightarrow> usize \<Rightarrow> (u8 rust_vec, ('pt, 'h, 'g) kernel) prog" where
  "vec_from_elem E x n =
     kbind (alloc E n 1) (\<lambda>p. kret \<lparr>vec_ptr = p, vec_cap = n, vec_items = replicate n x\<rparr>)"

definition u64_sum :: "u64 list \<Rightarrow> u64 res" where
  "u64_sum xs = for_each xs (\<lambda>x acc. usize_add acc x) 0"

section \<open>The tests\<close>

definition dentro_do_heap :: "usize \<Rightarrow> bool" where
  "dentro_do_heap endereco \<longleftrightarrow> HEAP_START \<le> endereco \<and> endereco < HEAP_START + HEAP_SIZE"

definition box_e_vec_tem_valores_corretos_e_ficam_no_heap :: "('pt, 'h) env \<Rightarrow> (unit, ('pt, 'h, 'g) kernel) prog" where
  "box_e_vec_tem_valores_corretos_e_ficam_no_heap E =
     kbind (box_new E 4 4 (42 :: int)) (\<lambda>valor.
     kthen (assert_that E (box_value valor = 42))
     (kthen (assert_that E (dentro_do_heap (box_ptr valor)))
     (kbind (vec_push_all E 8 [0..<1000] (vec_new 8)) (\<lambda>vetor.
     kbind (kres E (u64_sum [0..<1000])) (\<lambda>soma_esperada.
     kbind (kres E (u64_sum (vec_items vetor))) (\<lambda>soma.
     kthen (assert_that E (soma = soma_esperada))
     (kthen (assert_that E (dentro_do_heap (vec_ptr vetor)))
     (kthen (vec_drop E 8 vetor)
     (box_drop E 4 4 valor)))))))))"

definition bloco :: usize where
  "bloco = 4 * 1024"

definition iteracoes :: usize where
  "iteracoes = 10 * HEAP_SIZE div bloco + 1"

text \<open>The body of the loop of two tests; the vector is dropped at its end.\<close>

definition aloca_e_libera :: "('pt, 'h) env \<Rightarrow> usize \<Rightarrow> (unit, ('pt, 'h, 'g) kernel) prog" where
  "aloca_e_libera E i =
     kbind (vec_from_elem E (of_nat i) bloco) (\<lambda>vetor.
     kthen (assert_that E (length (vec_items vetor) = bloco))
     (vec_drop E 1 vetor))"

definition alocar_e_liberar_muitas_vezes_reaproveita_o_heap :: "('pt, 'h) env \<Rightarrow> (unit, ('pt, 'h, 'g) kernel) prog" where
  "alocar_e_liberar_muitas_vezes_reaproveita_o_heap E = kfor [0..<iteracoes] (aloca_e_libera E)"

definition reaproveitamento_nao_depende_do_heap_inteiro_estar_livre ::
  "('pt, 'h) env \<Rightarrow> (unit, ('pt, 'h, 'g) kernel) prog" where
  "reaproveitamento_nao_depende_do_heap_inteiro_estar_livre E =
     kbind (box_new E 1024 1 (replicate 1024 (0 :: u8))) (\<lambda>ancora.
     kthen (kfor [0..<iteracoes] (aloca_e_libera E))
     (kbind (kres E (arr_get (box_value ancora) 0)) (\<lambda>x.
     kthen (assert_that E (x = 0))
     (box_drop E 1024 1 ancora))))"

definition alocacao_respeita_alinhamento_maior_que_8_bytes :: "('pt, 'h) env \<Rightarrow> (unit, ('pt, 'h, 'g) kernel) prog" where
  "alocacao_respeita_alinhamento_maior_que_8_bytes E =
     kbind (box_new E 4096 4096 (replicate 4096 (0 :: u8))) (\<lambda>valor.
     kthen (assert_that E (box_ptr valor mod 4096 = 0))
     (kthen (assert_that E (dentro_do_heap (box_ptr valor)))
     (box_drop E 4096 4096 valor)))"

definition heap_suite :: "('pt, 'h) env \<Rightarrow> ('pt, 'h, 'g) test list" where
  "heap_suite E =
     [(str ''heap_allocation::box_e_vec_tem_valores_corretos_e_ficam_no_heap'',
         box_e_vec_tem_valores_corretos_e_ficam_no_heap E, []),
      (str ''heap_allocation::alocar_e_liberar_muitas_vezes_reaproveita_o_heap'',
         alocar_e_liberar_muitas_vezes_reaproveita_o_heap E, []),
      (str ''heap_allocation::reaproveitamento_nao_depende_do_heap_inteiro_estar_livre'',
         reaproveitamento_nao_depende_do_heap_inteiro_estar_livre E, []),
      (str ''heap_allocation::alocacao_respeita_alinhamento_maior_que_8_bytes'',
         alocacao_respeita_alinhamento_maior_que_8_bytes E, [])]"

section \<open>They pass\<close>

lemma placed_inside: "placed p sz align L \<Longrightarrow> 0 < sz \<Longrightarrow> dentro_do_heap p"
  by (simp add: placed_def dentro_do_heap_def)

lemma wp_box_new_served:
  assumes "first_fit_heap E ok live slack" and "ok (heap s)" and "0 < align"
    and "free_gap slack (live (heap s)) (sz + align + slack)"
    and "\<And>p h'. ok h' \<Longrightarrow> placed p sz align (live (heap s)) \<Longrightarrow> (p, sz) \<notin> live (heap s) \<Longrightarrow>
      live h' = insert (p, sz) (live (heap s)) \<Longrightarrow> Q \<lparr>box_ptr = p, box_value = x\<rparr> (s\<lparr>heap := h'\<rparr>)"
  shows "wp (box_new E sz align x) Q S s"
  unfolding box_new_def wp_seq by (rule wp_alloc_served [OF assms(1-4)]) (simp add: wp_value assms(5))

text \<open>One turn of the loops, beside at most one block that stays.\<close>

lemma wp_aloca_e_libera:
  assumes F: "first_fit_heap E ok live slack" "slack \<le> 256" and s: "ok (heap s)"
    and L: "card (live (heap s)) \<le> 1" "\<forall>(q, m) \<in> live (heap s). m \<le> 4096"
    and Q: "\<And>h'. ok h' \<Longrightarrow> live h' = live (heap s) \<Longrightarrow> Q () (s\<lparr>heap := h'\<rparr>)"
  shows "wp (aloca_e_libera E i) Q S s"
proof -
  have "(2 * card (live (heap s)) + 1) * (4097 + slack) \<le> 3 * (4097 + 256)" using L(1) F(2) by (intro mult_le_mono) simp_all
  then have gap: "free_gap slack (live (heap s)) (bloco + 1 + slack)"
    using first_fitD(2) [OF F(1) s] L(2)
    by (intro free_gap_few [of _ _ "4097 + slack"]) (auto simp: bloco_def HEAP_SIZE_def)
  show ?thesis
    unfolding aloca_e_libera_def vec_from_elem_def wp_seq
  proof (rule wp_alloc_served [OF F(1) s zero_less_one gap], goal_cases)
    case (1 p h')
    have "wp (dealloc E p bloco 1) Q S (s\<lparr>heap := h'\<rparr>)"
      using 1 by (intro wp_dealloc_served [OF F(1)]) (auto intro!: Q)
    then show ?case by (simp add: wp_seq wp_value test_steps vec_drop_def bloco_def)
  qed
qed

lemma wp_kfor_heap:
  assumes "\<And>i h Q. ok h \<Longrightarrow> live h = L \<Longrightarrow> (\<And>h'. ok h' \<Longrightarrow> live h' = L \<Longrightarrow> Q () (s\<lparr>heap := h'\<rparr>)) \<Longrightarrow>
      wp (body i) Q S (s\<lparr>heap := h\<rparr>)"
  shows "ok h \<Longrightarrow> live h = L \<Longrightarrow> (\<And>h'. ok h' \<Longrightarrow> live h' = L \<Longrightarrow> Q () (s\<lparr>heap := h'\<rparr>)) \<Longrightarrow>
    wp (kfor is body) Q S (s\<lparr>heap := h\<rparr>)"
proof (induction "is" arbitrary: h)
  case Nil
  then show ?case by (simp add: wp_value)
next
  case (Cons i "is")
  have "wp (body i) (\<lambda>_. wp (kfor is body) Q S) S (s\<lparr>heap := h\<rparr>)"
    by (rule assms [OF Cons.prems(1,2)]) (rule Cons.IH, simp_all add: Cons.prems(3))
  then show ?case by (simp add: wp_seq)
qed

lemma wp_aloca_muitas:
  assumes F: "first_fit_heap E ok live slack" "slack \<le> 256" and s: "ok (heap s)"
    and L: "card (live (heap s)) \<le> 1" "\<forall>(q, m) \<in> live (heap s). m \<le> 4096"
    and Q: "\<And>h'. ok h' \<Longrightarrow> live h' = live (heap s) \<Longrightarrow> Q () (s\<lparr>heap := h'\<rparr>)"
  shows "wp (kfor is (aloca_e_libera E)) Q S s"
proof -
  have "wp (kfor is (aloca_e_libera E)) Q S (s\<lparr>heap := heap s\<rparr>)"
  proof (rule wp_kfor_heap [where L = "live (heap s)" and live = live and ok = ok], goal_cases)
    case (1 i h R)
    show ?case
      by (rule wp_aloca_e_libera [OF F]) (use 1 L in \<open>simp_all\<close>)
  qed (use s Q in simp_all)
  then show ?thesis by simp
qed

lemma u64_sum_eq:
  assumes "sum_list xs < 2 ^ 64"
  shows "u64_sum xs = Inr (sum_list xs)"
proof -
  have "acc + sum_list xs < 2 ^ 64 \<Longrightarrow> for_each xs (\<lambda>x acc. usize_add acc x) acc = Inr (acc + sum_list xs)" for acc
    by (induction xs arbitrary: acc) (simp_all add: usize_add_def add.assoc)
  then show ?thesis using assms by (simp add: u64_sum_def)
qed

lemma sum_thousand: "sum_list [0..<1000] = 499500"
proof -
  have "2 * sum_list [0..<n] + n = n * n" for n by (induction n) (simp_all add: algebra_simps)
  from this [of 1000] show ?thesis by (simp del: upt_rec_numeral)
qed

text \<open>Every test gives back what it takes.\<close>

definition heap_test ::
  "('pt, 'h) env \<Rightarrow> ('h \<Rightarrow> bool) \<Rightarrow> ('h \<Rightarrow> (usize \<times> usize) set) \<Rightarrow> (unit, ('pt, 'h, 'g) kernel) prog \<Rightarrow> bool" where
  "heap_test E ok live body \<longleftrightarrow>
     (\<forall>s Q S. ok (heap s) \<longrightarrow> live (heap s) = {} \<longrightarrow>
        (\<forall>h'. ok h' \<longrightarrow> live h' = {} \<longrightarrow> Q () (s\<lparr>heap := h'\<rparr>)) \<longrightarrow> wp body Q S s)"

lemma heap_testI:
  "(\<And>s Q S. ok (heap s) \<Longrightarrow> live (heap s) = {} \<Longrightarrow>
     (\<And>h'. ok h' \<Longrightarrow> live h' = {} \<Longrightarrow> Q () (s\<lparr>heap := h'\<rparr>)) \<Longrightarrow> wp body Q S s) \<Longrightarrow> heap_test E ok live body"
  by (simp add: heap_test_def)

lemma empty_gap: "sz + align + slack \<le> HEAP_SIZE \<Longrightarrow> free_gap slack {} (sz + align + slack)"
  by (rule free_gap_few [of _ _ "sz + align + slack"]) simp_all

lemma pass_box_e_vec:
  assumes F: "first_fit_heap E ok live slack" "slack \<le> 256"
  shows "heap_test E ok live (box_e_vec_tem_valores_corretos_e_ficam_no_heap E)"
proof (rule heap_testI)
  fix s :: "('a, 'b, 'c) kernel" and Q and S :: "stop \<Rightarrow> ('a, 'b, 'c) kernel \<Rightarrow> bool"
  assume s: "ok (heap s)" "live (heap s) = {}" and Q: "\<And>h'. ok h' \<Longrightarrow> live h' = {} \<Longrightarrow> Q () (s\<lparr>heap := h'\<rparr>)"
  have "free_gap slack (live (heap s)) (4 + 4 + slack)" unfolding s(2) using F(2) by (intro empty_gap) (simp add: HEAP_SIZE_def)
  then show "wp (box_e_vec_tem_valores_corretos_e_ficam_no_heap E) Q S s"
    unfolding box_e_vec_tem_valores_corretos_e_ficam_no_heap_def wp_seq
  proof (rule wp_box_new_served [OF F(1) s(1) zero_less_numeral], goal_cases)
    case (1 p h)
    let ?s = "s\<lparr>heap := h\<rparr>"
    have live: "live h = {(p, 4)}" "ok h" and inside: "dentro_do_heap p"
      using 1 s(2) placed_inside by (simp_all add: s(2))
    have room: "vec_room slack 8 2000 {(p, 4)}" using F(2) by (simp add: vec_room_def HEAP_SIZE_def)
    have tail: "wp (kthen (vec_drop E 8 v) (box_drop E 4 4 \<lparr>box_ptr = p, box_value = 42 :: int\<rparr>)) Q S (?s\<lparr>heap := h'\<rparr>)"
      if "ok h'" "vec_owns 8 {(p, 4)} v (live h')" "vec_cap v \<noteq> 0" for v :: "u64 rust_vec" and h'
      unfolding wp_seq vec_drop_def box_drop_def using that
      by (auto simp: vec_owns_def intro!: wp_dealloc_served [OF F(1)] Q)
    have "wp (vec_push_all E 8 [0..<1000] (vec_new 8)) (\<lambda>vetor. wp (kbind (kres E (u64_sum [0..<1000])) (\<lambda>soma_esperada.
        kbind (kres E (u64_sum (vec_items vetor))) (\<lambda>soma. kthen (assert_that E (soma = soma_esperada))
        (kthen (assert_that E (dentro_do_heap (vec_ptr vetor)))
        (kthen (vec_drop E 8 vetor) (box_drop E 4 4 \<lparr>box_ptr = p, box_value = 42 :: int\<rparr>)))))) Q S) S ?s"
    proof (rule wp_vec_push_all_served [OF F(1) room], goal_cases)
      case (8 v h')
      then have "vec_items v = [0..<1000]" "vec_cap v \<noteq> 0" "dentro_do_heap (vec_ptr v)"
        by (auto simp: vec_new_def vec_ok_def dentro_do_heap_def)
      then show ?case using tail [OF 8(1,2)] by (simp add: wp_seq test_steps u64_sum_eq sum_thousand)
    qed (simp_all add: live vec_owns_def vec_ok_def vec_new_def min_non_zero_cap_def)
    then show ?case using inside by (simp add: wp_seq test_steps)
  qed
qed

lemma pass_alocar:
  assumes F: "first_fit_heap E ok live slack" "slack \<le> 256"
  shows "heap_test E ok live (alocar_e_liberar_muitas_vezes_reaproveita_o_heap E)"
  unfolding alocar_e_liberar_muitas_vezes_reaproveita_o_heap_def
  by (intro heap_testI wp_aloca_muitas [OF F]) simp_all

lemma pass_reaproveitamento:
  assumes F: "first_fit_heap E ok live slack" "slack \<le> 256"
  shows "heap_test E ok live (reaproveitamento_nao_depende_do_heap_inteiro_estar_livre E)"
proof (rule heap_testI)
  fix s :: "('a, 'b, 'c) kernel" and Q and S :: "stop \<Rightarrow> ('a, 'b, 'c) kernel \<Rightarrow> bool"
  assume s: "ok (heap s)" "live (heap s) = {}" and Q: "\<And>h'. ok h' \<Longrightarrow> live h' = {} \<Longrightarrow> Q () (s\<lparr>heap := h'\<rparr>)"
  have "free_gap slack (live (heap s)) (1024 + 1 + slack)" unfolding s(2) using F(2) by (intro empty_gap) (simp add: HEAP_SIZE_def)
  then show "wp (reaproveitamento_nao_depende_do_heap_inteiro_estar_livre E) Q S s"
    unfolding reaproveitamento_nao_depende_do_heap_inteiro_estar_livre_def wp_seq
  proof (rule wp_box_new_served [OF F(1) s(1) zero_less_one], goal_cases)
    case (1 p h)
    have "wp (kfor [0..<iteracoes] (aloca_e_libera E)) (\<lambda>_. wp (dealloc E p 1024 1) Q S) S (s\<lparr>heap := h\<rparr>)"
    proof (rule wp_aloca_muitas [OF F], goal_cases)
      case (4 h')
      then show ?case using 1 s(2) by (intro wp_dealloc_served [OF F(1)]) (auto intro!: Q)
    qed (use 1 s(2) in auto)
    moreover have "wp (kres E (arr_get (replicate 1024 (0 :: u8)) 0)) (\<lambda>x. wp (assert_that E (x = 0)) (\<lambda>_. wp (dealloc E p 1024 1) Q S) S) S =
        wp (dealloc E p 1024 1) Q S"
      by (rule ext) (simp add: arr_get_def test_steps)
    ultimately show ?case by (simp add: box_drop_def)
  qed
qed

lemma pass_alinhamento:
  assumes F: "first_fit_heap E ok live slack" "slack \<le> 256"
  shows "heap_test E ok live (alocacao_respeita_alinhamento_maior_que_8_bytes E)"
proof (rule heap_testI)
  fix s :: "('a, 'b, 'c) kernel" and Q and S :: "stop \<Rightarrow> ('a, 'b, 'c) kernel \<Rightarrow> bool"
  assume s: "ok (heap s)" "live (heap s) = {}" and Q: "\<And>h'. ok h' \<Longrightarrow> live h' = {} \<Longrightarrow> Q () (s\<lparr>heap := h'\<rparr>)"
  have "free_gap slack (live (heap s)) (4096 + 4096 + slack)" unfolding s(2) using F(2) by (intro empty_gap) (simp add: HEAP_SIZE_def)
  then show "wp (alocacao_respeita_alinhamento_maior_que_8_bytes E) Q S s"
    unfolding alocacao_respeita_alinhamento_maior_que_8_bytes_def wp_seq
  proof (rule wp_box_new_served [OF F(1) s(1) zero_less_numeral], goal_cases)
    case (1 p h)
    then have "wp (dealloc E p 4096 4096) Q S (s\<lparr>heap := h\<rparr>)" using s(2) by (intro wp_dealloc_served [OF F(1)]) (auto intro!: Q)
    moreover have "dentro_do_heap p" "p mod 4096 = 0" using 1(2) placed_inside by (auto simp: placed_def)
    ultimately show ?case by (simp add: wp_seq test_steps box_drop_def)
  qed
qed

section \<open>The suite\<close>

definition heap_tests_inv ::
  "('pt, 'h) env \<Rightarrow> ('h \<Rightarrow> bool) \<Rightarrow> ('h \<Rightarrow> (usize \<times> usize) set) \<Rightarrow> usize \<Rightarrow> ('pt, 'h, 'g) kernel \<Rightarrow> bool" where
  "heap_tests_inv E ok live slack s \<longleftrightarrow>
     first_fit_heap E ok live slack \<and> slack \<le> 256 \<and> kernel_inv s \<and> ok (heap s) \<and> live (heap s) = {}"

lemma heap_suite_passes:
  assumes "(name, body, out) \<in> set (heap_suite E)" and s: "heap_tests_inv E ok live slack s"
  shows "wp body (\<lambda>_ s'. heap_tests_inv E ok live slack s' \<and> serial_text s' = serial_text s @ out) (\<lambda>_ _. False) s"
proof -
  have F: "first_fit_heap E ok live slack" "slack \<le> 256" using s by (simp_all add: heap_tests_inv_def)
  have body: "heap_test E ok live body" "out = []"
    using assms(1) pass_box_e_vec [OF F] pass_alocar [OF F] pass_reaproveitamento [OF F] pass_alinhamento [OF F]
    by (auto simp: heap_suite_def simp del: str_simps)
  have "kernel_inv (s\<lparr>heap := h'\<rparr>)" for h' using s by (simp add: heap_tests_inv_def kernel_inv_def running_def)
  then show ?thesis
    using body(1) s unfolding heap_test_def body(2) by (auto simp: heap_tests_inv_def)
qed

interpretation heap_tests: test_suite "heap_tests_inv E ok live slack" "set (heap_suite E)" for E ok live slack
proof
  fix s :: "('a, 'b, 'c) kernel"
  show "heap_tests_inv E ok live slack s \<Longrightarrow> SERIAL1_lock \<notin> held s" by (simp add: heap_tests_inv_def kernel_inv_def)
  show "heap_tests_inv E ok live slack s \<Longrightarrow> heap_tests_inv E ok live slack (sent args s)" for args
    by (simp add: heap_tests_inv_def kernel_inv_frame)
qed (rule heap_suite_passes)

section \<open>Properties\<close>

text \<open>
  C34. The integration tests of the heap pass, in any number and order, with an allocator
  that keeps the contract of \<^verbatim>\<open>linked_list_allocator\<close>: boxes and vectors keep their values
  inside the heap range, more than ten times the size of the heap is allocated and freed,
  also around a block that stays alive, and a block aligned to 4096 bytes is.
\<close>

theorem heap_allocation_tests_pass:
  assumes "machine_ok B bi" and "grid_wf mem" and "heap_mappable (phys B) (virt B) (paging B) bi pt"
    and "first_fit_heap E ok live slack" and "slack \<le> 256"
    and "ok (heap_init B HEAP_START HEAP_SIZE h)" and "live (heap_init B HEAP_START HEAP_SIZE h) = {}"
    and "set ts \<subseteq> set (heap_suite E)"
  shows "\<exists>s'. test_kernel_main E B bi (runnable ts) (kernel_start mem pt h) = Stop Halted s' \<and> exited Success s' \<and>
    serial_text s' = boot_stages @ boot_memory_line (boot_summary bi) @ suite_report ts"
proof (rule test_kernel_main_runs [OF assms(1-3)], goal_cases)
  case (1 s)
  then have "heap s = heap_init B HEAP_START HEAP_SIZE h" by (simp add: initialized_def kernel_start_def)
  then have "heap_tests_inv E ok live slack s"
    using assms(4-7) initialized_prompt(7) [OF 1] by (simp add: heap_tests_inv_def)
  from heap_tests.runner_succeeds [OF assms(8) this] show ?case unfolding initialized_prompt(4) [OF 1] by simp
qed

theorem heap_allocation_tests_pass_witness:
  "\<exists>s'. test_kernel_main example_env example_machine example_boot_info (runnable (heap_suite example_env))
      (kernel_start (buffer blank_writer) Map.empty []) = Stop Halted s' \<and> exited Success s'"
proof -
  have h: "True" "set (heap_init example_machine HEAP_START HEAP_SIZE []) = {}" by (simp_all add: example_machine_def)
  have "(64 :: usize) \<le> 256" by simp
  from heap_allocation_tests_pass [OF example_machine_ok blank_grid example_heap_fits example_first_fit this h subset_refl]
  show ?thesis by blast
qed

end
