(* ===== verification/Paging_Tests.thy ===== *)
theory Paging_Tests
  imports Integration_Tests
begin

text \<open>
  The tests of \<^verbatim>\<open>tests/paging.rs\<close>: translation of an address that the bootloader has mapped
  and of one that nobody has, and mapping of a new page. The translations rest on the
  bootloader's tables, which the initialisation of the kernel does not change outside the
  heap. The third test takes frames from an allocator of its own, which starts with the
  frames that the initialisation has taken already; the mapper promises something for them
  only if none holds a page table. Then the test passes, and its page shares a frame with
  the heap. The boot information that the binary keeps in a static is an argument of the
  bodies.
\<close>

section \<open>The tests\<close>

definition paging_physical_memory_offset :: "('pt, 'h, 'g, 'd, 'page, 'frame) machine \<Rightarrow> BootInfo \<Rightarrow> u64 res" where
  "paging_physical_memory_offset B boot_info = VirtAddr_new (virt B) (physical_memory_offset boot_info)"

definition traduz_endereco_ja_mapeado_pelo_bootloader ::
  "('pt, 'h) env \<Rightarrow> ('pt, 'h, 'g, 'd, 'page, 'frame) machine \<Rightarrow> BootInfo \<Rightarrow> (unit, ('pt, 'h, 'g) kernel) prog" where
  "traduz_endereco_ja_mapeado_pelo_bootloader E B boot_info =
     kbind (kres E (VirtAddr_new (virt B) 0xb8000)) (\<lambda>vga.
     kbind (kres E (paging_physical_memory_offset B boot_info)) (\<lambda>offset.
     kbind (kget page_tables) (\<lambda>pt.
     kbind (kres E (translate_addr (phys B) (virt B) (paging B) vga offset pt)) (\<lambda>resultado.
     assert_that E (resultado \<noteq> None)))))"

definition traduz_endereco_nao_mapeado_devolve_none ::
  "('pt, 'h) env \<Rightarrow> ('pt, 'h, 'g, 'd, 'page, 'frame) machine \<Rightarrow> BootInfo \<Rightarrow> (unit, ('pt, 'h, 'g) kernel) prog" where
  "traduz_endereco_nao_mapeado_devolve_none E B boot_info =
     kbind (kres E (VirtAddr_new (virt B) 0xdeadbeaf000)) (\<lambda>nao_mapeado.
     kbind (kres E (paging_physical_memory_offset B boot_info)) (\<lambda>offset.
     kbind (kget page_tables) (\<lambda>pt.
     kbind (kres E (translate_addr (phys B) (virt B) (paging B) nao_mapeado offset pt)) (\<lambda>resultado.
     assert_that E (resultado = None)))))"

text \<open>
  Access through a raw pointer: the processor may answer with an exception; otherwise a
  write stores the value and a read gives the value that is stored. \<open>ram\<close> holds the values
  at virtual addresses; the body uses one address of one page.
\<close>

definition pointer_write ::
  "('pt, 'h) env \<Rightarrow> u64 \<Rightarrow> u64 \<Rightarrow> (u64 \<Rightarrow> u64) \<Rightarrow> (u64 \<Rightarrow> u64, ('pt, 'h, 'g) kernel) prog" where
  "pointer_write E ptr v ram = kthen (access_memory E write_site True ptr) (kret (ram(ptr := v)))"

definition pointer_read :: "('pt, 'h) env \<Rightarrow> u64 \<Rightarrow> (u64 \<Rightarrow> u64) \<Rightarrow> (u64, ('pt, 'h, 'g) kernel) prog" where
  "pointer_read E ptr ram = kthen (access_memory E read_site False ptr) (kret (ram ptr))"

definition mapear_pagina_nova_permite_ler_e_escrever_nela ::
  "('pt, 'h) env \<Rightarrow> ('pt, 'h, 'g, 'd, 'page, 'frame) machine \<Rightarrow> BootInfo \<Rightarrow> (u64 \<Rightarrow> u64) \<Rightarrow> (unit, ('pt, 'h, 'g) kernel) prog" where
  "mapear_pagina_nova_permite_ler_e_escrever_nela E B boot_info ram =
     kbind (kres E (VirtAddr_new (virt B) 0x222222220000)) (\<lambda>endereco.
     let pagina = Page_containing_address (virt B) endereco;
         frame_allocator = (phys B, BootInfoFrameAllocator_init (boot_memory_map boot_info)) in
     kbind (kres E (paging_physical_memory_offset B boot_info)) (\<lambda>offset.
     kbind (kget page_tables) (\<lambda>pt.
     kbind (kres E (map_page (phys B) (virt B) (paging B) boot_allocate pagina offset frame_allocator pt))
       (\<lambda>(mapeada, frame_allocator, pt).
     kthen (kupd (\<lambda>s. s\<lparr>page_tables := pt\<rparr>))
     (kthen (kres E (case mapeada of
               Inl e \<Rightarrow> Inl (Expect (str ''mapear uma pagina nova nao deveria falhar''))
             | Inr _ \<Rightarrow> Inr ()))
     (let ponteiro = page_start (virt B) pagina in
     kbind (pointer_write E ponteiro 0x123456789abcdef0 ram) (\<lambda>ram.
     kbind (pointer_read E ponteiro ram) (\<lambda>lido.
     kthen (assert_that E (lido = 0x123456789abcdef0))
     (kbind (kres E (paging_physical_memory_offset B boot_info)) (\<lambda>offset.
     kbind (kget page_tables) (\<lambda>pt.
     kbind (kres E (map_page (phys B) (virt B) (paging B) boot_allocate pagina offset frame_allocator pt))
       (\<lambda>(resultado, frame_allocator, pt).
     kthen (kupd (\<lambda>s. s\<lparr>page_tables := pt\<rparr>))
     (assert_that E (case resultado of Inl (PageAlreadyMapped _) \<Rightarrow> True | _ \<Rightarrow> False)))))))))))))) "

definition translation_suite ::
  "('pt, 'h) env \<Rightarrow> ('pt, 'h, 'g, 'd, 'page, 'frame) machine \<Rightarrow> BootInfo \<Rightarrow> ('pt, 'h, 'g) test list" where
  "translation_suite E B boot_info =
     [(str ''paging::traduz_endereco_ja_mapeado_pelo_bootloader'',
         traduz_endereco_ja_mapeado_pelo_bootloader E B boot_info, []),
      (str ''paging::traduz_endereco_nao_mapeado_devolve_none'',
         traduz_endereco_nao_mapeado_devolve_none E B boot_info, [])]"

definition mapping_test ::
  "('pt, 'h) env \<Rightarrow> ('pt, 'h, 'g, 'd, 'page, 'frame) machine \<Rightarrow> BootInfo \<Rightarrow> (u64 \<Rightarrow> u64) \<Rightarrow> ('pt, 'h, 'g) test" where
  "mapping_test E B boot_info ram =
     (str ''paging::mapear_pagina_nova_permite_ler_e_escrever_nela'',
      mapear_pagina_nova_permite_ler_e_escrever_nela E B boot_info ram, [])"

definition paging_suite ::
  "('pt, 'h) env \<Rightarrow> ('pt, 'h, 'g, 'd, 'page, 'frame) machine \<Rightarrow> BootInfo \<Rightarrow> (u64 \<Rightarrow> u64) \<Rightarrow> ('pt, 'h, 'g) test list" where
  "paging_suite E B boot_info ram = translation_suite E B boot_info @ [mapping_test E B boot_info ram]"

section \<open>They pass\<close>

text \<open>The tables of the bootloader: the text buffer is mapped, the other address is not.\<close>

definition paging_tests_ok :: "('pt, 'h, 'g, 'd, 'page, 'frame) machine \<Rightarrow> BootInfo \<Rightarrow> 'pt \<Rightarrow> bool" where
  "paging_tests_ok B bi pt \<longleftrightarrow>
     (\<exists>a. translate_addr (phys B) (virt B) (paging B) 0xb8000 (physical_memory_offset bi) pt = Inr (Some a)) \<and>
     translate_addr (phys B) (virt B) (paging B) 0xdeadbeaf000 (physical_memory_offset bi) pt = Inr None"

lemma paging_tests_initialized:
  assumes "paging_tests_ok B bi pt" and "initialized B bi (kernel_start mem pt h) s"
  shows "paging_tests_ok B bi (page_tables s)"
proof -
  have "heap_translated (phys B) (virt B) (paging B) bi pt (page_tables s)"
    using assms(2) by (simp add: initialized_def kernel_start_def)
  moreover have "0xb8000 \<notin> {HEAP_START..<HEAP_START + HEAP_SIZE}" "0xdeadbeaf000 \<notin> {HEAP_START..<HEAP_START + HEAP_SIZE}"
    by (simp_all add: HEAP_START_def HEAP_SIZE_def)
  ultimately show ?thesis using assms(1) unfolding heap_translated_def paging_tests_ok_def by (metis (no_types, lifting))
qed

lemma machine_addresses:
  assumes "machine_ok B bi"
  shows "a < 2 ^ 47 \<Longrightarrow> VirtAddr_new (virt B) a = Inr a"
    "paging_physical_memory_offset B bi = Inr (physical_memory_offset bi)"
  using assms by (simp_all add: machine_ok_def virt_api_ok_def paging_physical_memory_offset_def)

definition paging_inv :: "('pt, 'h, 'g, 'd, 'page, 'frame) machine \<Rightarrow> BootInfo \<Rightarrow> 'pt \<Rightarrow> ('pt, 'h, 'g) kernel \<Rightarrow> bool" where
  "paging_inv B bi pt s \<longleftrightarrow> machine_ok B bi \<and> kernel_inv s \<and> paging_tests_ok B bi pt \<and> page_tables s = pt"

lemma translation_suite_passes:
  assumes "(name, body, out) \<in> set (translation_suite E B bi)" and "paging_inv B bi pt s"
  shows "wp body Q S s = Q () s" "out = []"
proof -
  have B: "machine_ok B bi" and t: "paging_tests_ok B bi (page_tables s)" using assms(2) by (auto simp: paging_inv_def)
  obtain a where a: "translate_addr (phys B) (virt B) (paging B) 0xb8000 (physical_memory_offset bi) (page_tables s) = Inr (Some a)"
    "translate_addr (phys B) (virt B) (paging B) 0xdeadbeaf000 (physical_memory_offset bi) (page_tables s) = Inr None"
    using t by (auto simp: paging_tests_ok_def)
  have "wp (traduz_endereco_ja_mapeado_pelo_bootloader E B bi) Q S s = Q () s"
    "wp (traduz_endereco_nao_mapeado_devolve_none E B bi) Q S s = Q () s"
    unfolding traduz_endereco_ja_mapeado_pelo_bootloader_def traduz_endereco_nao_mapeado_devolve_none_def
    using a by (simp_all add: wp_seq wp_value test_steps machine_addresses [OF B])
  then show "wp body Q S s = Q () s" "out = []" using assms(1) by (auto simp: translation_suite_def simp del: str_simps)
qed

interpretation paging_tests: test_suite "paging_inv B bi pt" "set (translation_suite E B bi)" for E B bi pt
proof
  fix s :: "('a, 'b, 'c) kernel" and name out and body :: "(unit, ('a, 'b, 'c) kernel) prog"
  show "paging_inv B bi pt s \<Longrightarrow> SERIAL1_lock \<notin> held s" by (simp add: paging_inv_def kernel_inv_def)
  show "paging_inv B bi pt s \<Longrightarrow> paging_inv B bi pt (sent args s)" for args
    by (simp add: paging_inv_def kernel_inv_frame)
  assume "(name, body, out) \<in> set (translation_suite E B bi)" "paging_inv B bi pt s"
  then show "wp body (\<lambda>_ s'. paging_inv B bi pt s' \<and> serial_text s' = serial_text s @ out) (\<lambda>_ _. False) s"
    using translation_suite_passes by fastforce
qed

section \<open>The new page\<close>

abbreviation (input) new_page :: "('pt, 'h, 'g, 'd, 'page, 'frame) machine \<Rightarrow> 'page" where
  "new_page B \<equiv> Page_containing_address (virt B) 0x222222220000"

abbreviation (input) mapper_of ::
  "('pt, 'h, 'g, 'd, 'page, 'frame) machine \<Rightarrow> BootInfo \<Rightarrow> ('pt, 'page, 'frame, 'frame boot_frames) mapper_api" where
  "mapper_of B bi \<equiv> active_mapper (phys B) (paging B) bi"

text \<open>
  What the third test needs of the tables it finds: its page is free, and no frame that its
  allocator delivers holds a table.
\<close>

definition new_page_mappable :: "('pt, 'h, 'g, 'd, 'page, 'frame) machine \<Rightarrow> BootInfo \<Rightarrow> 'pt \<Rightarrow> bool" where
  "new_page_mappable B bi pt \<longleftrightarrow> reserved B bi pt \<and> page_free (mapper_of B bi) pt (new_page B) \<and>
     100 \<le> length (usable_frame_numbers (boot_memory_map bi))"

text \<open>The processor lets the kernel read and write a page that is mapped as present and writable.\<close>

definition mmu_allows :: "('pt, 'h) env \<Rightarrow> ('pt, 'h, 'g, 'd, 'page, 'frame) machine \<Rightarrow> BootInfo \<Rightarrow> bool" where
  "mmu_allows E B bi \<longleftrightarrow>
     (\<forall>pt a f is_write. a < 2 ^ 47 \<longrightarrow>
        leaf (mapper_of B bi) pt (Page_containing_address (virt B) a) = Some (f, {PRESENT, WRITABLE}) \<longrightarrow>
        memory_access E pt is_write a = None)"

text \<open>The tables after the page has been mapped to the first usable frame.\<close>

definition new_page_mapped :: "('pt, 'h, 'g, 'd, 'page, 'frame) machine \<Rightarrow> BootInfo \<Rightarrow> 'pt \<Rightarrow> 'pt \<Rightarrow> bool" where
  "new_page_mapped B bi pt pt' \<longleftrightarrow>
     leaf (mapper_of B bi) pt' = (leaf (mapper_of B bi) pt)(new_page B \<mapsto>
       (containing_address (phys B) (hd (usable_frame_numbers (boot_memory_map bi)) * 4096), {PRESENT, WRITABLE})) \<and>
     in_huge_page (mapper_of B bi) pt' = in_huge_page (mapper_of B bi) pt"

lemma map_page_active:
  assumes "machine_ok B bi"
  shows "map_page (phys B) (virt B) (paging B) boot_allocate page (physical_memory_offset bi) fa pt =
    map_one boot_allocate (mapper_of B bi) page fa pt"
  using assms by (simp add: map_page_def machine_ok_def active_table_ok active_mapper_def)

lemma new_page_maps:
  assumes B: "machine_ok B bi" and pt: "new_page_mappable B bi pt"
  obtains fa1 pt1 g fa2 pt2 where
    "map_one boot_allocate (mapper_of B bi) (new_page B) (phys B, BootInfoFrameAllocator_init (boot_memory_map bi)) pt = Inr (Inr (), fa1, pt1)"
    "new_page_mapped B bi pt pt1"
    "map_one boot_allocate (mapper_of B bi) (new_page B) fa1 pt1 = Inr (Inl (PageAlreadyMapped g), fa2, pt2)"
    "new_page_mapped B bi pt pt2"
proof -
  let ?M = "mapper_of B bi" and ?p = "new_page B" and ?fa = "(phys B, BootInfoFrameAllocator_init (boot_memory_map bi))"
  let ?mm = "boot_memory_map bi"
  have M: "mapper_ok boot_inv frames_left boot_calls_left ?M"
    using B paging_mapper unfolding machine_ok_def active_mapper_def by blast
  have fa: "boot_inv ?fa" "100 \<le> boot_calls_left ?fa"
    "frames_left ?fa = map (\<lambda>n. containing_address (phys B) (n * 4096)) (usable_frame_numbers ?mm)"
    using B by (simp_all add: machine_ok_def boot_inv_def boot_calls_left_def frames_left_def BootInfoFrameAllocator_init_def)
  have free: "leaf ?M pt ?p = None" "in_huge_page ?M pt ?p = None" and len: "100 \<le> length (frames_left ?fa)"
    and tables: "set (frames_left ?fa) \<inter> table_frames ?M pt = {}"
    using pt fa(3) by (auto simp: new_page_mappable_def page_free_def tables_reserved_def active_mapper_def)
  have calls: "4 \<le> boot_calls_left ?fa" using fa(2) by simp
  obtain r fa1 pt1 where one: "map_one boot_allocate ?M ?p ?fa pt = Inr (r, fa1, pt1)" "boot_inv fa1"
    "boot_calls_left ?fa - 4 \<le> boot_calls_left fa1" "length (frames_left ?fa) - 4 \<le> length (frames_left fa1)"
    "in_huge_page ?M pt1 = in_huge_page ?M pt" "set (frames_left fa1) \<inter> table_frames ?M pt1 = {}"
    and r: "case r of Inl e \<Rightarrow> leaf ?M pt1 = leaf ?M pt \<and> map_error_reason ?M (length (frames_left ?fa) - 1) pt ?p e
     | Inr _ \<Rightarrow> frames_left ?fa \<noteq> [] \<and> hd (frames_left ?fa) \<notin> set (frames_left fa1) \<and>
         leaf ?M pt ?p = None \<and> leaf ?M pt1 = (leaf ?M pt)(?p \<mapsto> (hd (frames_left ?fa), {PRESENT, WRITABLE}))"
    using boot_frames.map_one_spec [OF M fa(1) calls tables, of ?p] by blast
  have ok: "r = Inr ()" using r free len by (cases r) (auto simp: map_error_reason_def split: MapToError.splits)
  have "usable_frame_numbers ?mm \<noteq> []" using len fa(3) by auto
  then have "hd (frames_left ?fa) = containing_address (phys B) (hd (usable_frame_numbers ?mm) * 4096)" using fa(3) by (simp add: hd_map)
  then have mapped: "new_page_mapped B bi pt pt1" using r ok one(5) by (simp add: new_page_mapped_def)
  have "4 \<le> boot_calls_left fa1" using fa(2) one(3) by simp
  from boot_frames.map_one_spec [OF M one(2) this one(6), of ?p]
  obtain r' fa2 pt2 where two: "map_one boot_allocate ?M ?p fa1 pt1 = Inr (r', fa2, pt2)" "in_huge_page ?M pt2 = in_huge_page ?M pt1"
    and r': "case r' of Inl e \<Rightarrow> leaf ?M pt2 = leaf ?M pt1 \<and> map_error_reason ?M (length (frames_left fa1) - 1) pt1 ?p e
     | Inr _ \<Rightarrow> frames_left fa1 \<noteq> [] \<and> hd (frames_left fa1) \<notin> set (frames_left fa2) \<and>
         leaf ?M pt1 ?p = None \<and> leaf ?M pt2 = (leaf ?M pt1)(?p \<mapsto> (hd (frames_left fa1), {PRESENT, WRITABLE}))"
    by blast
  obtain e where e: "r' = Inl e" "map_error_reason ?M (length (frames_left fa1) - 1) pt1 ?p e" "leaf ?M pt2 = leaf ?M pt1"
    using r' mapped by (cases r') (auto simp: new_page_mapped_def)
  then obtain g where "e = PageAlreadyMapped g"
    using one(4,5) free(2) len by (cases e) (auto simp: map_error_reason_def)
  then show thesis using that [OF one(1) [unfolded ok] mapped] two e mapped by (simp add: new_page_mapped_def)
qed

lemma wp_mapping_test:
  assumes B: "machine_ok B bi" and E: "mmu_allows E B bi" and s: "new_page_mappable B bi (page_tables s)"
    and Q: "\<And>pt. new_page_mapped B bi (page_tables s) pt \<Longrightarrow> Q () (s\<lparr>page_tables := pt\<rparr>)"
  shows "wp (mapear_pagina_nova_permite_ler_e_escrever_nela E B bi ram) Q S s"
proof -
  obtain fa1 pt1 g fa2 pt2 where m:
    "map_one boot_allocate (mapper_of B bi) (new_page B) (phys B, BootInfoFrameAllocator_init (boot_memory_map bi)) (page_tables s) =
      Inr (Inr (), fa1, pt1)" "new_page_mapped B bi (page_tables s) pt1"
    "map_one boot_allocate (mapper_of B bi) (new_page B) fa1 pt1 = Inr (Inl (PageAlreadyMapped g), fa2, pt2)"
    "new_page_mapped B bi (page_tables s) pt2"
    by (rule new_page_maps [OF B s])
  have start: "page_start (virt B) (new_page B) = 0x222222220000" using B by (simp add: machine_ok_def virt_api_ok_def)
  have access: "memory_access E pt1 w 0x222222220000 = None" for w
    using E m(2) by (simp add: mmu_allows_def new_page_mapped_def)
  show ?thesis
    using Q [OF m(4)] m(1,3)
    by (simp add: mapear_pagina_nova_permite_ler_e_escrever_nela_def pointer_write_def pointer_read_def access_memory_def Let_def
        wp_seq wp_value wp_kupd test_steps machine_addresses [OF B] map_page_active [OF B] start access)
qed

lemma new_page_others:
  assumes "machine_ok B bi" and "new_page_mapped B bi pt pt'" and "a - a mod 4096 \<noteq> 0x222222220000"
  shows "translate_addr (phys B) (virt B) (paging B) a (physical_memory_offset bi) pt' =
    translate_addr (phys B) (virt B) (paging B) a (physical_memory_offset bi) pt"
proof -
  have B: "virt_api_ok (virt B)" "paging_ok (phys B) (virt B) boot_inv frames_left boot_calls_left (paging B) (physical_memory_offset bi)"
    "physical_memory_offset bi + frame_start (phys B) (Cr3_read (paging B)) < 2 ^ 47"
    using assms(1) by (simp_all add: machine_ok_def)
  have "page_start (virt B) (Page_containing_address (virt B) a) \<noteq> page_start (virt B) (new_page B)"
    using B(1) assms(3) by (simp add: virt_api_ok_def)
  then show ?thesis
    using assms(2) by (intro translate_addr_same [OF B active_mapper_def]) (auto simp: new_page_mapped_def)
qed

text \<open>The page of the test is the first page of the heap under another address.\<close>

definition new_page_aliases_heap :: "('pt, 'h, 'g, 'd, 'page, 'frame) machine \<Rightarrow> BootInfo \<Rightarrow> 'pt \<Rightarrow> bool" where
  "new_page_aliases_heap B bi pt \<longleftrightarrow>
     (\<exists>a. translate_addr (phys B) (virt B) (paging B) 0x222222220000 (physical_memory_offset bi) pt = Inr (Some a) \<and>
          translate_addr (phys B) (virt B) (paging B) HEAP_START (physical_memory_offset bi) pt = Inr (Some a))"

lemma new_page_mapped_aliases:
  assumes B: "machine_ok B bi" and "heap_translated (phys B) (virt B) (paging B) bi pt0 pt" and m: "new_page_mapped B bi pt pt'"
  shows "new_page_aliases_heap B bi pt'"
proof -
  let ?n = "hd (usable_frame_numbers (boot_memory_map bi))"
  have start: "HEAP_START \<in> {HEAP_START..<HEAP_START + HEAP_SIZE}" by (simp add: HEAP_SIZE_def)
  then have heap: "translate_addr (phys B) (virt B) (paging B) HEAP_START (physical_memory_offset bi) pt = Inr (Some (?n * 4096))"
    and "usable_frame_numbers (boot_memory_map bi) \<noteq> []"
    using assms(2) unfolding heap_translated_def by fastforce+
  then have "?n < 2 ^ 40" using B usable_number_bound [of "boot_memory_map bi" ?n] by (simp add: machine_ok_def)
  then have "frame_start (phys B) (containing_address (phys B) (?n * 4096)) = ?n * 4096"
    using B frame_of_number_ok [of "phys B" ?n] by (simp add: machine_ok_def)
  moreover have "translate_addr (phys B) (virt B) (paging B) 0x222222220000 (physical_memory_offset bi) pt' =
      Inr (Some (frame_start (phys B) (containing_address (phys B) (?n * 4096)) + 0x222222220000 mod 4096))"
    by (rule translate_addr_mapped [where ok = boot_inv and frames = frames_left and calls = boot_calls_left])
      (use B m in \<open>simp_all add: machine_ok_def new_page_mapped_def active_mapper_def\<close>)
  moreover have "translate_addr (phys B) (virt B) (paging B) HEAP_START (physical_memory_offset bi) pt' = Inr (Some (?n * 4096))"
    using new_page_others [OF B m, of HEAP_START] heap by (simp add: HEAP_START_def)
  ultimately show ?thesis by (simp add: new_page_aliases_heap_def)
qed

section \<open>The suite\<close>

text \<open>What the third test needs of the machine: the initialisation has taken no frame for a page table.\<close>

definition mapping_test_ok :: "('pt, 'h) env \<Rightarrow> ('pt, 'h, 'g, 'd, 'page, 'frame) machine \<Rightarrow> BootInfo \<Rightarrow> 'pt \<Rightarrow> 'h \<Rightarrow> bool" where
  "mapping_test_ok E B bi pt h \<longleftrightarrow> mmu_allows E B bi \<and> page_free (mapper_of B bi) pt (new_page B) \<and>
     (\<forall>pt' h' info. memory_setup (phys B) (virt B) (paging B) (heap_init B) bi pt h = Inr (pt', h', Inr info) \<longrightarrow> reserved B bi pt')"

lemma initialized_mappable:
  assumes "heap_fits B bi pt" and "mapping_test_ok E B bi pt h" and s: "initialized B bi (kernel_start mem pt h) s"
  shows "new_page_mappable B bi (page_tables s)"
proof -
  have "heap_tables (phys B) (virt B) (paging B) bi pt (page_tables s)" "reserved B bi (page_tables s)"
    using assms(2) s by (auto simp: initialized_def mapping_test_ok_def kernel_start_def)
  moreover have "0x222222220000 \<notin> {HEAP_START..<HEAP_START + HEAP_SIZE}" by (simp add: HEAP_START_def)
  ultimately show ?thesis
    using assms(1,2) by (simp add: new_page_mappable_def mapping_test_ok_def page_free_def heap_tables_def heap_mappable_def)
qed

lemma mapping_test_runs:
  assumes s: "paging_inv B bi pt s" and E: "mmu_allows E B bi" and pt: "new_page_mappable B bi pt"
  shows "wp (testable_run (fst (mapping_test E B bi ram), fst (snd (mapping_test E B bi ram))))
    (\<lambda>_ s'. serial_text s' = serial_text s @ test_report (mapping_test E B bi ram) \<and>
      (\<exists>pt'. new_page_mapped B bi pt pt' \<and> paging_inv B bi pt' s')) (\<lambda>_ _. False) s"
  unfolding mapping_test_def fst_conv snd_conv
proof (rule test_report_run, goal_cases)
  case 1
  show ?case using s by (simp add: paging_inv_def kernel_inv_def)
next
  case 2
  have B: "machine_ok B bi" and s': "kernel_inv s" "page_tables s = pt" "paging_tests_ok B bi pt" using s by (simp_all add: paging_inv_def)
  show ?case
  proof (rule wp_mapping_test [OF B E], goal_cases)
    case 1
    show ?case using pt s'(2) by simp
  next
    case (2 pt')
    then have m: "new_page_mapped B bi pt pt'" using s'(2) by simp
    have "paging_tests_ok B bi pt'"
      using s'(3) new_page_others [OF B m, of "0xb8000"] new_page_others [OF B m, of "0xdeadbeaf000"] by (simp add: paging_tests_ok_def)
    then show ?case using B m s'(1)
      by (auto simp: paging_inv_def kernel_inv_def running_def serial_text_def intro!: exI [of _ pt'])
  qed
qed

lemma paging_suite_runs:
  assumes s: "paging_inv B bi pt s" and ts: "set ts \<subseteq> set (paging_suite E B bi ram)" "distinct ts"
    and m: "mapping_test E B bi ram \<in> set ts \<Longrightarrow> mmu_allows E B bi \<and> new_page_mappable B bi pt"
  shows "wp (kfor (runnable ts) testable_run) (\<lambda>_ s'. serial_text s' = serial_text s @ concat (map test_report ts) \<and>
    (mapping_test E B bi ram \<in> set ts \<longrightarrow> new_page_mapped B bi pt (page_tables s'))) (\<lambda>_ _. False) s"
proof (cases "mapping_test E B bi ram \<in> set ts")
  case False
  then have "set ts \<subseteq> set (translation_suite E B bi)" using ts(1) by (auto simp: paging_suite_def)
  then show ?thesis using s False by (rule_tac paging_tests.tests_run) simp_all
next
  case True
  let ?m = "mapping_test E B bi ram"
  obtain as bs where split: "ts = as @ ?m # bs" using split_list [OF True] by blast
  then have sub: "set as \<subseteq> set (translation_suite E B bi)" "set bs \<subseteq> set (translation_suite E B bi)"
    using ts by (auto simp: paging_suite_def)
  have run: "kfor (runnable ts) testable_run =
      kthen (kfor (runnable as) testable_run) (kthen (testable_run (fst ?m, fst (snd ?m))) (kfor (runnable bs) testable_run))"
    by (simp add: split runnable_def kfor_append case_prod_unfold)
  show ?thesis
    unfolding run wp_seq
  proof (rule paging_tests.tests_run [OF sub(1) s], goal_cases)
    case (1 s1)
    show ?case
    proof (rule wp_mono [OF mapping_test_runs [OF 1(1)]], goal_cases)
      case (3 x s2)
      then obtain pt' where pt': "new_page_mapped B bi pt pt'" "paging_inv B bi pt' s2" by blast
      show ?case
        by (rule paging_tests.tests_run [OF sub(2) pt'(2)]) (use 1 3 pt' split in \<open>simp add: paging_inv_def\<close>)
    qed (use m [OF True] in simp_all)
  qed
qed

section \<open>Properties\<close>

text \<open>
  C35. The tests of \<^verbatim>\<open>tests/paging.rs\<close> pass, in any order, on every machine whose bootloader
  maps the text buffer and not the address 0xdeadbeaf000: the initialisation of the kernel,
  which maps the heap before the tests run, leaves both translations as they were. The test
  that maps a new page passes if the initialisation has taken no frame for a page table,
  so that the second allocator delivers none that is in use as a table: the page can be
  written and read, and mapping it again is the explicit error. But when the suite is over
  the new page is the first page of the heap under another address.
\<close>

theorem paging_tests_pass:
  assumes "machine_ok B bi" and "grid_wf mem" and "heap_mappable (phys B) (virt B) (paging B) bi pt"
    and "paging_tests_ok B bi pt" and "set ts \<subseteq> set (paging_suite E B bi ram)" and "distinct ts"
    and "mapping_test E B bi ram \<in> set ts \<Longrightarrow> mapping_test_ok E B bi pt h"
  shows "\<exists>s'. test_kernel_main E B bi (runnable ts) (kernel_start mem pt h) = Stop Halted s' \<and> exited Success s' \<and>
    serial_text s' = boot_stages @ boot_memory_line (boot_summary bi) @ suite_report ts \<and>
    (mapping_test E B bi ram \<in> set ts \<longrightarrow> new_page_aliases_heap B bi (page_tables s'))"
proof (rule test_kernel_main_runs [OF assms(1-3)], goal_cases)
  case (1 s)
  let ?P = "\<lambda>s'. mapping_test E B bi ram \<in> set ts \<longrightarrow> new_page_mapped B bi (page_tables s) (page_tables s')"
  let ?s = "sent [str ''Running '', fmt_dec (length ts), str '' tests'', [newline]] s"
  have s: "paging_inv B bi (page_tables s) ?s"
    using assms(1) initialized_prompt(7) [OF 1] paging_tests_initialized [OF assms(4) 1]
    by (simp add: paging_inv_def kernel_inv_frame)
  have ready: "mmu_allows E B bi \<and> new_page_mappable B bi (page_tables s)" if "mapping_test E B bi ram \<in> set ts"
    using initialized_mappable [OF assms(3) assms(7) [OF that] 1] assms(7) [OF that] by (simp add: mapping_test_ok_def)
  have "wp (kfor (runnable ts) testable_run) (\<lambda>_ s'. serial_text s' = serial_text s @ suite_report ts \<and> ?P s') (\<lambda>_ _. False) ?s"
    using paging_suite_runs [OF s assms(5,6) ready] by (simp add: suite_report_def del: str_simps)
  from runner_exits [OF initialized_prompt(3) [OF 1] this] show ?case
  proof (rule wp_mono, goal_cases)
    case (3 e s')
    have "heap_translated (phys B) (virt B) (paging B) bi pt (page_tables s)" using 1 by (simp add: initialized_def kernel_start_def)
    from new_page_mapped_aliases [OF assms(1) this] show ?case using 3 initialized_prompt(4) [OF 1] by simp
  qed simp_all
qed

text \<open>Tables that map the text buffer to itself.\<close>

definition vga_tables :: example_tables where
  "vga_tables = [0xb8000 \<mapsto> (0xb8000, {PRESENT, WRITABLE})]"

lemma vga_heap_fits:
  "heap_mappable (phys example_machine) (virt example_machine) (paging example_machine) example_boot_info vga_tables"
proof -
  have "a - a mod 4096 \<noteq> 0xb8000" if "HEAP_START \<le> a" for a
    using that mod_less_divisor [of 4096 a] unfolding HEAP_START_def by linarith
  then have "page_free example_mapper vga_tables (a - a mod 4096)" if "HEAP_START \<le> a" for a
    using that by (simp add: page_free_def example_mapper_def vga_tables_def)
  moreover have "tables_reserved (phys example_machine) (paging example_machine) example_boot_info vga_tables"
    using example_tables_reserved by (simp add: example_machine_def)
  ultimately show ?thesis
    by (simp add: heap_mappable_def example_usable) (auto simp: example_machine_def example_paging_def example_virt_def)
qed

theorem paging_tests_pass_witness:
  "\<exists>s'. test_kernel_main example_env example_machine example_boot_info
      (runnable (paging_suite example_env example_machine example_boot_info (\<lambda>_. 0)))
      (kernel_start (buffer blank_writer) vga_tables []) = Stop Halted s' \<and> exited Success s' \<and>
    new_page_aliases_heap example_machine example_boot_info (page_tables s')"
proof -
  have "paging_tests_ok example_machine example_boot_info vga_tables"
    by (simp add: paging_tests_ok_def translate_addr_def active_level_4_table_def example_machine_def example_paging_def
        example_virt_def example_phys_def example_boot_info_def example_mapper_def vga_tables_def)
  moreover have "mapping_test_ok example_env example_machine example_boot_info vga_tables []"
    using example_tables_reserved
    by (auto simp: mapping_test_ok_def mmu_allows_def active_mapper_def page_free_def example_machine_def example_paging_def
        example_mapper_def example_virt_def example_env_def vga_tables_def)
  moreover have "distinct (paging_suite example_env example_machine example_boot_info (\<lambda>_. 0))"
    by (simp add: paging_suite_def translation_suite_def mapping_test_def str_inj del: str_simps)
  moreover have "mapping_test example_env example_machine example_boot_info (\<lambda>_. 0) \<in>
      set (paging_suite example_env example_machine example_boot_info (\<lambda>_. 0))"
    by (simp add: paging_suite_def)
  ultimately show ?thesis
    using paging_tests_pass [OF example_machine_ok blank_grid vga_heap_fits _ subset_refl] by blast
qed

end
