(* ===== verification/Loop_Memory.thy ===== *)
theory Loop_Memory
  imports Main_Loop Heap_Service
begin

text \<open>
  The memory along the loop of \<open>kernel_main\<close>. Only \<open>mem\<close> uses the heap, and gives everything
  back; so after every turn of the loop, under any interleaving of interrupts, no block is
  live, and with an allocator that keeps its contract \<open>mem\<close> is served every time. The page
  tables and the task state segment stay as the initialisation has left them, so the page
  behind the heap, which \<open>falha pagina\<close> reads, is never mapped, and an exhausted stack
  always finds the stack of the double fault handler.
\<close>

section \<open>The heap between the turns of the loop\<close>

lemma mem_keeps_heap_free:
  assumes "first_fit_heap E ok live slack" and "slack \<le> 256"
  shows "mem_safe TYPE('g) (\<lambda>h. ok h \<and> live h = {}) E"
  unfolding safe_def
proof (intro allI impI)
  fix s :: "('a, 'b, 'g) kernel"
  assume s: "running s" "ok (heap s) \<and> live (heap s) = {}"
  then have h: "ok (heap s)" "live (heap s) = {}" by simp_all
  obtain info where info: "MEMORY_INFO s = Some info" using s(1) by (auto simp: running_def)
  obtain p q1 q2 q3 h1 h2 h3 h4 where r: "heap_alloc E 4 4 (heap s) = (Some p, h1)" "heap_alloc E 16 4 h1 = (Some q1, h2)"
    "heap_realloc E q1 16 4 32 h2 = (Some q2, h3)" "heap_realloc E q2 32 4 64 h3 = (Some q3, h4)" "placed p 4 4 {}"
    "ok (heap_dealloc E p 4 4 (heap_dealloc E q3 64 4 h4))" "live (heap_dealloc E p 4 4 (heap_dealloc E q3 64 4 h4)) = {}"
    by (rule mem_requests_served [OF assms h])
  have "keeps s ((printed (mem_text info p) s)\<lparr>heap := h'\<rparr>)" for h'
    using keeps_printed [OF s(1)] by (simp add: keeps_def running_heap)
  then show "wp (cmd_mem E) (\<lambda>_ s'. keeps s s' \<and> ok (heap s') \<and> live (heap s') = {}) (parked E) s"
    using r(6,7) by (simp only: wp_cmd_mem_served [OF s(1) info r(1-4)]) simp
qed

text \<open>A property of the heap, the memory summary, the page tables and the loaded task
  state segment, wherever the loop has not stopped.\<close>

fun heap_kept ::
  "('h \<Rightarrow> bool) \<Rightarrow> MemoryInfo option \<Rightarrow> 'pt \<Rightarrow> TaskStateSegment option \<Rightarrow> pc \<times> ('pt, 'h, 'g) kernel \<Rightarrow> bool" where
  "heap_kept H m tables tss (Stopped e, s) \<longleftrightarrow> True"
| "heap_kept H m tables tss (p, s) \<longleftrightarrow> H (heap s) \<and> MEMORY_INFO s = m \<and> page_tables s = tables \<and> cpu_tss s = tss"

lemma heap_kept_running: "heap_kept H m tables tss (p, s) \<longleftrightarrow> (\<exists>e. p = Stopped e) \<or> H (heap s) \<and> MEMORY_INFO s = m \<and> page_tables s = tables \<and> cpu_tss s = tss"
  by (cases p) simp_all

lemma process_scancode_keeps:
  fixes s :: "('pt, 'h, 'g) kernel"
  assumes "kernel_inv s" and "mem_safe TYPE('g) H E" and "H (heap s)"
  shows "wp (process_scancode E c) (\<lambda>_ s'. H (heap s') \<and> MEMORY_INFO s' = MEMORY_INFO s \<and> page_tables s' = page_tables s \<and> cpu_tss s' = cpu_tss s) (parked E) s"
proof (cases "fst (translate c (SHIFT s))")
  case None
  then show ?thesis using assms(1,3) by (simp add: wp_def process_scancode_eq kret_def)
next
  case (Some b)
  have "H (heap (s\<lparr>SHIFT := snd (translate c (SHIFT s))\<rparr>))" using assms(3) by simp
  from wp_feed_keeps [OF kernel_inv_shift [OF assms(1)] assms(2) this, of b] show ?thesis
    using Some assms(1) by (auto simp: wp_def process_scancode_eq input_frame_def split: outcome.splits)
qed

lemma keyboard_irq_memory:
  assumes "kernel_inv s" and "keyboard_irq E c s = Ret () s'"
  shows "heap s' = heap s" "MEMORY_INFO s' = MEMORY_INFO s" "page_tables s' = page_tables s" "serial_text s' = serial_text s"
    "pic_log s' = pic_log s @ [Pics_notify_end_of_interrupt KEYBOARD_INTERRUPT_VECTOR]" "cpu_tss s' = cpu_tss s"
proof -
  obtain s1 where "keyboard_irq E c s = Ret () s1" "scancode_taken c s s1" using keyboard_irq_inv [OF assms(1)] by blast
  then have "scancode_taken c s s'" using assms(2) by simp
  then have eq: "s' = s\<lparr>SCANCODE_QUEUE := SCANCODE_QUEUE s', keyboard_data := c,
      pic_log := pic_log s @ [Pics_notify_end_of_interrupt KEYBOARD_INTERRUPT_VECTOR]\<rparr>"
    by (simp add: scancode_taken_def)
  show "heap s' = heap s" "MEMORY_INFO s' = MEMORY_INFO s" "page_tables s' = page_tables s" "serial_text s' = serial_text s"
    "pic_log s' = pic_log s @ [Pics_notify_end_of_interrupt KEYBOARD_INTERRUPT_VECTOR]" "cpu_tss s' = cpu_tss s"
    by (subst eq, simp add: serial_text_def)+
qed

lemma heap_kept_step:
  fixes c :: "pc \<times> ('pt, 'h, 'g) kernel"
  assumes "main_step E c c'" and "main_inv c" and "mem_safe TYPE('g) H E" and "heap_kept H m tables tss c"
  shows "heap_kept H m tables tss c'"
  using assms(1)
proof cases
  case (drain_one s x s1 s2 was)
  then have "H (heap s)" "MEMORY_INFO s = m" "page_tables s = tables" "cpu_tss s = tss" "kernel_inv s" using assms(2,4) by simp_all
  then have "kernel_inv s1" "H (heap s1)" "MEMORY_INFO s1 = m" "page_tables s1 = tables" "cpu_tss s1 = tss" using next_scancode_inv [of s E] drain_one(3) by auto
  then show ?thesis using process_scancode_keeps [OF _ assms(3), of s1 x] drain_one by (simp add: wp_def)
next
  case (drain_done s s1 was)
  then show ?thesis using assms(2,4) next_scancode_inv [of s E] by auto
next
  case (irq s p x s')
  then have inv: "kernel_inv s" using assms(2) by (intro main_inv_kernel) simp_all
  have "H (heap s) \<and> MEMORY_INFO s = m \<and> page_tables s = tables \<and> cpu_tss s = tss" using assms(4) irq by (auto simp: heap_kept_running)
  then show ?thesis using irq keyboard_irq_memory [OF inv irq(5)] by (simp add: heap_kept_running)
qed (use assms(4) in simp_all)

lemma heap_kept_reach:
  fixes c :: "pc \<times> ('pt, 'h, 'g) kernel"
  assumes "(main_step E)\<^sup>*\<^sup>* c c'" and "main_inv c" and "mem_safe TYPE('g) H E" and "heap_kept H m tables tss c"
    and "kernel_binary E"
  shows "heap_kept H m tables tss c'"
  using assms(1)
proof (induction rule: rtranclp_induct)
  case base
  show ?case by (rule assms(4))
next
  case (step c1 c2)
  then show ?case using heap_kept_step [OF step(2) main_reach_inv [OF assms(5) step(1) assms(2)] assms(3)] by simp
qed

section \<open>Enter on mem\<close>

lemma enter_mem_served:
  assumes F: "first_fit_heap E ok live slack" "slack \<le> 256" and h: "ok (heap s)" "live (heap s) = {}"
    and ed: "editing s t l" "trim l = str ''mem''" and info: "MEMORY_INFO s = Some info"
  shows "\<exists>s' p. feed E newline s = Ret () s' \<and> live (heap s') = {} \<and>
    HEAP_START \<le> p \<and> p + 4 \<le> HEAP_START + HEAP_SIZE \<and> 4 dvd p \<and>
    editing s' (tty_write (newline # mem_text info p @ PROMPT) t) []"
proof -
  let ?s = "(printed [newline] s)\<lparr>held := {LINE_lock}\<rparr>"
  obtain p q1 q2 q3 h1 h2 h3 h4 where r: "heap_alloc E 4 4 (heap s) = (Some p, h1)" "heap_alloc E 16 4 h1 = (Some q1, h2)"
    "heap_realloc E q1 16 4 32 h2 = (Some q2, h3)" "heap_realloc E q2 32 4 64 h3 = (Some q3, h4)" "placed p 4 4 {}"
    "ok (heap_dealloc E p 4 4 (heap_dealloc E q3 64 4 h4))" "live (heap_dealloc E p 4 4 (heap_dealloc E q3 64 4 h4)) = {}"
    by (rule mem_requests_served [OF F h])
  let ?u = "(printed (mem_text info p) ?s)\<lparr>heap := heap_dealloc E p 4 4 (heap_dealloc E q3 64 4 h4)\<rparr>"
  let ?Q = "\<lambda>_ s'. live (heap s') = {} \<and> editing s' (tty_write (newline # mem_text info p @ PROMPT) t) []"
  note locked = editing_locked [OF ed(1)]
  have "keeps ?s ?u" using keeps_printed [OF locked(3)] by (simp add: keeps_def running_heap)
  moreover have "shows_tty (WRITER ?u) (tty_write (mem_text info p) (tty_write [newline] t))" using shows_printed [OF locked(4)] by simp
  ultimately have shown: "editing (?u\<lparr>LINE := LineBuffer_clear (LINE ?u), held := held ?u - {LINE_lock}\<rparr>)
      (tty_write (mem_text info p) (tty_write [newline] t)) []"
    by (intro editing_after_command [OF ed(1)])
  have "wp (print_prompt E) ?Q (\<lambda>_ _. False) (?u\<lparr>LINE := LineBuffer_clear (LINE ?u), held := held ?u - {LINE_lock}\<rparr>)"
    using shown by (rule wp_print_prompt) (use r(7) in \<open>simp add: tty_write_def\<close>)
  moreover have "heap_alloc E 4 4 (heap ?s) = (Some p, h1)" "MEMORY_INFO ?s = Some info" using r(1) info by simp_all
  ultimately have "wp (cmd_mem E) (\<lambda>_ s'. wp (print_prompt E) ?Q (\<lambda>_ _. False)
      (s'\<lparr>LINE := LineBuffer_clear (LINE s'), held := held s' - {LINE_lock}\<rparr>)) (\<lambda>_ _. False) ?s"
    by (subst wp_cmd_mem_served [OF locked(3) _ _ r(2-4)])
  then have "wp (feed E newline) ?Q (\<lambda>_ _. False) s" by (simp only: wp_feed_enter [OF ed(1)] execute_mem_line [OF ed(2)])
  then obtain s' where "feed E newline s = Ret () s'" "?Q () s'" by (auto simp: wp_def split: outcome.splits)
  then show ?thesis using r(5) by (auto simp: placed_def)
qed

section \<open>Properties\<close>

text \<open>
  C5. The kernel never runs out of heap, however long it runs: with an allocator that
  keeps the contract of \<^verbatim>\<open>linked_list_allocator\<close>, in every state that a booted kernel can
  reach under any keys and interrupts, Enter on the command \<open>mem\<close> returns to a new
  prompt. Its report shows the box at an aligned address inside the heap and the vector
  with its ten elements, and afterwards no block of the heap is in use.
\<close>

theorem mem_always_served:
  fixes E :: "('pt, 'h) env"
  assumes "kernel_binary E" and "machine_ok B bi" and "grid_wf mem" and "heap_mappable (phys B) (virt B) (paging B) bi pt"
    and "first_fit_heap E ok live slack" and "slack \<le> 256"
    and "ok (heap_init B HEAP_START HEAP_SIZE h)" and "live (heap_init B HEAP_START HEAP_SIZE h) = {}"
  shows "\<exists>s0. kernel_main_prologue E B bi (kernel_start mem pt h) = Ret () s0 \<and>
    (\<forall>p s t l. (main_step E)\<^sup>*\<^sup>* (Loop_head, s0) (p, s) \<longrightarrow> editing s t l \<longrightarrow> trim l = str ''mem'' \<longrightarrow>
       (\<exists>s' q. feed E newline s = Ret () s' \<and> live (heap s') = {} \<and>
          HEAP_START \<le> q \<and> q + 4 \<le> HEAP_START + HEAP_SIZE \<and> 4 dvd q \<and>
          editing s' (tty_write (newline # mem_text (boot_summary bi) q @ PROMPT) t) []))"
proof -
  let ?H = "\<lambda>h. ok h \<and> live h = {}" and ?m = "Some (boot_summary bi)"
  obtain s0 where s0: "kernel_main_prologue E B bi (kernel_start mem pt h) = Ret () s0" "at_prompt bi s0"
    "heap s0 = heap_init B HEAP_START HEAP_SIZE h"
    using boot_at_prompt [OF assms(2-4)] by blast
  have start: "main_inv (Loop_head, s0)" "heap_kept ?H ?m (page_tables s0) (cpu_tss s0) (Loop_head, s0)"
    using s0(2,3) assms(7,8) by (simp_all add: at_prompt_def editing_def)
  have "\<exists>s' q. feed E newline s = Ret () s' \<and> live (heap s') = {} \<and>
      HEAP_START \<le> q \<and> q + 4 \<le> HEAP_START + HEAP_SIZE \<and> 4 dvd q \<and>
      editing s' (tty_write (newline # mem_text (boot_summary bi) q @ PROMPT) t) []"
    if run: "(main_step E)\<^sup>*\<^sup>* (Loop_head, s0) (p, s)" and ed: "editing s t l" "trim l = str ''mem''" for p s t l
  proof -
    have "\<not> PANICKING s" using ed(1) by (simp add: editing_def kernel_inv_def running_def)
    then have "\<nexists>e. p = Stopped e" using main_reach_inv [OF assms(1) run start(1)] by auto
    then have "ok (heap s)" "live (heap s) = {}" "MEMORY_INFO s = ?m"
      using heap_kept_reach [OF run start(1) mem_keeps_heap_free [OF assms(5,6)] start(2) assms(1)] by (simp_all add: heap_kept_running)
    then show ?thesis using enter_mem_served [OF assms(5,6) _ _ ed] by blast
  qed
  then show ?thesis using s0(1) by blast
qed

theorem mem_always_served_witness:
  "\<exists>s0. kernel_main_prologue example_env example_machine example_boot_info (kernel_start (buffer blank_writer) Map.empty []) =
      Ret () s0 \<and>
    (\<forall>p s t. (main_step example_env)\<^sup>*\<^sup>* (Loop_head, s0) (p, s) \<longrightarrow> editing s t (str ''mem'') \<longrightarrow>
       (\<exists>s'. feed example_env newline s = Ret () s' \<and> heap s' = []))"
proof -
  have h: "True" "set (heap_init example_machine HEAP_START HEAP_SIZE []) = {}" by (simp_all add: example_machine_def)
  have "trim (str ''mem'') = str ''mem''" by code_simp
  then show ?thesis
    using mem_always_served [OF example_kernel_binary example_machine_ok blank_grid example_heap_fits example_first_fit _ h] by fastforce
qed

text \<open>
  The processor translates as the tables say: a read of an address below the canonical
  gap that has no translation raises a page fault for this address, with the error code 0
  of a read by the kernel from a page that is not present.
\<close>

definition mmu_agrees :: "('pt, 'h) env \<Rightarrow> ('pt, 'h, 'g, 'd, 'page, 'frame) machine \<Rightarrow> BootInfo \<Rightarrow> bool" where
  "mmu_agrees E B bi \<longleftrightarrow>
     (\<forall>pt a. a < 2 ^ 47 \<longrightarrow> translate_addr (phys B) (virt B) (paging B) a (physical_memory_offset bi) pt = Inr None \<longrightarrow>
        memory_access E pt False a = Some (Page_fault a 0))"

lemma heap_end_unmapped:
  assumes "heap_translated P V G bi pt pt'"
    and "translate_addr P V G (HEAP_START + HEAP_SIZE) (physical_memory_offset bi) pt = Inr None"
  shows "translate_addr P V G (HEAP_START + HEAP_SIZE) (physical_memory_offset bi) pt' = Inr None"
  using assms by (simp add: heap_translated_def)

text \<open>What the kernel reports for a read of the first address behind the heap.\<close>

definition heap_end_fault :: "bytes \<times> bytes \<times> u64 option \<times> (u64 \<times> u64) option" where
  "heap_end_fault = (str ''Page Fault'', str ''#PF'', Some 0, Some (HEAP_START + HEAP_SIZE, 0))"

text \<open>
  C9. The command \<open>falha pagina\<close> demonstrates what it promises, however long the kernel has
  run: if the bootloader has left the page behind the heap unmapped, then in every state
  that a booted kernel can reach under any keys and interrupts Enter on \<open>falha pagina\<close>
  reports a page fault for the first address behind the heap on the serial port and on the
  screen, and parks. Neither the initialisation of the heap nor any command maps that page.
\<close>

theorem falha_pagina_always_faults:
  fixes E :: "('pt, 'h) env" and B :: "('pt, 'h, 'g, 'd, 'page, 'frame) machine"
  assumes "kernel_binary E" and "machine_ok B bi" and "grid_wf mem" and "heap_mappable (phys B) (virt B) (paging B) bi pt"
    and "mmu_agrees E B bi"
    and "translate_addr (phys B) (virt B) (paging B) (HEAP_START + HEAP_SIZE) (physical_memory_offset bi) pt = Inr None"
  shows "\<exists>s0. kernel_main_prologue E B bi (kernel_start mem pt h) = Ret () s0 \<and>
    (\<forall>p s t l. (main_step E)\<^sup>*\<^sup>* (Loop_head, s0) (p, s) \<longrightarrow> editing s t l \<longrightarrow> trim l = str ''falha pagina'' \<longrightarrow>
       (\<exists>s'. feed E newline s = Stop Halted s' \<and>
          serial_text s' = serial_text s @ serial_report E (instruction_address E read_site) heap_end_fault \<and>
          shows_tty (WRITER s') (tty_write (newline # screen_report E (instruction_address E read_site) heap_end_fault) t)))"
proof -
  obtain s0 where s0: "kernel_main_prologue E B bi (kernel_start mem pt h) = Ret () s0" "at_prompt bi s0"
    "heap_translated (phys B) (virt B) (paging B) bi pt (page_tables s0)"
    using boot_at_prompt [OF assms(2-4)] by blast
  have "memory_access E (page_tables s0) False (HEAP_START + HEAP_SIZE) = Some (Page_fault (HEAP_START + HEAP_SIZE) 0)"
    using assms(5) heap_end_unmapped [OF s0(3) assms(6)] by (simp add: mmu_agrees_def HEAP_START_def HEAP_SIZE_def)
  then have ex: "falha_exception E (page_tables s0) (str ''falha pagina'') =
      Some (instruction_address E read_site, Page_fault (HEAP_START + HEAP_SIZE) 0)"
    by (simp add: falha_exception_def del: str_simps)
  have start: "main_inv (Loop_head, s0)" "heap_kept (\<lambda>_. True) (MEMORY_INFO s0) (page_tables s0) (cpu_tss s0) (Loop_head, s0)"
    using s0(2) by (simp_all add: at_prompt_def editing_def)
  have "\<exists>s'. feed E newline s = Stop Halted s' \<and>
      serial_text s' = serial_text s @ serial_report E (instruction_address E read_site) heap_end_fault \<and>
      shows_tty (WRITER s') (tty_write (newline # screen_report E (instruction_address E read_site) heap_end_fault) t)"
    if run: "(main_step E)\<^sup>*\<^sup>* (Loop_head, s0) (p, s)" and ed: "editing s t l" "trim l = str ''falha pagina''" for p s t l
  proof -
    have "\<not> PANICKING s" using ed(1) by (simp add: editing_def kernel_inv_def running_def)
    then have "\<nexists>e. p = Stopped e" using main_reach_inv [OF assms(1) run start(1)] by auto
    then have "page_tables s = page_tables s0"
      using heap_kept_reach [OF run start(1) safe_cmd_mem start(2) assms(1)] by (simp add: heap_kept_running)
    then have "falha_exception E (page_tables s) (trim l) =
        Some (instruction_address E read_site, Page_fault (HEAP_START + HEAP_SIZE) 0)"
      using ex ed(2) by (simp del: str_simps)
    from enter_falha [OF ed(1) this fatal_report.simps(4)] show ?thesis unfolding heap_end_fault_def .
  qed
  then show ?thesis using s0(1) by blast
qed

lemma example_mmu_agrees: "mmu_agrees example_env example_machine example_boot_info"
  by (auto simp: mmu_agrees_def translate_addr_def active_level_4_table_def example_machine_def example_paging_def example_virt_def
      example_phys_def example_boot_info_def example_mapper_def example_env_def split: option.splits)

theorem falha_pagina_always_faults_witness:
  "\<exists>s0. kernel_main_prologue example_env example_machine example_boot_info (kernel_start (buffer blank_writer) Map.empty []) =
      Ret () s0 \<and>
    (\<forall>p s t. (main_step example_env)\<^sup>*\<^sup>* (Loop_head, s0) (p, s) \<longrightarrow> editing s t (str ''falha pagina'') \<longrightarrow>
       (\<exists>s'. feed example_env newline s = Stop Halted s'))"
proof -
  have "translate_addr (phys example_machine) (virt example_machine) (paging example_machine) (HEAP_START + HEAP_SIZE)
      (physical_memory_offset example_boot_info) Map.empty = Inr None"
    by (simp add: translate_addr_def active_level_4_table_def example_machine_def example_paging_def example_virt_def
        example_phys_def example_boot_info_def example_mapper_def)
  note faults = falha_pagina_always_faults [OF example_kernel_binary example_machine_ok blank_grid example_heap_fits example_mmu_agrees this]
  have "trim (str ''falha pagina'') = str ''falha pagina''" by code_simp
  then show ?thesis using faults [of "[]"] by blast
qed

text \<open>The stack that \<^verbatim>\<open>gdt.rs\<close> reserves for the double fault handler; it grows down from its end.\<close>

definition double_fault_stack_top :: "('pt, 'h, 'g, 'd, 'page, 'frame) machine \<Rightarrow> u64" where
  "double_fault_stack_top B = double_fault_stack B + 5 * 4096"

text \<open>
  C15. An exception on an exhausted stack never resets the machine, however long the kernel
  has run: in every state that a booted kernel can reach under any keys and interrupts and
  in which it is not parked, an exception that the processor cannot deliver on the current
  stack is reported as a double fault on the serial port and on the screen, and parks; and
  the handler that reports it runs on the stack that the kernel has reserved for it, entered
  at the end of the five pages of \<^verbatim>\<open>DOUBLE_FAULT_STACK\<close>. The same holds when the stack
  is exhausted by \<open>falha pilha\<close>, which runs while the line buffer is locked.
\<close>

theorem stack_overflow_is_double_fault:
  fixes E :: "('pt, 'h) env" and B :: "('pt, 'h, 'g, 'd, 'page, 'frame) machine"
  assumes "kernel_binary E" and "machine_ok B bi" and "grid_wf mem" and "heap_mappable (phys B) (virt B) (paging B) bi pt"
  shows "\<exists>s0. kernel_main_prologue E B bi (kernel_start mem pt h) = Ret () s0 \<and>
    (\<forall>p s. (main_step E)\<^sup>*\<^sup>* (Loop_head, s0) (p, s) \<longrightarrow> (\<nexists>e. p = Stopped e) \<longrightarrow>
       (\<forall>ip ex. \<exists>s'. deliver E False ip ex s = Stop Halted s' \<and>
          reported (serial_report E ip (str ''Double Fault'', str ''#DF'', None, None))
            (screen_report E ip (str ''Double Fault'', str ''#DF'', None, None)) s s' \<and>
          cpu_stack s' = Some (double_fault_stack_top B)) \<and>
       (\<forall>t l. editing s t l \<longrightarrow> trim l = str ''falha pilha'' \<longrightarrow>
          (\<exists>s'. feed E newline s = Stop Halted s' \<and>
             serial_text s' = serial_text s @
               serial_report E (instruction_address E call_site) (str ''Double Fault'', str ''#DF'', None, None) \<and>
             shows_tty (WRITER s') (tty_write (newline #
               screen_report E (instruction_address E call_site) (str ''Double Fault'', str ''#DF'', None, None)) t) \<and>
             cpu_stack s' = Some (double_fault_stack_top B))))"
proof -
  obtain s0 where s0: "kernel_main_prologue E B bi (kernel_start mem pt h) = Ret () s0" "at_prompt bi s0"
    "ist_pointer DOUBLE_FAULT_IST_INDEX (cpu_tss s0) = Some (double_fault_stack_top B)"
    using boot_at_prompt [OF assms(2-4)] unfolding double_fault_stack_top_def DOUBLE_FAULT_STACK_SIZE_def by blast
  have start: "main_inv (Loop_head, s0)"
    "heap_kept (\<lambda>_. True) (MEMORY_INFO s0) (page_tables s0) (cpu_tss s0) (Loop_head, s0)"
    using s0(2) by (simp_all add: at_prompt_def editing_def)
  have ready: "running s \<and> ist_pointer DOUBLE_FAULT_IST_INDEX (cpu_tss s) = Some (double_fault_stack_top B)"
    if run: "(main_step E)\<^sup>*\<^sup>* (Loop_head, s0) (p, s)" and p: "\<nexists>e. p = Stopped e" for p s
  proof -
    have "main_inv (p, s)" by (rule main_reach_inv [OF assms(1) run start(1)])
    then have "kernel_inv s" using p by (cases p) simp_all
    moreover have "cpu_tss s = cpu_tss s0"
      using heap_kept_reach [OF run start(1) safe_cmd_mem start(2) assms(1)] p by (simp add: heap_kept_running)
    ultimately show ?thesis using s0(3) by (simp add: kernel_inv_def)
  qed
  show ?thesis
  proof (rule exI [of _ s0], intro conjI allI impI, goal_cases)
    case 1
    show ?case by (rule s0(1))
  next
    case (2 p s ip ex)
    from ready [OF 2] have r: "running s" "ist_pointer DOUBLE_FAULT_IST_INDEX (cpu_tss s) = Some (double_fault_stack_top B)" by simp_all
    from r(1) have "\<exists>s'. deliver E False ip ex s = Stop Halted s' \<and> double_fault_reported E ip s s'"
      unfolding running_def by (intro wp_StopD wp_deliver_bad_stack) auto
    then show ?case unfolding double_fault_reported_def r(2) .
  next
    case (3 p s t l)
    from enter_falha_pilha [OF 3(3,4), of E] show ?case using ready [OF 3(1,2)] by (simp del: str_simps)
  qed
qed

theorem stack_overflow_is_double_fault_witness:
  "\<exists>s0. kernel_main_prologue example_env example_machine example_boot_info (kernel_start (buffer blank_writer) Map.empty []) =
      Ret () s0 \<and>
    (\<exists>s'. deliver example_env False 0x200000 (Page_fault 0x1000 2) s0 = Stop Halted s' \<and> PANICKING s' \<and>
       cpu_stack s' = Some 0x15000)"
proof -
  have "double_fault_stack_top example_machine = 0x15000" by (simp add: double_fault_stack_top_def example_machine_def)
  with stack_overflow_is_double_fault [OF example_kernel_binary example_machine_ok blank_grid example_heap_fits, of "[]"]
  show ?thesis by (fastforce simp: reported_def)
qed

end
