(* ===== verification/Command_Effects.thy ===== *)
theory Command_Effects
  imports Loop_Memory
begin

text \<open>
  What each line does when Enter ends it, for every line. \<open>command_effect\<close> gives the
  effect as the user sees it: a text on the serial port and one on the screen, a cleared
  screen, or a report after which the processor is parked. The only thing it leaves open
  is the address of the box that \<open>mem\<close> shows, which the allocator chooses.
\<close>

section \<open>Effects\<close>

datatype effect = Prints bytes bytes | Clears | Parks bytes bytes

definition exception_effect :: "('pt, 'h) env \<Rightarrow> u64 \<Rightarrow> cpu_exception \<Rightarrow> effect" where
  "exception_effect E ip ex =
     (case fatal_report ex of
        None \<Rightarrow> Prints (str ''[EXCEPTION] breakpoint (int3)'' @ [newline])
                  (str ''[EXCEPTION] breakpoint (#BP) em '' @ fmt_hex ip @ [newline])
      | Some r \<Rightarrow> Parks (serial_report E ip r) (screen_report E ip r))"

definition access_effect :: "('pt, 'h) env \<Rightarrow> fault_site \<Rightarrow> cpu_exception option \<Rightarrow> effect" where
  "access_effect E site r =
     (case r of None \<Rightarrow> Prints [] [] | Some ex \<Rightarrow> exception_effect E (instruction_address E site) ex)"

definition falha_effect :: "('pt, 'h) env \<Rightarrow> 'pt \<Rightarrow> bytes \<Rightarrow> effect" where
  "falha_effect E pt tipo =
     (if tipo = str ''pagina'' then access_effect E read_site (memory_access E pt False (HEAP_START + HEAP_SIZE))
      else if tipo = str ''pilha'' then exception_effect E (instruction_address E call_site) Double_fault
      else if tipo = str ''opcode'' then exception_effect E (instruction_address E ud2_site) Invalid_opcode
      else if tipo = str ''protecao'' then access_effect E write_site (memory_access E pt True 0x8000000000000000)
      else if tipo = str ''breakpoint'' then exception_effect E (instruction_address E int3_site) Breakpoint
      else Prints [] (str ''tipos disponiveis: pagina, pilha, opcode, protecao, breakpoint'' @ [newline]))"

definition command_effect :: "('pt, 'h) env \<Rightarrow> 'pt \<Rightarrow> MemoryInfo \<Rightarrow> usize \<Rightarrow> bytes \<Rightarrow> effect" where
  "command_effect E pt info box line =
     (if trim line = [] then Prints [] []
      else let (name, rest) = split_command (trim line) in
        if name = str ''help'' then Prints [] help_text
        else if name = str ''clear'' then Clears
        else if name = str ''echo'' then Prints [] (rest @ [newline])
        else if name = str ''sobre'' then Prints [] sobre_text
        else if name = str ''panic'' then
          Parks (str ''[PANIC] '' @ panic_command_text @ [newline])
            (newline # str ''[PANIC] '' @ VERSION @ str '' parou: '' @ panic_command_text)
        else if name = str ''mem'' then Prints [] (mem_text info box)
        else if name = str ''falha'' then falha_effect E pt (trim rest)
        else Prints [] (str ''comando desconhecido: '' @ name @ str '' (digite help)'' @ [newline]))"

text \<open>An address that the allocator can give to a box.\<close>

definition box_address :: "usize \<Rightarrow> bool" where
  "box_address p \<longleftrightarrow> HEAP_START \<le> p \<and> p + 4 \<le> HEAP_START + HEAP_SIZE \<and> 4 dvd p"

section \<open>The commands have their effects\<close>

fun has_effect :: "effect \<Rightarrow> ('pt, 'h, 'g) kernel \<Rightarrow> (unit, ('pt, 'h, 'g) kernel) outcome \<Rightarrow> bool" where
  "has_effect (Prints on_serial on_tty) s (Ret u s') \<longleftrightarrow>
     keeps s s' \<and> serial_text s' = serial_text s @ on_serial \<and>
     (\<forall>t. shows_tty (WRITER s) t \<longrightarrow> shows_tty (WRITER s') (tty_write on_tty t))"
| "has_effect Clears s (Ret u s') \<longleftrightarrow>
     keeps s s' \<and> serial_text s' = serial_text s \<and> shows_tty (WRITER s') tty_empty"
| "has_effect (Parks on_serial on_tty) s (Stop e s') \<longleftrightarrow> e = Halted \<and> reported on_serial on_tty s s'"
| "has_effect _ s _ \<longleftrightarrow> False"

lemma has_effect_wp:
  "has_effect (Prints a b) s (m s) =
     wp m (\<lambda>_ s'. keeps s s' \<and> serial_text s' = serial_text s @ a \<and>
       (\<forall>t. shows_tty (WRITER s) t \<longrightarrow> shows_tty (WRITER s') (tty_write b t))) (\<lambda>_ _. False) s"
  "has_effect Clears s (m s) =
     wp m (\<lambda>_ s'. keeps s s' \<and> serial_text s' = serial_text s \<and> shows_tty (WRITER s') tty_empty) (\<lambda>_ _. False) s"
  "has_effect (Parks a b) s (m s) = wp m (\<lambda>_ _. False) (\<lambda>e s'. e = Halted \<and> reported a b s s') s"
  by (cases "m s"; simp add: wp_def)+

lemma has_effect_if:
  "has_effect x s (m s) \<Longrightarrow> has_effect y s (n s) \<Longrightarrow> has_effect (if c then x else y) s ((if c then m else n) s)"
  by simp

lemma runningD:
  "running s \<Longrightarrow> WRITER_lock \<notin> held s \<and> writer_wf (WRITER s) \<and> SERIAL1_lock \<notin> held s \<and> \<not> PANICKING s \<and>
     cpu_idt s = Some IDT \<and> ist_pointer DOUBLE_FAULT_IST_INDEX (cpu_tss s) \<noteq> None"
  by (simp add: running_def)

lemma prints_effect:
  assumes "running s" and "\<And>Q. wp m Q (\<lambda>_ _. False) s = Q () (printed text s)"
  shows "has_effect (Prints [] text) s (m s)"
  using assms(2) keeps_printed [OF assms(1)] by (simp add: has_effect_wp shows_printed)

lemma exception_has_effect:
  assumes "running s"
  shows "has_effect (exception_effect E ip ex) s (deliver E True ip ex s)"
proof (cases "fatal_report ex")
  case None
  then have "ex = Breakpoint" by (cases ex) simp_all
  moreover have "keeps s (printed t (sent a s))" for t a using assms by (simp add: running_def keeps_def printed_wf)
  ultimately show ?thesis
    using runningD [OF assms] None
    by (simp add: exception_effect_def has_effect_wp wp_deliver_breakpoint shows_printed del: str_simps fatal_report.simps)
next
  case (Some r)
  then show ?thesis
    using runningD [OF assms]
    by (auto simp: exception_effect_def has_effect_wp simp del: fatal_report.simps intro!: wp_deliver_fatal [OF Some])
qed

lemma access_has_effect:
  assumes "running s"
  shows "has_effect (access_effect E site (memory_access E (page_tables s) w a)) s (access_memory E site w a s)"
proof (cases "memory_access E (page_tables s) w a")
  case None
  then show ?thesis
    using assms by (simp add: access_effect_def has_effect_wp access_memory_def wp_seq wp_value keeps_def tty_write_def)
next
  case (Some ex)
  then show ?thesis
    using exception_has_effect [OF assms, of E "instruction_address E site" ex]
    by (simp add: access_effect_def access_memory_def kbind_def kget_def)
qed

lemma overflow_has_effect:
  assumes "running s"
  shows "has_effect (exception_effect E (instruction_address E call_site) Double_fault) s (stack_overflow E room s)"
  using runningD [OF assms]
  by (simp add: exception_effect_def has_effect_wp wp_stack_overflow [of E room] del: stack_overflow.simps)
    (auto simp: stack_overflow.simps(1) double_fault_reported_def intro!: wp_deliver_bad_stack)

lemma falha_has_effect:
  assumes "running s"
  shows "has_effect (falha_effect E (page_tables s) (trim tipo)) s (cmd_falha E tipo s)"
proof -
  have "kbind (kres E (usize_add HEAP_START HEAP_SIZE)) (access_memory E read_site False) s =
      access_memory E read_site False (HEAP_START + HEAP_SIZE) s"
    by (simp add: heap_end_ok kres_def kbind_def kret_def)
  moreover have "has_effect (Prints [] (msg @ [newline])) s (println E [msg] s)" for msg
    using runningD [OF assms] by (intro prints_effect [OF assms]) (simp add: wp_println)
  ultimately show ?thesis
    using access_has_effect [OF assms] overflow_has_effect [OF assms] exception_has_effect [OF assms]
    unfolding falha_defs falha_effect_def Let_def by (intro has_effect_if) (simp_all del: str_simps)
qed

lemma mem_has_effect:
  assumes F: "first_fit_heap E ok live slack" "slack \<le> 256" and h: "ok (heap s)" "live (heap s) = {}"
    and s: "running s" "MEMORY_INFO s = Some info"
  shows "\<exists>box. box_address box \<and> has_effect (Prints [] (mem_text info box)) s (cmd_mem E s)"
proof -
  obtain p q1 q2 q3 h1 h2 h3 h4 where r: "heap_alloc E 4 4 (heap s) = (Some p, h1)" "heap_alloc E 16 4 h1 = (Some q1, h2)"
    "heap_realloc E q1 16 4 32 h2 = (Some q2, h3)" "heap_realloc E q2 32 4 64 h3 = (Some q3, h4)" "placed p 4 4 {}"
    by (rule mem_requests_served [OF F h])
  have "keeps s ((printed (mem_text info p) s)\<lparr>heap := h'\<rparr>)" for h'
    using keeps_printed [OF s(1)] by (simp add: keeps_def running_heap)
  moreover have "serial_text (u\<lparr>heap := h'\<rparr>) = serial_text u" for u :: "('a, 'b, 'c) kernel" and h'
    by (simp add: serial_text_def)
  ultimately have "has_effect (Prints [] (mem_text info p)) s (cmd_mem E s)"
    by (simp add: has_effect_wp wp_cmd_mem_served [OF s r(1-4)] shows_printed)
  then show ?thesis using r(5) by (auto simp: placed_def box_address_def)
qed

lemma panic_has_effect:
  assumes "running s" and "kernel_binary E"
  shows "has_effect (Parks (str ''[PANIC] '' @ panic_command_text @ [newline])
    (newline # str ''[PANIC] '' @ VERSION @ str '' parou: '' @ panic_command_text)) s (cmd_panic E s)"
  unfolding has_effect_wp by (intro wp_cmd_panic [OF assms] conjI refl)

lemma clear_has_effect:
  assumes "running s"
  shows "has_effect Clears s (vga_clear_screen E s)"
proof -
  have "wp (vga_clear_screen E) (\<lambda>_ s'. keeps s s' \<and> True) (parked E) s"
    by (rule safeD [OF safe_clear_screen assms]) (rule TrueI)
  then show ?thesis
    using runningD [OF assms] by (simp add: has_effect_wp wp_vga_clear_screen shows_screen_cleared)
qed

lemma execute_has_effect:
  assumes F: "first_fit_heap E ok live slack" "slack \<le> 256" "kernel_binary E" and h: "ok (heap s)" "live (heap s) = {}"
    and s: "running s" "MEMORY_INFO s = Some info"
  shows "\<exists>box. box_address box \<and> has_effect (command_effect E (page_tables s) info box line) s (execute E line s)"
proof -
  obtain box where box: "box_address box" "has_effect (Prints [] (mem_text info box)) s (cmd_mem E s)"
    using mem_has_effect [OF F(1,2) h s] by blast
  obtain name rest where split: "split_command (trim line) = (name, rest)" by (cases "split_command (trim line)")
  have print: "has_effect (Prints [] msg) s (m s)" if "\<And>Q. wp m Q (\<lambda>_ _. False) s = Q () (printed msg s)" for m msg
    using that by (rule prints_effect [OF s(1)])
  note w = runningD [OF s(1)]
  have "has_effect (Prints [] []) s (kret () s)" by (rule print) (simp add: wp_value printed_Nil)
  moreover have "has_effect (Prints [] help_text) s (cmd_help E s)" using w by (intro print) (simp add: wp_cmd_help)
  moreover have "has_effect (Prints [] sobre_text) s (cmd_sobre E s)" using w by (intro print) (simp add: wp_cmd_sobre)
  moreover have "has_effect (Prints [] (rest @ [newline])) s (cmd_echo E rest s)"
    using w by (intro print) (simp add: cmd_echo_def wp_println)
  moreover have "has_effect (Prints [] (str ''comando desconhecido: '' @ name @ str '' (digite help)'' @ [newline])) s
      (println E [str ''comando desconhecido: '', name, str '' (digite help)''] s)"
    using w by (intro print) (simp add: wp_println del: str_simps)
  ultimately have "has_effect (command_effect E (page_tables s) info box line) s (execute E line s)"
    using box(2) clear_has_effect [OF s(1)] panic_has_effect [OF s(1) F(3)] falha_has_effect [OF s(1)] split
    unfolding command_effect_def execute_def Let_def by (simp only: prod.case) (intro has_effect_if)
  then show ?thesis using box(1) by blast
qed

end
