(* ===== verification/Loop_Progress.thy ===== *)
theory Loop_Progress
  imports Main_Loop
begin

text \<open>
  Progress of the loop of \<open>kernel_main\<close>. \<open>drain\<close> is the inner loop of \<^verbatim>\<open>src/main.rs\<close> as
  a function that may not return; it does return, since every turn takes one scancode from
  a queue of at most 16 that no interrupt can fill meanwhile, and it is what the step
  relation performs.
\<close>

section \<open>The inner loop as a function\<close>

partial_function (option) drain ::
  "('pt, 'h) env \<Rightarrow> ('pt, 'h, 'g) kernel \<Rightarrow> (unit, ('pt, 'h, 'g) kernel) outcome option" where
  "drain E s =
     (case next_scancode E s of
        Stop e s1 \<Rightarrow> Some (Stop e s1)
      | Ret next s1 \<Rightarrow>
          (case next of
             None \<Rightarrow> Some (Ret () s1)
           | Some scancode \<Rightarrow>
               (case process_scancode E scancode s1 of
                  Stop e s2 \<Rightarrow> Some (Stop e s2)
                | Ret u s2 \<Rightarrow> drain E s2)))"

text \<open>Where \<open>without_interrupts\<close> leaves the loop for an outcome of its body.\<close>

fun drained :: "bool \<Rightarrow> (unit, ('pt, 'h, 'g) kernel) outcome \<Rightarrow> pc \<times> ('pt, 'h, 'g) kernel" where
  "drained was (Ret u s) = (Before_hlt, if was then s\<lparr>interrupts_enabled := True\<rparr> else s)"
| "drained was (Stop e s) = (Stopped e, s)"

text \<open>One turn of the loop: it goes on in a state, or the loop is over.\<close>

definition drain_turn :: "('pt, 'h) env \<Rightarrow> bool \<Rightarrow> ('pt, 'h, 'g) kernel \<Rightarrow> pc \<times> ('pt, 'h, 'g) kernel" where
  "drain_turn E was s =
     (case next_scancode E s of
        Stop e s1 \<Rightarrow> (Stopped e, s1)
      | Ret None s1 \<Rightarrow> drained was (Ret () s1)
      | Ret (Some scancode) s1 \<Rightarrow>
          (case process_scancode E scancode s1 of
             Stop e s2 \<Rightarrow> (Stopped e, s2)
           | Ret u s2 \<Rightarrow> (Draining was, s2)))"

lemma drain_turn_step: "main_step E (Draining was, s) (drain_turn E was s)"
proof (cases "next_scancode E s")
  case (Ret nxt s1)
  then show ?thesis
    using drain_done [of E s s1 was]
    by (cases nxt) (auto simp: drain_turn_def intro: drain_one drain_stop split: outcome.splits)
qed (auto simp: drain_turn_def intro: pop_stop)

lemma drain_turn_only: "main_step E (Draining was, s) c \<Longrightarrow> \<not> interrupts_enabled s \<Longrightarrow> c = drain_turn E was s"
  by (erule main_step_fromE) (auto simp: drain_turn_def)

lemma drain_step_iff: "\<not> interrupts_enabled s \<Longrightarrow> main_step E (Draining was, s) c \<longleftrightarrow> c = drain_turn E was s"
  using drain_turn_step drain_turn_only by metis

text \<open>A turn that goes on has taken one scancode and keeps the invariant.\<close>

lemma drain_turn_cases:
  assumes "kernel_inv s" and "\<not> interrupts_enabled s"
  obtains (more) c s' where "drain_turn E was s = (Draining was, s')" "drain E s = drain E s'" "kernel_inv s'"
      "\<not> interrupts_enabled s'" "queue_contents (SCANCODE_QUEUE s) = c # queue_contents (SCANCODE_QUEUE s')"
    | (over) r where "drain_turn E was s = drained was r" "drain E s = Some r"
proof -
  obtain q where q: "next_scancode E s =
      Ret (case queue_contents (SCANCODE_QUEUE s) of [] \<Rightarrow> None | c # _ \<Rightarrow> Some c) (s\<lparr>SCANCODE_QUEUE := q\<rparr>)"
    "kernel_inv (s\<lparr>SCANCODE_QUEUE := q\<rparr>)" "queue_contents q = tl (queue_contents (SCANCODE_QUEUE s))"
    using next_scancode_inv [OF assms(1)] by blast
  show ?thesis
  proof (cases "queue_contents (SCANCODE_QUEUE s)")
    case Nil
    then show ?thesis using over [of "Ret () (s\<lparr>SCANCODE_QUEUE := q\<rparr>)"] q(1) by (simp add: drain_turn_def drain.simps)
  next
    case (Cons c cs)
    show ?thesis
    proof (cases "process_scancode E c (s\<lparr>SCANCODE_QUEUE := q\<rparr>)")
      case (Ret u s2)
      then show ?thesis
        using more [of s2 c] Cons q assms(2) process_scancode_inv [OF q(2), of E c]
        by (simp add: drain_turn_def drain.simps [of E s] wp_def)
    next
      case (Stop e s2)
      then show ?thesis using over [of "Stop e s2"] Cons q(1) by (simp add: drain_turn_def drain.simps [of E s])
    qed
  qed
qed

lemma drained_pc: "drained was r \<noteq> (Draining b, s)"
  by (cases r) auto

text \<open>The function and the step relation, along the queue.\<close>

lemma drain_runs:
  assumes "kernel_inv s" and "\<not> interrupts_enabled s"
  shows "\<exists>r n. drain E s = Some r \<and> n \<le> length (queue_contents (SCANCODE_QUEUE s)) \<and>
    (main_step E ^^ Suc n) (Draining was, s) (drained was r)"
  using assms
proof (induction "length (queue_contents (SCANCODE_QUEUE s))" arbitrary: s rule: less_induct)
  case less
  from less.prems show ?case
  proof (cases rule: drain_turn_cases [of s E was])
    case (more c s')
    then obtain r n where "drain E s' = Some r" "n \<le> length (queue_contents (SCANCODE_QUEUE s'))"
      and run: "(main_step E ^^ Suc n) (Draining was, s') (drained was r)"
      using less.hyps [of s'] by auto
    moreover have "main_step E (Draining was, s) (Draining was, s')" using drain_turn_step [of E was s] more(1) by simp
    then have "(main_step E ^^ Suc (Suc n)) (Draining was, s) (drained was r)" using run by (rule relpowp_Suc_I2)
    ultimately show ?thesis using more(2,5) by (intro exI [of _ r] exI [of _ "Suc n"]) simp
  next
    case (over r)
    then have "(main_step E ^^ Suc 0) (Draining was, s) (drained was r)" using drain_turn_step [of E was s] by auto
    then show ?thesis using over(2) by blast
  qed
qed

text \<open>Steps that stay in the inner loop.\<close>

definition stays :: "('pt, 'h) env \<Rightarrow> bool \<Rightarrow> pc \<times> ('pt, 'h, 'g) kernel \<Rightarrow> pc \<times> ('pt, 'h, 'g) kernel \<Rightarrow> bool" where
  "stays E was c c' \<longleftrightarrow> main_step E c c' \<and> fst c' = Draining was"

lemma stays_bounded:
  assumes "kernel_inv s" and "\<not> interrupts_enabled s" and "(stays E was ^^ n) (Draining was, s) c"
  shows "n \<le> length (queue_contents (SCANCODE_QUEUE s))"
  using assms
proof (induction n arbitrary: s)
  case 0
  then show ?case by simp
next
  case (Suc n)
  then obtain c' where c': "stays E was (Draining was, s) c'" "(stays E was ^^ n) c' c" by (meson relpowp_Suc_D2)
  then have turn: "c' = drain_turn E was s" "fst c' = Draining was"
    using Suc.prems(2) by (auto simp: stays_def drain_step_iff)
  from Suc.prems(1,2) show ?case
  proof (cases rule: drain_turn_cases [of s E was])
    case (more x s')
    then show ?thesis using turn c'(2) Suc.IH [of s'] by simp
  next
    case (over r)
    then show ?thesis using turn drained_pc by (metis prod.collapse)
  qed
qed

text \<open>Every run that leaves the inner loop leaves it where the function says.\<close>

lemma drain_leaves:
  assumes "kernel_inv s" and "\<not> interrupts_enabled s" and "(main_step E)\<^sup>*\<^sup>* (Draining was, s) c"
  shows "(\<exists>u. c = (Draining was, u)) \<or> (\<exists>r. drain E s = Some r \<and> (main_step E)\<^sup>*\<^sup>* (drained was r) c)"
  using assms
proof (induction "length (queue_contents (SCANCODE_QUEUE s))" arbitrary: s rule: less_induct)
  case less
  from less.prems(3) show ?case
  proof (cases rule: converse_rtranclpE)
    case base
    then show ?thesis by (metis)
  next
    case (step c')
    then have run: "(main_step E)\<^sup>*\<^sup>* (drain_turn E was s) c" using less.prems(2) drain_step_iff by metis
    from less.prems(1,2) show ?thesis
    proof (cases rule: drain_turn_cases [of s E was])
      case (more x s')
      then show ?thesis using less.hyps [of s'] run by simp
    next
      case (over r)
      then show ?thesis using run by simp
    qed
  qed
qed

section \<open>From the head of the loop\<close>

lemma loop_drained:
  assumes "kernel_inv s" and "drain E (s\<lparr>interrupts_enabled := False\<rparr>) = Some r"
  shows "(main_step E)\<^sup>*\<^sup>* (Loop_head, s) (drained (interrupts_enabled s) r)"
proof -
  let ?d = "s\<lparr>interrupts_enabled := False\<rparr>"
  have "kernel_inv ?d" "\<not> interrupts_enabled ?d" using assms(1) by (simp_all add: kernel_inv_flag)
  then obtain n where "(main_step E ^^ Suc n) (Draining (interrupts_enabled s), ?d) (drained (interrupts_enabled s) r)"
    using drain_runs [of ?d E "interrupts_enabled s"] assms(2) by auto
  then show ?thesis using enter [of E s] by (meson converse_rtranclp_into_rtranclp relpowp_imp_rtranclp)
qed

text \<open>Scancodes that give no byte leave the prompt as it is.\<close>

lemma drain_silent:
  "editing s t l \<Longrightarrow> queue_contents (SCANCODE_QUEUE s) = cs \<Longrightarrow> fst (translate_all cs (SHIFT s)) = [] \<Longrightarrow>
     \<exists>s'. drain E s = Some (Ret () s') \<and> editing s' t l \<and> queue_contents (SCANCODE_QUEUE s') = [] \<and>
       interrupts_enabled s' = interrupts_enabled s"
proof (induction cs arbitrary: s)
  case Nil
  obtain q where "next_scancode E s = Ret None (s\<lparr>SCANCODE_QUEUE := q\<rparr>)" "queue_inv q" "queue_contents q = []"
    using next_scancode_inv [OF editing_start(9) [OF Nil(1)], of E] Nil(2) by (auto simp: kernel_inv_def)
  then show ?case using editing_input(2) [OF Nil(1)] by (simp add: drain.simps)
next
  case (Cons c cs)
  obtain q where q: "next_scancode E s = Ret (Some c) (s\<lparr>SCANCODE_QUEUE := q\<rparr>)" "queue_inv q" "queue_contents q = cs"
    using next_scancode_inv [OF editing_start(9) [OF Cons.prems(1)], of E] Cons.prems(2) by (auto simp: kernel_inv_def)
  let ?s = "s\<lparr>SCANCODE_QUEUE := q, SHIFT := snd (translate c (SHIFT s))\<rparr>"
  have ed: "editing (s\<lparr>SCANCODE_QUEUE := q\<rparr>) t l" using Cons.prems(1) q(2) by (rule editing_input)
  have tr: "fst (translate c (SHIFT s)) = None" "fst (translate_all cs (snd (translate c (SHIFT s)))) = []"
    using Cons.prems(3) by (simp_all add: case_prod_unfold Let_def split: option.splits)
  have "process_scancode E c (s\<lparr>SCANCODE_QUEUE := q\<rparr>) = Ret () ?s"
    using process_scancode_eq [OF editing_start(9) [OF ed], of E c] tr(1) by (simp add: kret_def)
  moreover have "editing ?s t l" using editing_input(1) [OF ed] by simp
  ultimately show ?case using Cons.IH [of ?s] q tr(2) by (simp add: drain.simps [of E s])
qed

lemma quiet_turn:
  assumes "editing s t l" and "queue_contents (SCANCODE_QUEUE s) = cs" and "fst (translate_all cs (SHIFT s)) = []"
  shows "\<exists>s'. (main_step E)\<^sup>*\<^sup>* (Loop_head, s) (Before_hlt, s') \<and> editing s' t l \<and>
    queue_contents (SCANCODE_QUEUE s') = [] \<and> interrupts_enabled s' = interrupts_enabled s"
proof -
  let ?d = "s\<lparr>interrupts_enabled := False\<rparr>"
  have "editing ?d t l" "queue_contents (SCANCODE_QUEUE ?d) = cs" "fst (translate_all cs (SHIFT ?d)) = []"
    using assms by (simp_all add: editing_flag)
  from drain_silent [OF this, of E] obtain s' where s': "drain E ?d = Some (Ret () s')" "editing s' t l"
    "queue_contents (SCANCODE_QUEUE s') = []" "\<not> interrupts_enabled s'" by auto
  let ?u = "if interrupts_enabled s then s'\<lparr>interrupts_enabled := True\<rparr> else s'"
  have "(main_step E)\<^sup>*\<^sup>* (Loop_head, s) (Before_hlt, ?u)"
    using loop_drained [OF editing_start(9) [OF assms(1)] s'(1)] by (simp cong: if_cong)
  then show ?thesis using s'(2-) by (intro exI [of _ ?u]) (simp add: editing_flag)
qed

section \<open>Properties\<close>

text \<open>
  C4. The inner loop of \<open>kernel_main\<close> terminates: from every state it can be entered in it
  returns or parks the processor, after at most one turn more than there are scancodes in
  the queue, of which there are at most 16; and no run stays in it for longer, since
  interrupts, which would add scancodes, are disabled there.
\<close>

theorem drain_terminates:
  assumes "kernel_inv s" and "\<not> interrupts_enabled s"
  shows "(\<exists>r. drain E s = Some r \<and>
      (\<exists>n \<le> length (queue_contents (SCANCODE_QUEUE s)). (main_step E ^^ Suc n) (Draining was, s) (drained was r))) \<and>
    (\<forall>n c. (stays E was ^^ n) (Draining was, s) c \<longrightarrow> n \<le> length (queue_contents (SCANCODE_QUEUE s))) \<and>
    length (queue_contents (SCANCODE_QUEUE s)) \<le> 16"
proof -
  have "length (queue_contents (SCANCODE_QUEUE s)) \<le> SCANCODE_QUEUE_CAPACITY"
    using assms(1) by (intro scancode_fifo.contents_bound) (simp add: kernel_inv_def)
  then show ?thesis
    using drain_runs [OF assms, of E was] stays_bounded [OF assms] unfolding SCANCODE_QUEUE_CAPACITY_def by blast
qed

theorem drain_terminates_witness:
  "\<exists>r. drain example_env (prompt_kernel\<lparr>interrupts_enabled := False\<rparr>) = Some r"
proof -
  have "kernel_inv (prompt_kernel\<lparr>interrupts_enabled := False\<rparr>)"
    using editing_start(9) [OF prompt_kernel_editing] by (simp add: kernel_inv_flag)
  from drain_terminates [OF this, of example_env False] show ?thesis by auto
qed

end
