(* ===== verification/Session_Runs.thy ===== *)
theory Session_Runs
  imports Command_Effects Loop_Progress
begin

text \<open>
  A whole run of the kernel, for every input. \<open>session_run\<close> is the specification: what a
  sequence of bytes makes of the screen, the line and the serial port, whatever the lines
  are, up to the point where a command parks the processor. \<open>run_bursts\<close> is the machine:
  scancodes arrive in bursts while the processor sleeps, each burst is queued by the
  interrupt handler, and the loop of \<open>kernel_main\<close> turns once. The machine follows the
  specification.
\<close>

section \<open>The specification\<close>

datatype session_state = Active tty bytes bytes | Parked tty bytes

text \<open>The screen, the line being edited and the serial text; nothing happens once parked.\<close>

fun session_byte ::
  "('pt, 'h) env \<Rightarrow> 'pt \<Rightarrow> MemoryInfo \<Rightarrow> u8 \<times> usize \<Rightarrow> session_state \<Rightarrow> session_state" where
  "session_byte E pt info (b, box) (Active t l out) =
     (if b = newline then
        case command_effect E pt info box l of
          Prints on_serial on_tty \<Rightarrow> Active (tty_write (newline # on_tty @ PROMPT) t) [] (out @ on_serial)
        | Clears \<Rightarrow> Active \<lparr>past = [], current = PROMPT\<rparr> [] out
        | Parks on_serial on_tty \<Rightarrow> Parked (tty_write (newline # on_tty) t) (out @ on_serial)
      else Active (tty_edit b l t) (line_spec b l) out)"
| "session_byte E pt info (b, box) (Parked t out) = Parked t out"

text \<open>Each byte comes with the address that the allocator would give to a box.\<close>

definition session_run ::
  "('pt, 'h) env \<Rightarrow> 'pt \<Rightarrow> MemoryInfo \<Rightarrow> (u8 \<times> usize) list \<Rightarrow> session_state \<Rightarrow> session_state" where
  "session_run E pt info bs = fold (session_byte E pt info) bs"

definition boxes_for :: "bytes \<Rightarrow> (u8 \<times> usize) list \<Rightarrow> bool" where
  "boxes_for bs xs \<longleftrightarrow> map fst xs = bs \<and> list_all (box_address \<circ> snd) xs"

section \<open>The machine\<close>

text \<open>One turn of the outer loop, from its head to the next sleep.\<close>

definition loop_turn :: "('pt, 'h) env \<Rightarrow> ('pt, 'h, 'g) kernel \<Rightarrow> (pc \<times> ('pt, 'h, 'g) kernel) option" where
  "loop_turn E s =
     (case drain E (s\<lparr>interrupts_enabled := False\<rparr>) of
        None \<Rightarrow> None
      | Some (Stop e s') \<Rightarrow> Some (Stopped e, s')
      | Some (Ret u s') \<Rightarrow> Some (Sleeping, s'\<lparr>interrupts_enabled := True\<rparr>))"

text \<open>The scancodes of a burst arrive, and the loop turns.\<close>

definition run_burst :: "('pt, 'h) env \<Rightarrow> u8 list \<Rightarrow> ('pt, 'h, 'g) kernel \<Rightarrow> (pc \<times> ('pt, 'h, 'g) kernel) option" where
  "run_burst E cs s =
     (case kfor cs (keyboard_irq E) s of
        Stop e s' \<Rightarrow> Some (Stopped e, s')
      | Ret u s' \<Rightarrow> loop_turn E s')"

fun run_bursts ::
  "('pt, 'h) env \<Rightarrow> u8 list list \<Rightarrow> pc \<times> ('pt, 'h, 'g) kernel \<Rightarrow> (pc \<times> ('pt, 'h, 'g) kernel) option" where
  "run_bursts E (cs # css) (Sleeping, s) = Option.bind (run_burst E cs s) (run_bursts E css)"
| "run_bursts E css c = Some c"

section \<open>One byte\<close>

text \<open>The memory of a kernel between two commands.\<close>

definition memory_at ::
  "('h \<Rightarrow> bool) \<Rightarrow> ('h \<Rightarrow> (usize \<times> usize) set) \<Rightarrow> MemoryInfo \<Rightarrow> 'pt \<Rightarrow> ('pt, 'h, 'g) kernel \<Rightarrow> bool" where
  "memory_at ok live info pt s \<longleftrightarrow>
     ok (heap s) \<and> live (heap s) = {} \<and> MEMORY_INFO s = Some info \<and> page_tables s = pt"

fun follows :: "(('pt, 'h, 'g) kernel \<Rightarrow> bool) \<Rightarrow> session_state \<Rightarrow> (unit, ('pt, 'h, 'g) kernel) outcome \<Rightarrow> bool" where
  "follows M (Active t l out) (Ret u s) \<longleftrightarrow> editing s t l \<and> serial_text s = out \<and> M s"
| "follows M (Parked t out) (Stop e s) \<longleftrightarrow> e = Halted \<and> PANICKING s \<and> shows_tty (WRITER s) t \<and> serial_text s = out"
| "follows M _ _ \<longleftrightarrow> False"

lemma follows_wp:
  "follows M (Active t l out) (m s) = wp m (\<lambda>_ s'. editing s' t l \<and> serial_text s' = out \<and> M s') (\<lambda>_ _. False) s"
  "follows M (Parked t out) (m s) =
     wp m (\<lambda>_ _. False) (\<lambda>e s'. e = Halted \<and> PANICKING s' \<and> shows_tty (WRITER s') t \<and> serial_text s' = out) s"
  by (cases "m s"; simp add: wp_def)+

lemma follows_and: "follows M r o1 \<Longrightarrow> (\<And>s. o1 = Ret () s \<Longrightarrow> M' s) \<Longrightarrow> follows M' r o1"
  by (cases r; cases o1) simp_all

lemma tty_newline: "tty_write x (tty_write [newline] t) = tty_write (newline # x) t"
  by (simp add: tty_write_def)

lemma wp_prompt_after:
  assumes "editing s t l" and "keeps ((printed [newline] s)\<lparr>held := {LINE_lock}\<rparr>) s'" and "shows_tty (WRITER s') u"
    and "serial_text s' = out"
  shows "wp (print_prompt E) (\<lambda>_ s'. editing s' (tty_write PROMPT u) [] \<and> serial_text s' = out) (\<lambda>_ _. False)
    (s'\<lparr>LINE := LineBuffer_clear (LINE s'), held := held s' - {LINE_lock}\<rparr>)"
proof -
  let ?u = "s'\<lparr>LINE := LineBuffer_clear (LINE s'), held := held s' - {LINE_lock}\<rparr>"
  have "editing ?u u []" by (rule editing_after_command [OF assms(1,3,2)])
  moreover have "serial_text (printed PROMPT ?u) = out" using assms(4) by (simp add: serial_text_def)
  ultimately show ?thesis by (auto intro: wp_print_prompt)
qed

lemma enter_session:
  assumes F: "first_fit_heap E ok live slack" "slack \<le> 256" "kernel_binary E" and M: "memory_at ok live info pt s" and ed: "editing s t l"
  shows "\<exists>box. box_address box \<and>
    follows (\<lambda>_. True) (session_byte E pt info (newline, box) (Active t l (serial_text s))) (feed E newline s)"
proof -
  let ?s = "(printed [newline] s)\<lparr>held := {LINE_lock}\<rparr>"
  note locked = editing_locked [OF ed]
  have mem: "ok (heap ?s)" "live (heap ?s) = {}" "MEMORY_INFO ?s = Some info" "page_tables ?s = pt"
    using M by (simp_all add: memory_at_def)
  obtain box where box: "box_address box" "has_effect (command_effect E pt info box l) ?s (execute E l ?s)"
    using execute_has_effect [OF F mem(1,2) locked(3) mem(3), of l] mem(4) by auto
  have serial: "serial_text ?s = serial_text s" by (simp add: serial_text_def)
  have "follows (\<lambda>_. True) (session_byte E pt info (newline, box) (Active t l (serial_text s))) (feed E newline s)"
  proof (cases "command_effect E pt info box l")
    case (Prints a b)
    have "wp (feed E newline) (\<lambda>_ s'. editing s' (tty_write PROMPT (tty_write b (tty_write [newline] t))) [] \<and>
        serial_text s' = serial_text s @ a) (\<lambda>_ _. False) s"
      unfolding wp_feed_enter [OF ed]
      by (rule wp_mono [OF box(2) [unfolded Prints has_effect_wp]])
        (use locked(4) serial in \<open>auto intro!: wp_prompt_after [OF ed]\<close>)
    then show ?thesis using Prints by (simp add: follows_wp tty_write_def)
  next
    case Clears
    have "wp (feed E newline) (\<lambda>_ s'. editing s' (tty_write PROMPT tty_empty) [] \<and> serial_text s' = serial_text s)
        (\<lambda>_ _. False) s"
      unfolding wp_feed_enter [OF ed]
      by (rule wp_mono [OF box(2) [unfolded Clears has_effect_wp]])
        (use serial in \<open>auto intro!: wp_prompt_after [OF ed]\<close>)
    then show ?thesis using Clears by (simp add: follows_wp prompt_alone)
  next
    case (Parks a b)
    have "wp (feed E newline) (\<lambda>_ _. False) (\<lambda>e s'. e = Halted \<and> PANICKING s' \<and>
        shows_tty (WRITER s') (tty_write b (tty_write [newline] t)) \<and> serial_text s' = serial_text s @ a) s"
      unfolding wp_feed_enter [OF ed]
      by (rule wp_mono [OF box(2) [unfolded Parks has_effect_wp]])
        (use locked(4) serial in \<open>auto simp: reported_def\<close>)
    then show ?thesis using Parks by (simp add: follows_wp tty_newline)
  qed
  then show ?thesis using box(1) by blast
qed

lemma feed_session_byte:
  fixes s :: "('pt, 'h, 'g) kernel"
  assumes F: "first_fit_heap E ok live slack" "slack \<le> 256" "kernel_binary E" and M: "memory_at ok live info pt s" and ed: "editing s t l"
  shows "\<exists>box. box_address box \<and>
    follows (\<lambda>s'. memory_at ok live info pt s' \<and> input_frame s s')
      (session_byte E pt info (b, box) (Active t l (serial_text s))) (feed E b s)"
proof -
  have "box_address HEAP_START" by (simp add: box_address_def HEAP_START_def HEAP_SIZE_def)
  then obtain box where box: "box_address box"
    "follows (\<lambda>_. True) (session_byte E pt info (b, box) (Active t l (serial_text s))) (feed E b s)"
    using enter_session [OF F M ed]
    by (cases "b = newline") (auto simp: follows_wp intro!: wp_feed_edit [OF ed])
  have "memory_at ok live info pt s' \<and> input_frame s s'" if "feed E b s = Ret () s'" for s'
    using wp_feed_keeps [OF editing_start(9) [OF ed] mem_keeps_heap_free [OF F(1,2)], of b] M that
    by (auto simp: wp_def memory_at_def input_frame_def)
  then have "follows (\<lambda>s'. memory_at ok live info pt s' \<and> input_frame s s')
      (session_byte E pt info (b, box) (Active t l (serial_text s))) (feed E b s)"
    by (rule follows_and [OF box(2)])
  then show ?thesis using box(1) by blast
qed

section \<open>One turn of the loop\<close>

lemma session_run_simps [simp]:
  "session_run E pt info [] r = r"
  "session_run E pt info (x # xs) r = session_run E pt info xs (session_byte E pt info x r)"
  by (simp_all add: session_run_def)

lemma session_run_append: "session_run E pt info (xs @ ys) r = session_run E pt info ys (session_run E pt info xs r)"
  by (simp add: session_run_def)

lemma session_run_parked: "session_run E pt info xs (Parked t out) = Parked t out"
proof (induction xs)
  case (Cons x xs)
  then show ?case by (cases x) simp
qed simp

lemma boxes_exist: "\<exists>xs. boxes_for bs xs"
  by (intro exI [of _ "map (\<lambda>b. (b, HEAP_START)) bs"])
    (simp add: boxes_for_def comp_def list_all_iff box_address_def HEAP_START_def HEAP_SIZE_def)

lemma boxes_for_simps:
  "boxes_for [] []"
  "boxes_for bs xs \<Longrightarrow> box_address box \<Longrightarrow> boxes_for (b # bs) ((b, box) # xs)"
  "boxes_for bs xs \<Longrightarrow> boxes_for cs ys \<Longrightarrow> boxes_for (bs @ cs) (xs @ ys)"
  by (simp_all add: boxes_for_def)

lemma memory_at_input:
  "memory_at ok live info pt (s\<lparr>SHIFT := sh\<rparr>) = memory_at ok live info pt s"
  "memory_at ok live info pt (s\<lparr>SCANCODE_QUEUE := q\<rparr>) = memory_at ok live info pt s"
  "memory_at ok live info pt (s\<lparr>interrupts_enabled := b\<rparr>) = memory_at ok live info pt s"
  by (simp_all add: memory_at_def)

lemma serial_input:
  "serial_text (s\<lparr>SHIFT := sh\<rparr>) = serial_text s"
  "serial_text (s\<lparr>SCANCODE_QUEUE := q\<rparr>) = serial_text s"
  "serial_text (s\<lparr>interrupts_enabled := b\<rparr>) = serial_text s"
  by (simp_all add: serial_text_def)

lemma process_session_byte:
  assumes F: "first_fit_heap E ok live slack" "slack \<le> 256" "kernel_binary E" and M: "memory_at ok live info pt s" and ed: "editing s t l"
  shows "\<exists>xs. boxes_for (fst (translate_all [c] (SHIFT s))) xs \<and>
    follows (\<lambda>s'. memory_at ok live info pt s' \<and> SCANCODE_QUEUE s' = SCANCODE_QUEUE s \<and> SHIFT s' = snd (translate c (SHIFT s)))
      (session_run E pt info xs (Active t l (serial_text s))) (process_scancode E c s)"
proof -
  let ?s = "s\<lparr>SHIFT := snd (translate c (SHIFT s))\<rparr>"
  note eq = process_scancode_eq [OF editing_start(9) [OF ed], of E c]
  have s: "memory_at ok live info pt ?s" "editing ?s t l" "serial_text ?s = serial_text s"
    using M editing_input(1) [OF ed] by (simp_all add: memory_at_input serial_input)
  show ?thesis
  proof (cases "fst (translate c (SHIFT s))")
    case None
    then show ?thesis
      using eq s by (intro exI [of _ "[]"]) (simp add: kret_def boxes_for_def case_prod_unfold)
  next
    case (Some b)
    obtain box where box: "box_address box" "follows (\<lambda>s'. memory_at ok live info pt s' \<and> input_frame ?s s')
        (session_byte E pt info (b, box) (Active t l (serial_text s))) (feed E b ?s)"
      using feed_session_byte [OF F s(1,2), of b] s(3) by auto
    have "boxes_for (fst (translate_all [c] (SHIFT s))) [(b, box)]"
      using Some box(1) by (simp add: boxes_for_def case_prod_unfold)
    moreover have "follows (\<lambda>s'. memory_at ok live info pt s' \<and> SCANCODE_QUEUE s' = SCANCODE_QUEUE s \<and>
        SHIFT s' = snd (translate c (SHIFT s))) (session_byte E pt info (b, box) (Active t l (serial_text s))) (feed E b ?s)"
      using box(2) by (cases "session_byte E pt info (b, box) (Active t l (serial_text s))"; cases "feed E b ?s")
        (auto simp: input_frame_def simp del: session_byte.simps)
    ultimately show ?thesis using eq Some by (intro exI [of _ "[(b, box)]"]) (simp del: session_byte.simps translate_all.simps)
  qed
qed

lemma drain_session_run:
  assumes F: "first_fit_heap E ok live slack" "slack \<le> 256" "kernel_binary E"
  shows "memory_at ok live info pt s \<Longrightarrow> editing s t l \<Longrightarrow> queue_contents (SCANCODE_QUEUE s) = cs \<Longrightarrow>
    \<exists>xs r. boxes_for (fst (translate_all cs (SHIFT s))) xs \<and> drain E s = Some r \<and>
      follows (\<lambda>s'. memory_at ok live info pt s' \<and> queue_contents (SCANCODE_QUEUE s') = [] \<and>
        SHIFT s' = snd (translate_all cs (SHIFT s))) (session_run E pt info xs (Active t l (serial_text s))) r"
proof (induction cs arbitrary: s t l)
  case Nil
  obtain q where "next_scancode E s = Ret None (s\<lparr>SCANCODE_QUEUE := q\<rparr>)" "queue_inv q" "queue_contents q = []"
    using next_scancode_inv [OF editing_start(9) [OF Nil(2)], of E] Nil(3) by (auto simp: kernel_inv_def)
  then show ?case
    using Nil editing_input(2) [OF Nil(2)]
    by (intro exI [of _ "[]"] exI [of _ "Ret () (s\<lparr>SCANCODE_QUEUE := q\<rparr>)"])
      (simp add: drain.simps memory_at_input serial_input boxes_for_simps)
next
  case (Cons c cs)
  obtain q where q: "next_scancode E s = Ret (Some c) (s\<lparr>SCANCODE_QUEUE := q\<rparr>)" "queue_inv q" "queue_contents q = cs"
    using next_scancode_inv [OF editing_start(9) [OF Cons.prems(2)], of E] Cons.prems(3) by (auto simp: kernel_inv_def)
  let ?s = "s\<lparr>SCANCODE_QUEUE := q\<rparr>" and ?one = "fst (translate_all [c] (SHIFT s))" and ?sh = "snd (translate c (SHIFT s))"
  have s: "memory_at ok live info pt ?s" "editing ?s t l" "serial_text ?s = serial_text s" "SHIFT ?s = SHIFT s"
    using Cons.prems(1) editing_input(2) [OF Cons.prems(2) q(2)] by (simp_all add: memory_at_input serial_input)
  have tr: "fst (translate_all (c # cs) (SHIFT s)) = ?one @ fst (translate_all cs ?sh)"
    "snd (translate_all (c # cs) (SHIFT s)) = snd (translate_all cs ?sh)"
    by (simp_all add: case_prod_unfold Let_def split: option.splits)
  obtain xs where xs: "boxes_for ?one xs" "follows (\<lambda>s'. memory_at ok live info pt s' \<and> SCANCODE_QUEUE s' = q \<and> SHIFT s' = ?sh)
      (session_run E pt info xs (Active t l (serial_text s))) (process_scancode E c ?s)"
    using process_session_byte [OF F s(1,2), of c] unfolding s(3,4) by auto
  show ?case
  proof (cases "process_scancode E c ?s")
    case (Ret u s2)
    with xs(2) obtain t2 l2 where s2: "session_run E pt info xs (Active t l (serial_text s)) = Active t2 l2 (serial_text s2)"
      "editing s2 t2 l2" "memory_at ok live info pt s2" "SCANCODE_QUEUE s2 = q" "SHIFT s2 = ?sh"
      by (cases "session_run E pt info xs (Active t l (serial_text s))") auto
    obtain ys r where "boxes_for (fst (translate_all cs ?sh)) ys" "drain E s2 = Some r"
      "follows (\<lambda>s'. memory_at ok live info pt s' \<and> queue_contents (SCANCODE_QUEUE s') = [] \<and>
        SHIFT s' = snd (translate_all cs ?sh)) (session_run E pt info ys (Active t2 l2 (serial_text s2))) r"
      using Cons.IH [OF s2(3,2)] q(3) s2(4,5) by auto
    then show ?thesis
      using boxes_for_simps(3) [OF xs(1)] s2(1) Ret q(1) unfolding tr
      by (intro exI [of _ "xs @ ys"] exI [of _ r]) (simp add: drain.simps [of E s] session_run_append)
  next
    case (Stop e s2)
    with xs(2) obtain t2 out where s2: "session_run E pt info xs (Active t l (serial_text s)) = Parked t2 out"
      by (cases "session_run E pt info xs (Active t l (serial_text s))") auto
    obtain ys where "boxes_for (fst (translate_all cs ?sh)) ys" using boxes_exist by blast
    then show ?thesis
      using boxes_for_simps(3) [OF xs(1)] s2 xs(2) Stop q(1) unfolding tr
      by (intro exI [of _ "xs @ ys"] exI [of _ "Stop e s2"])
        (simp add: drain.simps [of E s] session_run_append session_run_parked)
  qed
qed

section \<open>Bursts\<close>

text \<open>The kernel as the specification sees it, between two bursts.\<close>

fun presents :: "session_state \<Rightarrow> pc \<times> ('pt, 'h, 'g) kernel \<Rightarrow> bool" where
  "presents (Active t l out) (p, s) \<longleftrightarrow> p = Sleeping \<and> idle s t l \<and> serial_text s = out"
| "presents (Parked t out) (p, s) \<longleftrightarrow> p = Stopped Halted \<and> PANICKING s \<and> shows_tty (WRITER s) t \<and> serial_text s = out"

lemma loop_turn_steps:
  assumes "kernel_inv s" and "loop_turn E s = Some c"
  shows "(main_step E)\<^sup>*\<^sup>* (Loop_head, s) c"
proof -
  obtain r where r: "drain E (s\<lparr>interrupts_enabled := False\<rparr>) = Some r"
    using assms(2) by (auto simp: loop_turn_def split: option.splits)
  note run = loop_drained [OF assms(1) r]
  show ?thesis
  proof (cases r)
    case (Ret u s')
    then have "main_step E (drained (interrupts_enabled s) r) c" using assms(2) r hlt [of E s'] hlt [of E "s'\<lparr>interrupts_enabled := True\<rparr>"] by (simp add: loop_turn_def split: if_splits)
    then show ?thesis using run by (rule rtranclp.rtrancl_into_rtrancl [rotated])
  next
    case (Stop e s')
    then show ?thesis using assms(2) r run by (simp add: loop_turn_def)
  qed
qed

lemma loop_turn_session:
  assumes F: "first_fit_heap E ok live slack" "slack \<le> 256" "kernel_binary E" and M: "memory_at ok live info pt s" and ed: "editing s t l"
    and cs: "queue_contents (SCANCODE_QUEUE s) = cs"
  shows "\<exists>xs p s'. boxes_for (fst (translate_all cs (SHIFT s))) xs \<and> loop_turn E s = Some (p, s') \<and>
    (main_step E)\<^sup>*\<^sup>* (Loop_head, s) (p, s') \<and>
    presents (session_run E pt info xs (Active t l (serial_text s))) (p, s') \<and>
    (p = Sleeping \<longrightarrow> memory_at ok live info pt s' \<and> SHIFT s' = snd (translate_all cs (SHIFT s)))"
proof -
  let ?d = "s\<lparr>interrupts_enabled := False\<rparr>"
  have d: "memory_at ok live info pt ?d" "editing ?d t l" "queue_contents (SCANCODE_QUEUE ?d) = cs" "serial_text ?d = serial_text s"
    using M ed cs by (simp_all add: memory_at_input editing_flag serial_input)
  obtain xs r where r: "boxes_for (fst (translate_all cs (SHIFT s))) xs" "drain E ?d = Some r"
    "follows (\<lambda>s'. memory_at ok live info pt s' \<and> queue_contents (SCANCODE_QUEUE s') = [] \<and>
      SHIFT s' = snd (translate_all cs (SHIFT s))) (session_run E pt info xs (Active t l (serial_text s))) r"
    using drain_session_run [OF F d(1-3)] unfolding d(4) by auto
  obtain p s' where c: "loop_turn E s = Some (p, s')"
    "presents (session_run E pt info xs (Active t l (serial_text s))) (p, s')"
    "p = Sleeping \<longrightarrow> memory_at ok live info pt s' \<and> SHIFT s' = snd (translate_all cs (SHIFT s))"
    using r(2,3) that
    by (cases "session_run E pt info xs (Active t l (serial_text s))"; cases r)
      (auto simp: loop_turn_def idle_def editing_flag memory_at_input serial_input)
  then show ?thesis using r(1) loop_turn_steps [OF editing_start(9) [OF ed] c(1)] by blast
qed

text \<open>The handler queues the scancodes of a burst; the queue keeps the last 16.\<close>

lemma burst_arrives:
  assumes "editing s t l" and "interrupts_enabled s" and "memory_at ok live info pt s"
  shows "\<exists>s'. kfor cs (keyboard_irq E) s = Ret () s' \<and> (main_step E)\<^sup>*\<^sup>* (Loop_head, s) (Loop_head, s') \<and>
    editing s' t l \<and> memory_at ok live info pt s' \<and> serial_text s' = serial_text s \<and> SHIFT s' = SHIFT s \<and>
    queue_contents (SCANCODE_QUEUE s') = keep_last SCANCODE_QUEUE_CAPACITY (queue_contents (SCANCODE_QUEUE s) @ cs)"
  using assms
proof (induction cs arbitrary: s)
  case Nil
  then have "length (queue_contents (SCANCODE_QUEUE s)) \<le> SCANCODE_QUEUE_CAPACITY"
    using scancode_fifo.contents_bound by (auto simp: editing_def kernel_inv_def)
  then show ?case using Nil by (intro exI [of _ s]) (simp add: keep_last_id kret_def)
next
  case (Cons c cs)
  obtain s1 where s1: "keyboard_irq E c s = Ret () s1" "editing s1 t l" "SHIFT s1 = SHIFT s" "interrupts_enabled s1"
    "queue_contents (SCANCODE_QUEUE s1) = keep_last SCANCODE_QUEUE_CAPACITY (queue_contents (SCANCODE_QUEUE s) @ [c])"
    using irq_editing_queue [OF Cons.prems(1), of E c] Cons.prems(2) by auto
  note same = keyboard_irq_memory [OF editing_start(9) [OF Cons.prems(1)] s1(1)]
  have "memory_at ok live info pt s1" using Cons.prems(3) same by (simp add: memory_at_def)
  from Cons.IH [OF s1(2,4) this] obtain s' where s': "kfor cs (keyboard_irq E) s1 = Ret () s'"
    "(main_step E)\<^sup>*\<^sup>* (Loop_head, s1) (Loop_head, s')" "editing s' t l" "memory_at ok live info pt s'"
    "serial_text s' = serial_text s1" "SHIFT s' = SHIFT s1"
    "queue_contents (SCANCODE_QUEUE s') = keep_last SCANCODE_QUEUE_CAPACITY (queue_contents (SCANCODE_QUEUE s1) @ cs)"
    by blast
  have "main_step E (Loop_head, s) (Loop_head, s1)" using irq [of s Loop_head E c s1] Cons.prems(2) s1(1) by simp
  then have "(main_step E)\<^sup>*\<^sup>* (Loop_head, s) (Loop_head, s')" using s'(2) by (rule converse_rtranclp_into_rtranclp)
  then show ?case
    using s' s1 same(4,5) by (intro exI [of _ s']) (simp add: keep_last_keep_last kthen_def kbind_def)
qed

lemma burst_wakes:
  assumes "idle s t l" and "memory_at ok live info pt s" and "cs \<noteq> []"
  shows "\<exists>s'. kfor cs (keyboard_irq E) s = Ret () s' \<and> (main_step E)\<^sup>*\<^sup>* (Sleeping, s) (Loop_head, s') \<and>
    editing s' t l \<and> memory_at ok live info pt s' \<and> serial_text s' = serial_text s \<and> SHIFT s' = SHIFT s \<and>
    queue_contents (SCANCODE_QUEUE s') = keep_last SCANCODE_QUEUE_CAPACITY cs"
proof -
  have s: "editing s t l" "interrupts_enabled s" "queue_contents (SCANCODE_QUEUE s) = []" using assms(1) by (simp_all add: idle_def)
  obtain c ds where cs: "cs = c # ds" using assms(3) by (cases cs) auto
  obtain s1 where s1: "keyboard_irq E c s = Ret () s1" "editing s1 t l" "SHIFT s1 = SHIFT s" "interrupts_enabled s1"
    "queue_contents (SCANCODE_QUEUE s1) = [c]"
    using irq_editing [OF s(1,3), of E c] s(2) by auto
  note same = keyboard_irq_memory [OF editing_start(9) [OF s(1)] s1(1)]
  have "memory_at ok live info pt s1" using assms(2) same by (simp add: memory_at_def)
  from burst_arrives [OF s1(2,4) this, of ds E] obtain s' where s': "kfor ds (keyboard_irq E) s1 = Ret () s'"
    "(main_step E)\<^sup>*\<^sup>* (Loop_head, s1) (Loop_head, s')" "editing s' t l" "memory_at ok live info pt s'"
    "serial_text s' = serial_text s1" "SHIFT s' = SHIFT s1"
    "queue_contents (SCANCODE_QUEUE s') = keep_last SCANCODE_QUEUE_CAPACITY cs" using s1(5) cs by auto
  have "main_step E (Sleeping, s) (Loop_head, s1)" using irq [of s Sleeping E c s1] s(2) s1(1) by simp
  then have "(main_step E)\<^sup>*\<^sup>* (Sleeping, s) (Loop_head, s')" using s'(2) by (rule converse_rtranclp_into_rtranclp)
  then show ?thesis using s' s1 same(4,5) cs by (intro exI [of _ s']) (simp add: kthen_def kbind_def)
qed

text \<open>
  Nothing but the queue, the data register of the keyboard and the log of the interrupt
  controllers changes when a burst arrives.
\<close>

definition burst_taken :: "u8 list \<Rightarrow> ('pt, 'h, 'g) kernel \<Rightarrow> ('pt, 'h, 'g) kernel \<Rightarrow> bool" where
  "burst_taken cs s s' \<longleftrightarrow>
     s' = s\<lparr>SCANCODE_QUEUE := SCANCODE_QUEUE s', keyboard_data := last (keyboard_data s # cs),
       pic_log := pic_log s @ replicate (length cs) (Pics_notify_end_of_interrupt KEYBOARD_INTERRUPT_VECTOR)\<rparr>"

lemma burst_frame:
  "kernel_inv s \<Longrightarrow> kfor cs (keyboard_irq E) s = Ret () s' \<Longrightarrow> burst_taken cs s s'"
proof (induction cs arbitrary: s)
  case Nil
  then show ?case by (simp add: kret_def burst_taken_def)
next
  case (Cons c cs)
  obtain s1 where s1: "keyboard_irq E c s = Ret () s1" "scancode_taken c s s1" "kernel_inv s1"
    using keyboard_irq_inv [OF Cons.prems(1)] by blast
  have "burst_taken cs s1 s'" using Cons.IH [OF s1(3)] Cons.prems(2) s1(1) by (simp add: kthen_def kbind_def)
  moreover have "s1 = s\<lparr>SCANCODE_QUEUE := SCANCODE_QUEUE s1, keyboard_data := c,
      pic_log := pic_log s @ [Pics_notify_end_of_interrupt KEYBOARD_INTERRUPT_VECTOR]\<rparr>"
    using s1(2) by (simp add: scancode_taken_def)
  ultimately show ?case
    unfolding burst_taken_def by (cases s; cases s1; cases s') simp
qed

text \<open>The scancodes that the loop gets to see.\<close>

definition seen :: "u8 list list \<Rightarrow> u8 list" where
  "seen css = concat (map (keep_last SCANCODE_QUEUE_CAPACITY) css)"

lemma bursts_session:
  assumes F: "first_fit_heap E ok live slack" "slack \<le> 256" "kernel_binary E"
  shows "memory_at ok live info pt s \<Longrightarrow> idle s t l \<Longrightarrow> [] \<notin> set css \<Longrightarrow>
    \<exists>xs c. boxes_for (fst (translate_all (seen css) (SHIFT s))) xs \<and> run_bursts E css (Sleeping, s) = Some c \<and>
      (main_step E)\<^sup>*\<^sup>* (Sleeping, s) c \<and> presents (session_run E pt info xs (Active t l (serial_text s))) c"
proof (induction css arbitrary: s t l)
  case Nil
  then show ?case by (intro exI [of _ "[]"] exI [of _ "(Sleeping, s)"]) (simp add: seen_def boxes_for_simps)
next
  case (Cons cs css)
  let ?cs = "keep_last SCANCODE_QUEUE_CAPACITY cs"
  let ?sh = "snd (translate_all ?cs (SHIFT s))"
  obtain s1 where s1: "kfor cs (keyboard_irq E) s = Ret () s1" "(main_step E)\<^sup>*\<^sup>* (Sleeping, s) (Loop_head, s1)"
    "editing s1 t l" "memory_at ok live info pt s1" "serial_text s1 = serial_text s" "SHIFT s1 = SHIFT s"
    "queue_contents (SCANCODE_QUEUE s1) = ?cs"
    using burst_wakes [OF Cons.prems(2,1), of cs E] Cons.prems(3) by auto
  obtain xs p s2 where s2: "boxes_for (fst (translate_all ?cs (SHIFT s))) xs" "loop_turn E s1 = Some (p, s2)"
    "(main_step E)\<^sup>*\<^sup>* (Loop_head, s1) (p, s2)" "presents (session_run E pt info xs (Active t l (serial_text s))) (p, s2)"
    "p = Sleeping \<longrightarrow> memory_at ok live info pt s2 \<and> SHIFT s2 = ?sh"
    using loop_turn_session [OF F s1(4,3,7)] s1(5,6) by auto
  have burst: "run_burst E cs s = Some (p, s2)" using s1(1) s2(2) by (simp add: run_burst_def)
  have run: "(main_step E)\<^sup>*\<^sup>* (Sleeping, s) (p, s2)" using s1(2) s2(3) by (rule rtranclp_trans)
  have tr: "fst (translate_all (seen (cs # css)) (SHIFT s)) =
      fst (translate_all ?cs (SHIFT s)) @ fst (translate_all (seen css) ?sh)"
    by (simp add: seen_def translate_all_append case_prod_unfold Let_def)
  show ?case
  proof (cases "session_run E pt info xs (Active t l (serial_text s))")
    case (Active t2 l2 out)
    then have a: "p = Sleeping" "idle s2 t2 l2" "serial_text s2 = out" using s2(4) by simp_all
    then obtain ys c where "boxes_for (fst (translate_all (seen css) ?sh)) ys" "run_bursts E css (Sleeping, s2) = Some c"
      "(main_step E)\<^sup>*\<^sup>* (Sleeping, s2) c" "presents (session_run E pt info ys (Active t2 l2 out)) c"
      using Cons.IH [of s2 t2 l2] Cons.prems(3) s2(5) by auto
    then show ?thesis
      using boxes_for_simps(3) [OF s2(1)] Active burst a(1) rtranclp_trans [OF run] unfolding tr
      by (intro exI [of _ "xs @ ys"] exI [of _ c]) (simp add: session_run_append)
  next
    case (Parked t2 out)
    then have "run_bursts E css (p, s2) = Some (p, s2)" using s2(4) by (cases css) simp_all
    moreover obtain ys where "boxes_for (fst (translate_all (seen css) ?sh)) ys" using boxes_exist by blast
    ultimately show ?thesis
      using boxes_for_simps(3) [OF s2(1)] Parked burst run s2(4) unfolding tr
      by (intro exI [of _ "xs @ ys"] exI [of _ "(p, s2)"]) (simp add: session_run_append session_run_parked)
  qed
qed

section \<open>Typed lines\<close>

lemma session_run_typed:
  "\<forall>x \<in> set xs. printable (fst x) \<Longrightarrow>
     session_run E pt info xs (Active t l out) = Active (tty_edits (map fst xs) l t) (fold line_spec (map fst xs) l) out"
proof (induction xs arbitrary: t l)
  case (Cons x xs)
  obtain b box where x: "x = (b, box)" by (cases x)
  then have "b \<noteq> newline" using Cons.prems by (auto simp: printable_def)
  then show ?case using Cons x by simp
qed simp

lemma seen_single: "seen (map (\<lambda>c. [c]) cs) = cs"
  by (induction cs) (simp_all add: seen_def keep_last_id SCANCODE_QUEUE_CAPACITY_def)

lemma session_run_line:
  assumes "boxes_for (line @ [newline]) xs" and "\<forall>b \<in> set line. printable b" and "length line \<le> 70" and "current t = PROMPT"
  shows "\<exists>box. box_address box \<and> session_run E pt info xs (Active t [] out) =
    session_byte E pt info (newline, box) (Active (t\<lparr>current := PROMPT @ line\<rparr>) line out)"
proof -
  obtain ys x where xs: "xs = ys @ [x]" "map fst ys = line" "fst x = newline"
    using assms(1) by (cases xs rule: rev_cases) (auto simp: boxes_for_def)
  have "\<forall>y \<in> set ys. printable (fst y)" using assms(2) unfolding xs(2) [symmetric] by simp
  from session_run_typed [OF this, of E pt info t "[]" out]
  have "session_run E pt info ys (Active t [] out) = Active (t\<lparr>current := PROMPT @ line\<rparr>) line out"
    using typed_row [OF assms(4,2,3)] fold_line_spec_typed [OF assms(2), of "[]"] assms(3) xs(2) by (simp add: LINE_CAPACITY_def)
  moreover have "box_address (snd x)" "x = (newline, snd x)" using assms(1) xs by (auto simp: boxes_for_def prod_eq_iff)
  ultimately show ?thesis
    using xs(1) by (intro exI [of _ "snd x"]) (simp add: session_run_append del: session_byte.simps)
qed

section \<open>Properties\<close>

text \<open>
  C19. End to end, for every command: on the keyboard of a kernel asleep at an empty prompt,
  pressing and releasing the keys of a line of at most 70 printable characters and then
  Enter has the effect that the specification gives to this line. The screen shows the line
  after the prompt and below it the reply and a new prompt, or the report of the panic or
  exception; the serial port has got the text of the command; and the kernel is asleep
  again with an empty line, or parked.
\<close>

theorem typed_line_has_effect:
  assumes "first_fit_heap E ok live slack" and "slack \<le> 256" and "kernel_binary E" and "memory_at ok live info pt s"
    and "idle s t []" and "current t = PROMPT" and "SHIFT s = ShiftState_new"
    and "\<forall>b \<in> set line. printable b" and "length line \<le> 70"
  shows "\<exists>box c. box_address box \<and>
    run_bursts E (map (\<lambda>k. [k]) (concat (map keystrokes line) @ enter_keystrokes)) (Sleeping, s) = Some c \<and>
    (main_step E)\<^sup>*\<^sup>* (Sleeping, s) c \<and>
    presents (session_byte E pt info (newline, box) (Active (t\<lparr>current := PROMPT @ line\<rparr>) line (serial_text s))) c"
proof -
  let ?cs = "concat (map keystrokes line) @ enter_keystrokes"
  have tr: "fst (translate_all (seen (map (\<lambda>k. [k]) ?cs)) (SHIFT s)) = line @ [newline]"
    using translate_typed [OF assms(8)] translate_enter assms(7) unfolding seen_single by (simp add: translate_all_append)
  have "[] \<notin> set (map (\<lambda>k. [k]) ?cs)" by auto
  from bursts_session [OF assms(1-5) this] obtain xs c where xs: "boxes_for (line @ [newline]) xs"
    "run_bursts E (map (\<lambda>k. [k]) ?cs) (Sleeping, s) = Some c" "(main_step E)\<^sup>*\<^sup>* (Sleeping, s) c"
    "presents (session_run E pt info xs (Active t [] (serial_text s))) c"
    unfolding tr by blast
  from session_run_line [OF xs(1) assms(8,9,6), of E pt info "serial_text s"] obtain box where "box_address box"
    "session_run E pt info xs (Active t [] (serial_text s)) =
      session_byte E pt info (newline, box) (Active (t\<lparr>current := PROMPT @ line\<rparr>) line (serial_text s))" by blast
  then show ?thesis using xs(2-) by metis
qed

lemma prompted_idle:
  "\<exists>s. idle (s :: (example_tables, example_heap, example_gdt) kernel) \<lparr>past = [], current = PROMPT\<rparr> [] \<and> SHIFT s = ShiftState_new \<and>
     memory_at (\<lambda>_. True) set \<lparr>usable_bytes = 131072, heap_start = HEAP_START, heap_size = HEAP_SIZE\<rparr> Map.empty s"
proof -
  let ?s = "(printed PROMPT prompt_kernel)\<lparr>interrupts_enabled := True\<rparr>"
  have "idle ?s \<lparr>past = [], current = PROMPT\<rparr> []"
    using editing_printed [OF prompt_kernel_editing, of PROMPT]
    by (simp add: idle_def editing_flag prompt_alone)
      (simp add: prompt_kernel_def ready_kernel_def example_kernel_def kernel_start_def queue_contents_new)
  then show ?thesis
    by (intro exI [of _ ?s])
      (simp add: memory_at_def prompt_kernel_def ready_kernel_def example_kernel_def kernel_start_def)
qed

theorem typed_line_has_effect_witness:
  "\<exists>s p s'. run_bursts example_env (map (\<lambda>k. [k]) (concat (map keystrokes (str ''panic'')) @ enter_keystrokes)) (Sleeping, s) =
      Some (p, s') \<and> p = Stopped Halted \<and>
     serial_text (s' :: (example_tables, example_heap, example_gdt) kernel) =
       serial_text s @ str ''[PANIC] '' @ panic_command_text @ [newline]"
proof -
  let ?info = "\<lparr>usable_bytes = 131072, heap_start = HEAP_START, heap_size = HEAP_SIZE\<rparr>"
  obtain s :: "(example_tables, example_heap, example_gdt) kernel" where
    s: "idle s \<lparr>past = [], current = PROMPT\<rparr> []" "SHIFT s = ShiftState_new" "memory_at (\<lambda>_. True) set ?info Map.empty s"
    using prompted_idle by blast
  have line: "\<forall>b \<in> set (str ''panic''). printable b" "length (str ''panic'') \<le> 70" "(64 :: nat) \<le> 256"
    by (simp_all add: byte_def printable_def)
  have name: "trim (str ''panic'') = str ''panic''" "split_command (str ''panic'') = (str ''panic'', [])" "str ''panic'' \<noteq> []"
    by code_simp+
  have "command_effect example_env Map.empty ?info box (str ''panic'') =
      Parks (str ''[PANIC] '' @ panic_command_text @ [newline])
        (newline # str ''[PANIC] '' @ VERSION @ str '' parou: '' @ panic_command_text)" for box
    by (simp add: command_effect_def name str_inj del: str_simps)
  then show ?thesis
    using typed_line_has_effect [OF example_first_fit line(3) example_kernel_binary s(3,1) _ s(2) line(1,2)] by (fastforce simp del: str_simps)
qed

text \<open>
  C25. A burst of keys loses as few of them as possible: when scancodes arrive faster than
  the loop turns, every interrupt is handled and acknowledged to the controllers, and the
  last 16 scancodes are in the queue in their order, never more. Apart from the queue, the
  acknowledgements and the data register of the keyboard, which holds the last scancode,
  the state of the kernel is the same as before; in particular the screen, the line, the
  Shift state and the serial port.
\<close>

theorem burst_keeps_last:
  assumes "idle s t l" and "cs \<noteq> []"
  shows "\<exists>s'. kfor cs (keyboard_irq E) s = Ret () s' \<and> (main_step E)\<^sup>*\<^sup>* (Sleeping, s) (Loop_head, s') \<and>
    queue_contents (SCANCODE_QUEUE s') = keep_last 16 cs \<and> length (queue_contents (SCANCODE_QUEUE s')) \<le> 16 \<and>
    s' = s\<lparr>SCANCODE_QUEUE := SCANCODE_QUEUE s', keyboard_data := last cs,
      pic_log := pic_log s @ replicate (length cs) (Pics_notify_end_of_interrupt KEYBOARD_INTERRUPT_VECTOR)\<rparr> \<and>
    editing s' t l \<and> SHIFT s' = SHIFT s \<and> serial_text s' = serial_text s"
proof -
  obtain info where "MEMORY_INFO s = Some info" using assms(1) by (auto simp: idle_def editing_def kernel_inv_def running_def)
  then have "memory_at (\<lambda>_. True) (\<lambda>_. {}) info (page_tables s) s" by (simp add: memory_at_def)
  from burst_wakes [OF assms(1) this assms(2), of E]
  obtain s' where s': "kfor cs (keyboard_irq E) s = Ret () s'" "(main_step E)\<^sup>*\<^sup>* (Sleeping, s) (Loop_head, s')"
    "editing s' t l" "serial_text s' = serial_text s" "SHIFT s' = SHIFT s"
    "queue_contents (SCANCODE_QUEUE s') = keep_last 16 cs"
    unfolding SCANCODE_QUEUE_CAPACITY_def by blast
  have "kernel_inv s" using assms(1) by (simp add: idle_def editing_def)
  from burst_frame [OF this s'(1)] have "burst_taken cs s s'" .
  then show ?thesis using s' assms(2) by (intro exI [of _ s']) (simp add: burst_taken_def keep_last_def)
qed

theorem burst_keeps_last_witness:
  "\<exists>s s'. kfor (replicate 20 0x1E @ [0x30]) (keyboard_irq example_env) s = Ret () s' \<and>
     queue_contents (SCANCODE_QUEUE (s' :: (example_tables, example_heap, example_gdt) kernel)) = replicate 15 0x1E @ [0x30] \<and>
     pic_log s' = pic_log s @ replicate 21 (Pics_notify_end_of_interrupt KEYBOARD_INTERRUPT_VECTOR) \<and> heap s' = heap s"
proof -
  let ?cs = "replicate 20 0x1E @ [0x30 :: u8]"
  obtain s :: "(example_tables, example_heap, example_gdt) kernel" where s: "idle s \<lparr>past = [], current = PROMPT\<rparr> []"
    using prompted_idle by blast
  have cs: "?cs \<noteq> []" "keep_last 16 ?cs = replicate 15 0x1E @ [0x30]" "length ?cs = 21" by (simp_all add: keep_last_def)
  obtain s' where s': "kfor ?cs (keyboard_irq example_env) s = Ret () s'" "queue_contents (SCANCODE_QUEUE s') = keep_last 16 ?cs"
    and frame: "s' = s\<lparr>SCANCODE_QUEUE := SCANCODE_QUEUE s', keyboard_data := last ?cs,
      pic_log := pic_log s @ replicate (length ?cs) (Pics_notify_end_of_interrupt KEYBOARD_INTERRUPT_VECTOR)\<rparr>"
    using burst_keeps_last [OF s cs(1), of example_env] by blast
  have "pic_log s' = pic_log s @ replicate 21 (Pics_notify_end_of_interrupt KEYBOARD_INTERRUPT_VECTOR)" "heap s' = heap s"
    using arg_cong [OF frame, of pic_log] arg_cong [OF frame, of heap] unfolding cs(3) by simp_all
  then show ?thesis using s' unfolding cs(2) by blast
qed

end
