(* ===== verification/Spec2Isabelle.thy ===== *)
theory Spec2Isabelle
  imports Heap_Tests Paging_Tests Session_Runs
begin

text \<open>
  \<^bold>\<open>A verification development for proto-os\<close>

  proto-os is a small x86-64 kernel in Rust (\<^verbatim>\<open>src/src/*.rs\<close>). The bootloader enters
  \<open>kernel_main\<close> (\<^verbatim>\<open>main.rs\<close>), which initialises the serial port, the descriptor
  tables, the interrupt table and the interrupt controllers, and the memory (page mappings
  and heap), clears the screen, greets, and loops: it works off the scancodes that the
  keyboard interrupt has queued, feeding the translated bytes to a command prompt, and
  halts until the next interrupt. Commands print, clear the screen, use the heap, panic on
  purpose or provoke processor exceptions on purpose, which the handlers report on the
  screen and on the serial port.

  \<^bold>\<open>Theories and the code they model\<close>

  \<^item> \<open>Rust_Prelude\<close>, \<open>Rust_Str\<close>, \<open>Text_Sink\<close>, \<open>Bounded_Store\<close>: what the components share.
    Integers and byte strings, panics as the left side of a sum, checked arithmetic and
    array accesses, loops over iterators, \<open>str\<close> and number formatting; the contract of a
    byte sink (locale \<open>text_sink\<close>) and of bounded queues and stacks (locales
    \<open>bounded_store\<close>, \<open>lossy_fifo\<close>, \<open>refusing_lifo\<close>).
  \<^item> \<open>Vga_Buffer\<close> (\<^verbatim>\<open>vga_buffer.rs\<close>): the colours, the grid, the \<open>Writer\<close> and all its
    methods, the port writes of the cursor, the searches of the screen. \<open>Vga_Terminal\<close>: the
    abstract terminal and the proof that the writer refines it (interpretation of
    \<open>text_sink\<close>). \<open>Vga_Screen\<close>: the properties of the display. \<open>Screen_Text\<close>: which written
    text can be found on the screen.
  \<^item> \<open>Keyboard\<close> (\<^verbatim>\<open>keyboard.rs\<close>): Shift state, scancode table, \<open>translate\<close>, and the US QWERTY
    layout, written down row by row, as its specification (\<open>us_qwerty\<close>).
  \<^item> \<open>Scancode_Queue\<close> (\<^verbatim>\<open>interrupts.rs\<close>) and \<open>Line_Buffer\<close> (\<^verbatim>\<open>shell.rs\<close>): the ring
    buffer and the line, each an interpretation of its contract.
  \<^item> \<open>Frame_Allocator\<close>, \<open>Memory_Init\<close> (\<^verbatim>\<open>memory.rs\<close>) and \<open>Kernel_Heap\<close>
    (\<^verbatim>\<open>allocator.rs\<close>): the frame allocator (locale \<open>frame_source\<close> and its interpretation),
    mapping of pages, \<open>init_heap\<close>, the memory summary. \<open>Gdt_Tss\<close> (\<^verbatim>\<open>gdt.rs\<close>): the task
    state segment with its interrupt stack table and the descriptor table; boot loads them,
    and the processor finds the segment through the selector (\<open>tss_at\<close>, \<open>load_tss\<close>).
  \<^item> \<open>Kernel_State\<close>: the record of all statics and processor registers, outcomes of code
    (return, parked, spinning on a lock, triple fault), locks, interrupt masking, and
    \<^verbatim>\<open>serial.rs\<close>. \<open>Panic\<close> (\<^verbatim>\<open>panic.rs\<close>, the panic handlers of
    \<^verbatim>\<open>main.rs\<close>, \<^verbatim>\<open>lib.rs\<close> and \<^verbatim>\<open>tests/should_panic.rs\<close>, and the global functions of
    \<^verbatim>\<open>vga_buffer.rs\<close>), \<open>Interrupts\<close> (\<^verbatim>\<open>interrupts.rs\<close>: table, handlers, controllers,
    and the delivery of exceptions by the processor, which for an entry with a stack index
    switches to the address in that slot of the loaded segment, \<open>ist_pointer\<close>).
  \<^item> \<open>Shell\<close> (\<^verbatim>\<open>shell.rs\<close>: all commands, \<open>execute\<close>, \<open>feed\<close>), with its lemmas in
    \<open>Shell_Safety\<close> (nothing hangs), \<open>Shell_Spec\<close> (the editor), \<open>Shell_Commands\<close> (what
    Enter does) and \<open>Shell_Mem\<close> (the heap). \<open>Heap_Service\<close>: the full contract of the
    allocator and the requests that it serves.
  \<^item> \<open>Boot\<close> (\<^verbatim>\<open>lib.rs\<close>, and \<open>kernel_main\<close> up to its loop) and \<open>Main_Loop\<close>
    (\<^verbatim>\<open>main.rs\<close>: the loop and the interrupt as a step relation). \<open>Loop_Progress\<close>: the inner
    loop as a function and its termination. \<open>Loop_Memory\<close>: heap, page tables and double
    fault stack in every state the loop can reach. \<open>Command_Effects\<close>: the effect of every line, as the user sees
    it. \<open>Session_Runs\<close>: the specification of a session for every input, the machine that
    takes bursts of scancodes and turns the loop, and the proof that it follows the
    specification.
  \<^item> \<open>Test_Support\<close> and \<open>Test_Harness\<close> (\<^verbatim>\<open>lib.rs\<close>): assertions, the handlers of the fault
    tests, the runner and its contract with the tests (locale \<open>test_suite\<close>).
    \<open>Unit_Tests\<close>: the 26 tests in \<^verbatim>\<open>serial.rs\<close>, \<^verbatim>\<open>interrupts.rs\<close>, \<^verbatim>\<open>keyboard.rs\<close>,
    \<^verbatim>\<open>vga_buffer.rs\<close> and \<^verbatim>\<open>shell.rs\<close>. \<open>Unit_Tests_Pass\<close> and \<open>Unit_Suite\<close>: they pass
    (interpretation \<open>unit_tests\<close>). \<open>Integration_Tests\<close>: the test binaries
    \<^verbatim>\<open>boot_integration.rs\<close>, \<^verbatim>\<open>frame_allocator.rs\<close> (interpretations \<open>boot_tests\<close> and
    \<open>frame_tests\<close>), \<^verbatim>\<open>should_panic.rs\<close>, \<^verbatim>\<open>page_fault.rs\<close> and \<^verbatim>\<open>double_fault.rs\<close>.
    \<open>Heap_Tests\<close> and \<open>Paging_Tests\<close>: \<^verbatim>\<open>heap_allocation.rs\<close> and \<^verbatim>\<open>paging.rs\<close>
    (interpretations \<open>heap_tests\<close> and \<open>paging_tests\<close>).

  \<^bold>\<open>State and effects\<close>

  A method of a data structure is a function from the structure to \<open>rust_panic + 'a\<close>. Code
  that works on the statics is a function from the record \<open>kernel\<close> to an \<open>outcome\<close>,
  composed with \<open>kbind\<close>; \<open>wp\<close> is its weakest precondition. A panic inside such code runs the
  handler of the binary it is linked into (\<open>call_panic_handler\<close>): \<open>on_panic\<close> and with it
  \<open>panic::handle\<close> in the kernel (\<open>kernel_binary\<close>), \<open>test_on_panic\<close> in the test binaries,
  and the one of \<^verbatim>\<open>should_panic.rs\<close>. Formatted output is the list of its pieces. A lock is a name in the
  set \<open>held\<close>; on the single processor, taking a held lock never ends, which is the outcome
  \<open>Spin\<close>. The registers that matter are fields too: the loaded tables (\<open>cpu_gdt\<close>,
  \<open>cpu_tss\<close>, \<open>cpu_idt\<close>) and the stack that the processor has switched to for a handler
  (\<open>cpu_stack\<close>, nothing while it runs on the boot stack). The stack is its remaining room (\<open>stack_room\<close>): the recursion of
  \<open>stack_overflow\<close> is on it, so it ends for every room. No other definition has fuel: the
  endless loop of \<open>kernel_main\<close> is a step relation, its inner loop also a partial function
  (\<open>drain\<close>) that is proved to return, and every other function is total.

  \<^bold>\<open>Parameters\<close>

  The crates (\<^verbatim>\<open>x86_64\<close>, \<^verbatim>\<open>bootloader\<close>, \<^verbatim>\<open>linked_list_allocator\<close>, \<^verbatim>\<open>uart_16550\<close>,
  \<^verbatim>\<open>pic8259\<close>) are records of functions (\<open>phys_api\<close>, \<open>virt_api\<close>, \<open>mapper_api\<close>,
  \<open>paging_api\<close>, \<open>gdt_api\<close>, the heap functions of \<open>env\<close>) with predicates for what they
  document (\<open>phys_api_ok\<close>, \<open>virt_api_ok\<close>, \<open>mapper_ok\<close>, \<open>paging_ok\<close>, \<open>gdt_api_ok\<close>,
  \<open>heap_contract\<close>, \<open>first_fit_heap\<close>), or logs of the calls made (\<open>serial_op\<close>, \<open>pic_op\<close>, \<open>port_op\<close>). The
  text of compiler-generated panics, instruction addresses, and what the processor answers
  to a memory access are fields of \<open>env\<close>, without any assumption but \<open>mmu_agrees\<close> and
  \<open>mmu_allows\<close>, where a statement needs that the processor translates as the page tables say, and
  \<open>page_fault_bits\<close>, where it says which bits of an error code the report puts into words. The
  contract \<open>paging_ok\<close> speaks only of the mapper for the active table and the offset of the
  bootloader; \<open>region_mapper\<close> is a mapper that takes frames for tables and keeps \<open>mapper_ok\<close>. The mapper of the
  crate only promises something for frames that are not in use as page tables; that the
  memory map of the bootloader reports no such frame as usable is \<open>tables_reserved\<close>.

  \<^bold>\<open>What the theorems show\<close>

  Data structures refine their abstract contracts and never panic. The display refines a
  terminal. Heap initialisation maps the whole range injectively into usable memory and
  changes no other translation; it fails, without touching the allocator, only for lack of
  frames or because the range is in use. A second frame allocator on the same memory map
  delivers the first frame of the heap and every frame taken for a page table. On every machine with 100 free frames boot reaches the prompt. Every
  byte of input leaves the kernel in its invariant with all locks free, or parked after a
  report. Every line, whatever it is, has its effect on screen, serial port, line and heap. Fatal
  exceptions, stack overflow included, are reported and never reset the machine; in every
  reachable state the double fault handler runs on the stack reserved for it. The keyboard has the
  US QWERTY layout. A second fatal event never touches the display; a second exception waits for ever if the
  first event was interrupted while it held the serial port. The inner
  loop ends after at most 17 turns. The whole program, from power-on and for every sequence of
  bursts of scancodes, does what the specification of a session says, up to a command that
  parks the processor; only the address of the box that \<open>mem\<close> shows is left open. However long the kernel runs, \<open>mem\<close> is served by
  a first-fit allocator, which ends with no block in use, and \<open>falha pagina\<close> faults. The
  unit tests and the integration tests pass, in any order; a failing test is reported, and so is
  a test binary that cannot boot, but for \<^verbatim>\<open>should_panic.rs\<close>, which then reports success
  (\<open>should_panic_hides_boot_failure\<close>).

  \<^bold>\<open>Bounds\<close>

  \<open>usize\<close> and \<open>u64\<close> are natural numbers with every overflow written out as a panic;
  bytes, ports and selectors are words. The heap has 25 pages, and mapping one takes its
  frame and at most three table frames, hence the 100 frames that suffice for it. The
  requests on the heap are served because few small blocks cannot hide every gap: of
  \<open>2 k + 1\<close> windows \<open>k\<close> blocks leave one free; the allocator may round each block up by 256
  bytes. The
  physical addresses of frames stay below \<open>2 ^ 52\<close> and the virtual addresses of the
  kernel in the lower canonical half, which the contracts of the crates require. The
  prompt takes 10 of the 80 columns: up to 70 characters the row and the line agree, and
  \<open>wrapped_backspace_diverges\<close> shows what happens beyond.

  \<^bold>\<open>Not modelled\<close>

  What the mapper does with frames that are in use as page tables, which its documentation
  excludes: the third test of \<^verbatim>\<open>tests/paging.rs\<close>, whose allocator starts again at the first
  usable frame (\<open>second_allocator_aliases_heap\<close>), is only shown to pass when the
  initialisation has taken no frame for a table; the encoding of descriptor and page-table entries, which belongs to
  the crates; the timing of devices; nested interrupts, which the interrupt gates exclude;
  the partial effects of a display method or of a crate function up to the point where it
  panics (none of them does, by the theorems and by the contracts).
\<close>

section \<open>The whole kernel\<close>

text \<open>
  C2. From the prompt that boot reaches, whatever keys arrive and whenever the interrupts
  come, the kernel is never caught spinning on a lock and never resets: in every reachable
  state it is either parked after a panic or a fatal exception, or at one of the points of
  its loop with the invariant intact, no lock held, interrupts disabled while it drains
  the queue and enabled while it sleeps.
\<close>

theorem main_loop_never_stuck:
  assumes "kernel_binary E" and "at_prompt bi s" and "(main_step E)\<^sup>*\<^sup>* (Loop_head, s) (p, s')"
  shows "case p of
      Stopped e \<Rightarrow> e = Halted \<and> PANICKING s'
    | Draining was \<Rightarrow> kernel_inv s' \<and> \<not> interrupts_enabled s'
    | Sleeping \<Rightarrow> kernel_inv s' \<and> interrupts_enabled s'
    | _ \<Rightarrow> kernel_inv s'"
proof -
  have "main_inv (Loop_head, s)" using assms(2) by (simp add: at_prompt_def editing_def)
  then have "main_inv (p, s')" by (rule main_reach_inv [OF assms(1,3)])
  then show ?thesis by (cases p) simp_all
qed

text \<open>A kernel at the prompt of the concrete machine, for the witnesses.\<close>

definition booted_kernel :: "(example_tables, example_heap, example_gdt) kernel" where
  "booted_kernel =
     (printed PROMPT (printed (concat (map (\<lambda>l. l @ [newline]) welcome_lines)) prompt_kernel))
       \<lparr>MEMORY_INFO := Some (boot_summary example_boot_info),
        pic_log := [Pics_initialize PIC_1_OFFSET PIC_2_OFFSET, Pics_write_masks MASTER_PIC_MASK SLAVE_PIC_MASK],
        serial_log := [Serial_write_str (boot_stages @ boot_memory_line (boot_summary example_boot_info) @
          str ''[boot] prompt pronto'' @ [newline])]\<rparr>"

lemma booted_kernel_at_prompt: "at_prompt example_boot_info booted_kernel"
proof -
  have "editing (printed PROMPT (printed (concat (map (\<lambda>l. l @ [newline]) welcome_lines)) prompt_kernel))
      \<lparr>past = welcome_lines, current = PROMPT\<rparr> []"
    unfolding welcome_shown [symmetric] by (intro editing_printed prompt_kernel_editing)
  then have "editing booted_kernel \<lparr>past = welcome_lines, current = PROMPT\<rparr> []"
    by (simp add: editing_def kernel_inv_def running_def booted_kernel_def)
  then show ?thesis
    by (simp add: at_prompt_def booted_kernel_def serial_text_def prompt_kernel_def queue_contents_new del: str_simps)
      (simp add: ready_kernel_def example_kernel_def kernel_start_def)
qed

theorem main_loop_never_stuck_witness:
  "\<exists>s. (main_step example_env)\<^sup>*\<^sup>* (Loop_head, booted_kernel) (Sleeping, s) \<and> queue_contents (SCANCODE_QUEUE s) = [] \<and>
     kernel_inv s \<and> interrupts_enabled s"
proof -
  have s: "editing booted_kernel \<lparr>past = welcome_lines, current = PROMPT\<rparr> []" "queue_contents (SCANCODE_QUEUE booted_kernel) = []"
    using booted_kernel_at_prompt by (simp_all add: at_prompt_def)
  obtain s1 where s1: "(main_step example_env)\<^sup>*\<^sup>* (Loop_head, booted_kernel) (Before_hlt, s1)" "queue_contents (SCANCODE_QUEUE s1) = []"
    using quiet_turn [OF s] by auto
  have run: "(main_step example_env)\<^sup>*\<^sup>* (Loop_head, booted_kernel) (Sleeping, s1\<lparr>interrupts_enabled := True\<rparr>)"
    using s1(1) hlt [of example_env s1] by (rule rtranclp.rtrancl_into_rtrancl)
  from main_loop_never_stuck [OF example_kernel_binary booted_kernel_at_prompt run] run s1(2)
  show ?thesis by (intro exI [of _ "s1\<lparr>interrupts_enabled := True\<rparr>"]) simp
qed

text \<open>
  C39. A wake-up can be lost. From the second turn of the loop on, leaving the section
  without interrupts enables them again, before \<^verbatim>\<open>sti; hlt\<close>. A key that arrives there is
  queued, and the processor then sleeps with the scancode waiting until another interrupt
  comes.
\<close>

theorem wakeup_can_be_lost:
  assumes "at_prompt bi s"
  shows "\<exists>s'. (main_step E)\<^sup>*\<^sup>* (Loop_head, s) (Sleeping, s') \<and> queue_contents (SCANCODE_QUEUE s') = [c]"
proof -
  let ?t = "\<lparr>past = welcome_lines, current = PROMPT\<rparr>"
  have s: "editing s ?t []" "queue_contents (SCANCODE_QUEUE s) = []" "\<not> interrupts_enabled s"
    using assms by (simp_all add: at_prompt_def)
  obtain s1 where s1: "(main_step E)\<^sup>*\<^sup>* (Loop_head, s) (Before_hlt, s1)" "editing s1 ?t []" "queue_contents (SCANCODE_QUEUE s1) = []"
    using quiet_turn [OF s(1,2)] s(3) by auto
  let ?s1 = "s1\<lparr>interrupts_enabled := True\<rparr>"
  have "editing ?s1 ?t []" "queue_contents (SCANCODE_QUEUE ?s1) = []" using s1(2,3) by (simp_all add: editing_flag)
  from irq_editing [OF this, of E "0x9E"] obtain s2 where s2: "keyboard_irq E 0x9E ?s1 = Ret () s2" "editing s2 ?t []"
    "queue_contents (SCANCODE_QUEUE s2) = [0x9E]" "interrupts_enabled s2" by auto
  have woken: "main_step E (Sleeping, ?s1) (Loop_head, s2)" using irq [of ?s1 Sleeping E "0x9E" s2] s2(1) by simp
  have "fst (translate_all [0x9E] (SHIFT s2)) = []"
    by (simp add: translate_def LEFT_SHIFT_MAKE_def LEFT_SHIFT_BREAK_def RIGHT_SHIFT_MAKE_def RIGHT_SHIFT_BREAK_def)
  from quiet_turn [OF s2(2,3) this] obtain s3 where s3: "(main_step E)\<^sup>*\<^sup>* (Loop_head, s2) (Before_hlt, s3)" "editing s3 ?t []"
    "queue_contents (SCANCODE_QUEUE s3) = []" "interrupts_enabled s3"
    using s2(4) by auto
  from irq_editing [OF s3(2,3), of E c] obtain s4 where s4: "keyboard_irq E c s3 = Ret () s4" "queue_contents (SCANCODE_QUEUE s4) = [c]"
    by auto
  have "main_step E (Before_hlt, s3) (Before_hlt, s4)" using irq [of s3 Before_hlt E c s4] s3(4) s4(1) by simp
  then have "(main_step E)\<^sup>*\<^sup>* (Loop_head, s) (Sleeping, s4\<lparr>interrupts_enabled := True\<rparr>)"
    using s1(1) hlt [of E s1] woken s3(1) hlt [of E s4] by (meson rtranclp.rtrancl_into_rtrancl rtranclp_trans)
  then show ?thesis using s4(2) by (intro exI [of _ "s4\<lparr>interrupts_enabled := True\<rparr>"]) simp
qed

theorem wakeup_can_be_lost_witness:
  "\<exists>s'. (main_step example_env)\<^sup>*\<^sup>* (Loop_head, booted_kernel) (Sleeping, s') \<and>
     queue_contents (SCANCODE_QUEUE s') = [0x1E]"
  by (rule wakeup_can_be_lost [OF booted_kernel_at_prompt])

text \<open>
  C1. From power-on, for every input: on a machine and with an allocator that keep the
  documented contracts, the kernel boots from any contents of the video memory, reaches its
  prompt and goes to sleep. Then, whatever scancodes arrive in whatever bursts, the kernel
  does exactly what the specification of a session says: of each burst the last 16
  scancodes count; their bytes edit the line, and Enter has the effect of its line, for
  every line. Afterwards the kernel is asleep, or parked after a fatal command, with the
  screen, the line and the serial text that the specification gives from the welcome screen.
\<close>

theorem power_on_follows_session:
  fixes E :: "('pt, 'h) env"
  assumes "kernel_binary E" and "machine_ok B bi" and "grid_wf mem" and "heap_mappable (phys B) (virt B) (paging B) bi pt"
    and "first_fit_heap E ok live slack" and "slack \<le> 256"
    and "ok (heap_init B HEAP_START HEAP_SIZE h)" and "live (heap_init B HEAP_START HEAP_SIZE h) = {}"
  shows "\<exists>s0 s1. kernel_main_prologue E B bi (kernel_start mem pt h) = Ret () s0 \<and>
    loop_turn E s0 = Some (Sleeping, s1) \<and>
    (\<forall>css. [] \<notin> set css \<longrightarrow>
      (\<exists>xs c. boxes_for (fst (translate_all (seen css) ShiftState_new)) xs \<and>
         run_bursts E css (Sleeping, s1) = Some c \<and> (main_step E)\<^sup>*\<^sup>* (Loop_head, s0) c \<and>
         presents (session_run E (page_tables s0) (boot_summary bi) xs
           (Active \<lparr>past = welcome_lines, current = PROMPT\<rparr> [] (boot_log bi))) c))"
proof -
  let ?t = "\<lparr>past = welcome_lines, current = PROMPT\<rparr>"
  obtain s0 where s0: "kernel_main_prologue E B bi (kernel_start mem pt h) = Ret () s0" "at_prompt bi s0"
    "heap s0 = heap_init B HEAP_START HEAP_SIZE h"
    using boot_at_prompt [OF assms(2-4)] by blast
  then have start: "editing s0 ?t []" "queue_contents (SCANCODE_QUEUE s0) = []" "SHIFT s0 = ShiftState_new"
    "serial_text s0 = boot_log bi" "memory_at ok live (boot_summary bi) (page_tables s0) s0"
    using assms(7,8) by (simp_all add: at_prompt_def memory_at_def boot_log_def)
  from loop_turn_session [OF assms(5,6,1) start(5,1,2)] obtain s1 where
    s1: "loop_turn E s0 = Some (Sleeping, s1)" "(main_step E)\<^sup>*\<^sup>* (Loop_head, s0) (Sleeping, s1)" "idle s1 ?t []"
      "serial_text s1 = boot_log bi" "memory_at ok live (boot_summary bi) (page_tables s0) s1" "SHIFT s1 = ShiftState_new"
    using start(3,4) by (auto simp: boxes_for_def)
  have "\<exists>xs c. boxes_for (fst (translate_all (seen css) ShiftState_new)) xs \<and>
      run_bursts E css (Sleeping, s1) = Some c \<and> (main_step E)\<^sup>*\<^sup>* (Loop_head, s0) c \<and>
      presents (session_run E (page_tables s0) (boot_summary bi) xs (Active ?t [] (boot_log bi))) c" if "[] \<notin> set css" for css
    using bursts_session [OF assms(5,6,1) s1(5,3) that] rtranclp_trans [OF s1(2)] unfolding s1(4,6) by blast
  then show ?thesis using s0(1) s1(1) by blast
qed

theorem power_on_follows_session_witness:
  "\<exists>s0 s1 box s'. kernel_main_prologue example_env example_machine example_boot_info (kernel_start (buffer blank_writer) Map.empty []) = Ret () s0 \<and>
     loop_turn example_env s0 = Some (Sleeping, s1) \<and>
     run_bursts example_env [concat (map keystrokes (str ''mem'')) @ enter_keystrokes] (Sleeping, s1) = Some (Sleeping, s') \<and>
     idle s' (tty_write (newline # mem_text (boot_summary example_boot_info) box @ PROMPT)
       \<lparr>past = welcome_lines, current = PROMPT @ str ''mem''\<rparr>) []"
proof -
  let ?css = "[concat (map keystrokes (str ''mem'')) @ enter_keystrokes]" and ?t = "\<lparr>past = welcome_lines, current = PROMPT\<rparr>"
  have h: "True" "set (heap_init example_machine HEAP_START HEAP_SIZE []) = {}" "(64 :: nat) \<le> 256" "[] \<notin> set ?css"
    by (simp_all add: example_machine_def enter_keystrokes_def)
  have line: "\<forall>b \<in> set (str ''mem''). printable b" "length (str ''mem'') \<le> 70" "current ?t = PROMPT"
    by (simp_all add: byte_def printable_def)
  have tr: "fst (translate_all (seen ?css) ShiftState_new) = str ''mem'' @ [newline]" by code_simp
  have name: "trim (str ''mem'') = str ''mem''" "split_command (str ''mem'') = (str ''mem'', [])" "str ''mem'' \<noteq> []"
    by code_simp+
  have effect: "command_effect example_env pt info box (str ''mem'') = Prints [] (mem_text info box)" for pt info box
    by (simp add: command_effect_def name str_inj del: str_simps)
  from power_on_follows_session [OF example_kernel_binary example_machine_ok blank_grid example_heap_fits example_first_fit h(3,1,2)]
  obtain s0 s1 xs c where run:
    "kernel_main_prologue example_env example_machine example_boot_info (kernel_start (buffer blank_writer) Map.empty []) = Ret () s0"
    "loop_turn example_env s0 = Some (Sleeping, s1)" "boxes_for (str ''mem'' @ [newline]) xs"
    "run_bursts example_env ?css (Sleeping, s1) = Some c"
    "presents (session_run example_env (page_tables s0) (boot_summary example_boot_info) xs (Active ?t [] (boot_log example_boot_info))) c"
    using h(4) tr by metis
  from session_run_line [OF run(3) line, of example_env "page_tables s0" "boot_summary example_boot_info" "boot_log example_boot_info"]
  obtain box where "session_run example_env (page_tables s0) (boot_summary example_boot_info) xs (Active ?t [] (boot_log example_boot_info)) =
      Active (tty_write (newline # mem_text (boot_summary example_boot_info) box @ PROMPT)
        \<lparr>past = welcome_lines, current = PROMPT @ str ''mem''\<rparr>) [] (boot_log example_boot_info)"
    by (auto simp: effect simp del: str_simps)
  then show ?thesis using run(1,2,4,5) by (cases c) auto
qed

end
